(* ===== verification/Prelude.thy ===== *)
theory Prelude
  imports Main "HOL-Library.Word"
begin

text \<open>
  What every component of the gateway shares: bytes and the exceptions the code can raise,
  results that may be an exception, Python sequence access (\<^verbatim>\<open>xs[i]\<close>, \<^verbatim>\<open>xs[i:j]\<close> with
  negative bounds), big-endian integers (\<^verbatim>\<open>int.from_bytes\<close>, \<^verbatim>\<open>int.to_bytes\<close>) and
  \<^verbatim>\<open>bytes.hex\<close>. The lemmas on them carry the parser and frame proofs.
\<close>

named_theorems result_simps \<open>rewriting of results that may be an exception\<close>
named_theorems bytes_simps \<open>lengths and values of big-endian byte strings\<close>

section \<open>Bytes, exceptions, results\<close>

type_synonym byte = "8 word"
type_synonym bytes = "byte list"

text \<open>
  The exception classes the code raises or lets through, with the data a handler inspects. A
  ConversionError is the ValueError of \<^verbatim>\<open>int(s)\<close> or \<^verbatim>\<open>float(s)\<close> where its message, which quotes
  the text, is looked at.
\<close>

datatype exn =
    ValueError
  | ConversionError string
  | UnicodeError
  | OverflowError
  | StructError
  | IndexError
  | TypeError
  | AttributeError
  | KeyError string
  | Gps103ParseError
  | FrameOverflowError
  | TeltonikaFrameError
  | TeltonikaParseError
  | TeltonikaCrcError
  | UnsupportedCodecError nat
  | UnsupportedCommandError string
  | DeviceOffline
  | TimeoutError
  | DbError
  | RuntimeError
  | OSError
  | SocketError

text \<open>
  \<^verbatim>\<open>except ValueError\<close> also catches the subclasses of ValueError, and
  \<^verbatim>\<open>except TeltonikaParseError\<close> the subclasses of TeltonikaParseError.
\<close>

fun is_value_error :: "exn \<Rightarrow> bool" where
  "is_value_error ValueError = True"
| "is_value_error (ConversionError _) = True"
| "is_value_error UnicodeError = True"
| "is_value_error Gps103ParseError = True"
| "is_value_error _ = False"

fun is_teltonika_parse_error :: "exn \<Rightarrow> bool" where
  "is_teltonika_parse_error TeltonikaParseError = True"
| "is_teltonika_parse_error TeltonikaCrcError = True"
| "is_teltonika_parse_error (UnsupportedCodecError _) = True"
| "is_teltonika_parse_error _ = False"

type_synonym 'a result = "exn + 'a"

definition bindR :: "'a result \<Rightarrow> ('a \<Rightarrow> 'b result) \<Rightarrow> 'b result" where
  "bindR m f = (case m of Inl e \<Rightarrow> Inl e | Inr x \<Rightarrow> f x)"

lemma bindR_Inl [simp]: "bindR (Inl e) f = Inl e"
  by (simp add: bindR_def)

lemma bindR_Inr [simp]: "bindR (Inr x) f = f x"
  by (simp add: bindR_def)

lemma bindR_eq_Inr_iff [result_simps]:
  "bindR m f = Inr y \<longleftrightarrow> (\<exists>x. m = Inr x \<and> f x = Inr y)"
  by (cases m) auto

lemma bindR_eq_Inl_iff [result_simps]:
  "bindR m f = Inl e \<longleftrightarrow> m = Inl e \<or> (\<exists>x. m = Inr x \<and> f x = Inl e)"
  by (cases m) auto

lemma bindR_assoc: "bindR (bindR m f) g = bindR m (\<lambda>x. bindR (f x) g)"
  by (cases m) auto

lemma bindR_cong [fundef_cong]:
  "m = m' \<Longrightarrow> (\<And>x. m' = Inr x \<Longrightarrow> f x = g x) \<Longrightarrow> bindR m f = bindR m' g"
  by (cases m') auto

section \<open>Python sequences\<close>

text \<open>\<^verbatim>\<open>xs[i]\<close> for a non-negative index: IndexError out of range.\<close>

definition get_at :: "'a list \<Rightarrow> nat \<Rightarrow> 'a result" where
  "get_at xs i = (if i < length xs then Inr (xs ! i) else Inl IndexError)"

text \<open>\<^verbatim>\<open>xs[i:j]\<close> for non-negative bounds; slices never raise.\<close>

definition slice :: "'a list \<Rightarrow> nat \<Rightarrow> nat \<Rightarrow> 'a list" where
  "slice xs i j = take (j - i) (drop i xs)"

text \<open>A negative bound counts from the end and is clamped at the start.\<close>

definition clamp_index :: "nat \<Rightarrow> int \<Rightarrow> nat" where
  "clamp_index n i = (if i < 0 then nat (int n + i) else min n (nat i))"

definition py_slice :: "'a list \<Rightarrow> int \<Rightarrow> int \<Rightarrow> 'a list" where
  "py_slice xs i j = slice xs (clamp_index (length xs) i) (clamp_index (length xs) j)"

definition starts_with :: "'a list \<Rightarrow> 'a list \<Rightarrow> bool" where
  "starts_with p xs \<longleftrightarrow> take (length p) xs = p"

lemma get_at_Inr_iff [result_simps]: "get_at xs i = Inr x \<longleftrightarrow> i < length xs \<and> xs ! i = x"
  by (auto simp: get_at_def)

lemma get_at_Inr [simp]: "i < length xs \<Longrightarrow> get_at xs i = Inr (xs ! i)"
  by (simp add: get_at_def)

lemma get_at_Inl [simp]: "length xs \<le> i \<Longrightarrow> get_at xs i = Inl IndexError"
  by (simp add: get_at_def)

lemma length_slice [simp]: "length (slice xs i j) = min (j - i) (length xs - i)"
  by (simp add: slice_def)

lemma slice_append_left: "j \<le> length xs \<Longrightarrow> slice (xs @ ys) i j = slice xs i j"
  by (cases "i \<le> j") (simp_all add: slice_def)

lemma slice_append_mid:
  "i = length xs \<Longrightarrow> j = length xs + length ys \<Longrightarrow> slice (xs @ ys @ zs) i j = ys"
  by (simp add: slice_def)

lemma starts_with_Nil [simp]: "starts_with [] xs"
  by (simp add: starts_with_def)

lemma starts_with_Cons [simp]:
  "starts_with (p # ps) xs \<longleftrightarrow> (case xs of [] \<Rightarrow> False | y # ys \<Rightarrow> y = p \<and> starts_with ps ys)"
  by (auto simp: starts_with_def split: list.splits)

lemma starts_with_length: "starts_with p xs \<Longrightarrow> length p \<le> length xs"
  by (metis linorder_not_less order_less_imp_le starts_with_def take_all nle_le)

lemma starts_with_append:
  "length p \<le> length xs \<Longrightarrow> starts_with p (xs @ ys) \<longleftrightarrow> starts_with p xs"
  by (simp add: starts_with_def)

lemma starts_with_self [simp]: "starts_with p (p @ xs)"
  by (simp add: starts_with_def)

section \<open>Big-endian integers\<close>

text \<open>\<^verbatim>\<open>int.from_bytes(bs, "big")\<close>.\<close>

definition be_val :: "bytes \<Rightarrow> nat" where
  "be_val bs = foldl (\<lambda>a b. a * 256 + unat b) 0 bs"

text \<open>\<^verbatim>\<open>int.from_bytes(bs, "big", signed=True)\<close>: two's complement over all the bits.\<close>

definition be_sval :: "bytes \<Rightarrow> int" where
  "be_sval bs = (if 2 * be_val bs < 256 ^ length bs then int (be_val bs)
                 else int (be_val bs) - 256 ^ length bs)"

fun be_bytes :: "nat \<Rightarrow> nat \<Rightarrow> bytes" where
  "be_bytes 0 n = []"
| "be_bytes (Suc k) n = be_bytes k (n div 256) @ [of_nat (n mod 256)]"

text \<open>\<^verbatim>\<open>n.to_bytes(k, "big")\<close>: OverflowError when the value does not fit.\<close>

definition to_bytes_be :: "nat \<Rightarrow> nat \<Rightarrow> bytes result" where
  "to_bytes_be k n = (if n < 256 ^ k then Inr (be_bytes k n) else Inl OverflowError)"

lemma be_val_Nil [simp]: "be_val [] = 0"
  by (simp add: be_val_def)

lemma be_val_snoc [simp]: "be_val (bs @ [b]) = be_val bs * 256 + unat b"
  by (simp add: be_val_def)

lemma be_val_append: "be_val (xs @ ys) = be_val xs * 256 ^ length ys + be_val ys"
proof (induction ys rule: rev_induct)
  case Nil
  then show ?case by simp
next
  case (snoc y ys)
  have "be_val (xs @ ys @ [y]) = be_val (xs @ ys) * 256 + unat y"
    by (metis append_assoc be_val_snoc)
  with snoc show ?case by (simp add: algebra_simps)
qed

lemma be_val_Cons: "be_val (b # bs) = unat b * 256 ^ length bs + be_val bs"
  using be_val_append [of "[b]" bs] by (simp add: be_val_def)

lemma unat_byte_less [simp]: "unat (b :: byte) < 256"
  using unsigned_less [of b] by simp

lemma be_val_bound [bytes_simps]: "be_val bs < 256 ^ length bs"
proof (induction bs rule: rev_induct)
  case (snoc b bs)
  have "be_val bs * 256 + unat b < (be_val bs + 1) * 256" by simp
  also have "\<dots> \<le> 256 ^ length bs * 256"
    using snoc.IH by (simp add: Suc_le_eq)
  finally show ?case by (simp add: mult.commute)
qed simp

lemma length_be_bytes [simp]: "length (be_bytes k n) = k"
  by (induction k arbitrary: n) auto

lemma unat_of_nat_byte [simp]: "unat (of_nat n :: byte) = n mod 256"
  by (simp add: unat_of_nat)

lemma be_val_be_bytes [bytes_simps]: "be_val (be_bytes k n) = n mod 256 ^ k"
proof (induction k arbitrary: n)
  case (Suc k)
  have "n mod (256 * 256 ^ k) = 256 * (n div 256 mod 256 ^ k) + n mod 256"
    by (simp add: mod_mult2_eq)
  with Suc show ?case by simp
qed simp

lemma be_bytes_be_val [bytes_simps]: "be_bytes (length bs) (be_val bs) = bs"
  by (induction bs rule: rev_induct) simp_all

lemma be_bytes_inj: "n < 256 ^ k \<Longrightarrow> m < 256 ^ k \<Longrightarrow> be_bytes k n = be_bytes k m \<Longrightarrow> n = m"
  by (metis be_val_be_bytes mod_less)

lemma to_bytes_be_Inr [simp]: "n < 256 ^ k \<Longrightarrow> to_bytes_be k n = Inr (be_bytes k n)"
  by (simp add: to_bytes_be_def)

lemma to_bytes_be_Inl [simp]: "256 ^ k \<le> n \<Longrightarrow> to_bytes_be k n = Inl OverflowError"
  by (simp add: to_bytes_be_def)

lemma be_sval_bounds:
  "bs \<noteq> [] \<Longrightarrow> - (256 ^ length bs div 2) \<le> be_sval bs \<and> be_sval bs < 256 ^ length bs div 2"
proof -
  assume "bs \<noteq> []"
  then obtain k where k: "length bs = Suc k" by (cases bs) auto
  have "int (be_val bs) < 256 ^ length bs"
    using be_val_bound [of bs] by (metis of_nat_less_iff of_nat_numeral of_nat_power)
  moreover have "(2 * be_val bs < 256 ^ length bs) \<longleftrightarrow> 2 * int (be_val bs) < 256 ^ length bs"
    by (metis of_nat_less_iff of_nat_mult of_nat_numeral of_nat_power)
  ultimately show ?thesis
    unfolding be_sval_def k by (auto simp: k)
qed

section \<open>Hexadecimal\<close>

definition hex_digit :: "nat \<Rightarrow> char" where
  "hex_digit n = ''0123456789abcdef'' ! n"

text \<open>\<^verbatim>\<open>f"{b:02x}"\<close>.\<close>

definition hex_byte :: "byte \<Rightarrow> string" where
  "hex_byte b = [hex_digit (unat b div 16), hex_digit (unat b mod 16)]"

text \<open>\<^verbatim>\<open>bs.hex()\<close>.\<close>

definition hex_of :: "bytes \<Rightarrow> string" where
  "hex_of bs = concat (map hex_byte bs)"

lemma length_hex_of [simp]: "length (hex_of bs) = 2 * length bs"
  by (induction bs) (auto simp: hex_of_def hex_byte_def)

lemma hex_digit_inj: "m < 16 \<Longrightarrow> n < 16 \<Longrightarrow> hex_digit m = hex_digit n \<longleftrightarrow> m = n"
proof -
  have "distinct ''0123456789abcdef''" and "length ''0123456789abcdef'' = 16" by simp_all
  moreover assume "m < 16" "n < 16"
  ultimately show ?thesis
    unfolding hex_digit_def by (metis nth_eq_iff_index_eq)
qed

lemma hex_byte_inj: "hex_byte a = hex_byte b \<longleftrightarrow> a = b"
proof
  assume "hex_byte a = hex_byte b"
  then have "unat a div 16 = unat b div 16" "unat a mod 16 = unat b mod 16"
    using hex_digit_inj [of "unat a div 16" "unat b div 16"]
      hex_digit_inj [of "unat a mod 16" "unat b mod 16"]
      unat_byte_less [of a] unat_byte_less [of b]
    by (auto simp: hex_byte_def)
  then have "unat a = unat b"
    by (metis div_mult_mod_eq)
  then show "a = b" by (simp add: word_unat_eq_iff)
qed simp

lemma hex_of_Cons: "hex_of (b # bs) = hex_byte b @ hex_of bs"
  by (simp add: hex_of_def)

lemma hex_of_inj: "hex_of xs = hex_of ys \<Longrightarrow> xs = ys"
proof (induction xs arbitrary: ys)
  case Nil
  then show ?case by (metis length_hex_of length_0_conv list.size(3) mult_is_0 zero_neq_numeral)
next
  case (Cons x xs)
  then obtain y ys' where ys: "ys = y # ys'"
    by (cases ys) (auto simp: hex_of_def hex_byte_def)
  have "length (hex_byte x) = length (hex_byte y)" by (simp add: hex_byte_def)
  then have "hex_byte x = hex_byte y" "hex_of xs = hex_of ys'"
    using Cons.prems by (simp_all add: ys hex_of_Cons)
  with Cons.IH show ?case by (simp add: ys hex_byte_inj)
qed

end
