(* ===== verification/Crc.thy ===== *)
theory Crc
  imports Prelude
begin

text \<open>
  The two checksums of the gateway: \<^verbatim>\<open>crc16_x25\<close> of parsers/v5_parser.py (acknowledgements and
  outgoing commands) and \<^verbatim>\<open>crc16_ibm\<close> of parsers/teltonika_parser.py (incoming AVL packets),
  with the bit loops of the code on unbounded integers. The locale \<open>reflected_crc\<close> states what
  the two generator polynomials share; inside it the loops are shown to stay within 16 bits, to be
  linear and injective, and therefore to detect every corruption confined to two adjacent bytes.
\<close>

unbundle bit_operations_syntax

section \<open>The code\<close>

text \<open>One round of the inner loop: \<^verbatim>\<open>(crc >> 1) ^ poly if crc & 1 else crc >> 1\<close>.\<close>

definition crc_shift :: "nat \<Rightarrow> nat \<Rightarrow> nat" where
  "crc_shift poly crc = (if crc AND 1 \<noteq> 0 then drop_bit 1 crc XOR poly else drop_bit 1 crc)"

text \<open>\<^verbatim>\<open>for _ in range(n)\<close>.\<close>

fun crc_shifts :: "nat \<Rightarrow> nat \<Rightarrow> nat \<Rightarrow> nat" where
  "crc_shifts poly 0 crc = crc"
| "crc_shifts poly (Suc n) crc = crc_shifts poly n (crc_shift poly crc)"

text \<open>\<^verbatim>\<open>for b in data: crc ^= b; for _ in range(8): ...\<close>.\<close>

fun crc_loop :: "nat \<Rightarrow> nat \<Rightarrow> bytes \<Rightarrow> nat" where
  "crc_loop poly crc [] = crc"
| "crc_loop poly crc (b # bs) = crc_loop poly (crc_shifts poly 8 (crc XOR unat b)) bs"

definition crc16_x25 :: "bytes \<Rightarrow> nat" where
  "crc16_x25 data = (crc_loop 0x8408 0xFFFF data XOR 0xFFFF) AND 0xFFFF"

definition crc16_ibm :: "bytes \<Rightarrow> nat" where
  "crc16_ibm data = crc_loop 0xA001 0 data"

section \<open>Bit-level facts\<close>

lemma xor_less_2p: "a < 2 ^ n \<Longrightarrow> b < 2 ^ n \<Longrightarrow> (a :: nat) XOR b < 2 ^ n"
  by (metis take_bit_nat_eq_self_iff take_bit_xor)

lemma xor_eq_0_nat [simp]: "(a :: nat) XOR b = 0 \<longleftrightarrow> a = b"
  by (metis bit.xor_self xor.assoc xor.left_neutral xor.right_neutral xor_self_eq)

lemma xor_left_cancel_nat: "(a :: nat) XOR b = a XOR c \<longleftrightarrow> b = c"
  by (metis xor.assoc xor.left_neutral xor_self_eq)

lemma xor_right_cancel_nat: "(b :: nat) XOR a = c XOR a \<longleftrightarrow> b = c"
  by (metis xor.commute xor_left_cancel_nat)

lemma and_1_nat: "(a :: nat) AND 1 \<noteq> 0 \<longleftrightarrow> odd a"
  by (simp add: and_one_eq odd_iff_mod_2_eq_one)

lemma odd_xor_nat: "odd ((a :: nat) XOR b) \<longleftrightarrow> odd a \<noteq> odd b"
  by (metis bit_0 bit_xor_iff)


lemma xor_less_16: "a < 65536 \<Longrightarrow> b < 65536 \<Longrightarrow> (a :: nat) XOR b < 65536"
  using xor_less_2p [of a 16 b] by simp

lemma unat_byte_less_16 [simp]: "unat (b :: byte) < 65536"
  by (rule less_trans [OF unat_byte_less]) simp

lemma crc_shift_alt: "crc_shift poly c = (if odd c then c div 2 XOR poly else c div 2)"
  by (simp only: crc_shift_def and_1_nat drop_bit_eq_div power_one_right)

lemma div2_xor_nat: "(a XOR b) div 2 = (a div 2 :: nat) XOR (b div 2)"
  using drop_bit_xor [of 1 a b] by (simp only: drop_bit_eq_div power_one_right)

lemma crc_shifts_add: "crc_shifts poly (m + n) c = crc_shifts poly n (crc_shifts poly m c)"
  by (induction m arbitrary: c) auto

lemma crc_loop_append: "crc_loop poly c (xs @ ys) = crc_loop poly (crc_loop poly c xs) ys"
  by (induction xs arbitrary: c) auto

lemma crc_shift_linear: "crc_shift poly (a XOR b) = crc_shift poly a XOR crc_shift poly b"
proof -
  have "poly XOR (u XOR poly) = u" for u :: nat
    by (metis xor.commute xor.assoc xor.right_neutral xor_self_eq)
  then have "(a div 2 XOR poly) XOR (b div 2 XOR poly) = a div 2 XOR b div 2"
    by (metis xor.assoc xor.commute)
  then show ?thesis
    unfolding crc_shift_alt odd_xor_nat div2_xor_nat by (auto simp: ac_simps)
qed

lemma crc_shifts_linear: "crc_shifts poly n (a XOR b) = crc_shifts poly n a XOR crc_shifts poly n b"
  by (induction n arbitrary: a b) (simp_all add: crc_shift_linear)

section \<open>What the two polynomials share\<close>

text \<open>
  A reflected 16-bit generator: it fits in 16 bits and its top bit is set (the constant term of
  the polynomial), which is what makes the shift invertible.
\<close>

locale reflected_crc =
  fixes poly :: nat
  assumes poly_bound: "poly < 65536"
    and poly_top: "32768 \<le> poly"
begin

lemma shift_bound: "c < 65536 \<Longrightarrow> crc_shift poly c < 65536"
  using poly_bound by (auto simp: crc_shift_alt intro: xor_less_16)

lemma shifts_bound: "c < 65536 \<Longrightarrow> crc_shifts poly n c < 65536"
  by (induction n arbitrary: c) (auto intro: shift_bound)

lemma byte_bound: "c < 65536 \<Longrightarrow> c XOR unat (b :: byte) < 65536"
  by (intro xor_less_16) auto

lemma loop_bound: "c < 65536 \<Longrightarrow> crc_loop poly c data < 65536"
  by (induction data arbitrary: c) (auto intro: shifts_bound byte_bound)

lemma shift_zero:
  assumes c: "c < 65536" and z: "crc_shift poly c = 0"
  shows "c = 0"
proof -
  from c have d: "c div 2 < 32768" by simp
  show ?thesis
  proof (cases "odd c")
    case True
    with z have "c div 2 = poly" by (simp add: crc_shift_alt)
    with d poly_top show ?thesis by simp
  next
    case False
    with z have "c div 2 = 0" by (simp add: crc_shift_alt)
    with False show ?thesis by presburger
  qed
qed

lemma shifts_zero: "c < 65536 \<Longrightarrow> crc_shifts poly n c = 0 \<Longrightarrow> c = 0"
proof (induction n arbitrary: c)
  case (Suc n)
  then have "crc_shift poly c = 0" using shift_bound by simp
  with Suc.prems(1) show ?case by (rule shift_zero)
qed simp

lemma shifts_inj:
  assumes "a < 65536" "b < 65536" "crc_shifts poly n a = crc_shifts poly n b"
  shows "a = b"
proof -
  have "crc_shifts poly n (a XOR b) = 0"
    using assms(3) by (simp add: crc_shifts_linear)
  moreover have "a XOR b < 65536" using assms(1,2) by (rule xor_less_16)
  ultimately show ?thesis using shifts_zero by fastforce
qed

text \<open>The loop is injective in its starting value: no later byte can hide an earlier difference.\<close>

lemma loop_inj:
  assumes "a < 65536" "b < 65536" "crc_loop poly a data = crc_loop poly b data"
  shows "a = b"
  using assms
proof (induction data arbitrary: a b)
  case (Cons x data)
  then have "crc_shifts poly 8 (a XOR unat x) = crc_shifts poly 8 (b XOR unat x)"
    using byte_bound shifts_bound by simp
  then have "a XOR unat x = b XOR unat x"
    using Cons.prems(1,2) byte_bound shifts_inj by blast
  then show ?case by (simp add: xor_right_cancel_nat)
qed simp

text \<open>A value shifted up by a whole byte loses nothing in eight rounds.\<close>

lemma shifts_push: "crc_shifts poly n (push_bit n e) = e"
proof (induction n)
  case (Suc n)
  have "push_bit (Suc n) e = 2 * push_bit n e" by (simp add: push_bit_eq_mult)
  then have "crc_shift poly (push_bit (Suc n) e) = push_bit n e"
    by (simp add: crc_shift_alt)
  with Suc show ?case by simp
qed simp

text \<open>Two bytes are one 16-bit value taken through sixteen rounds.\<close>

lemma two_bytes:
  "crc_loop poly c [x, y] = crc_shifts poly 16 (c XOR (unat x XOR push_bit 8 (unat y)))"
proof -
  have "crc_shifts poly 16 (c XOR (unat x XOR push_bit 8 (unat y)))
      = crc_shifts poly 8 (crc_shifts poly 8 ((c XOR unat x) XOR push_bit 8 (unat y)))"
    using crc_shifts_add [of poly 8 8] by (simp add: xor.assoc)
  also have "\<dots> = crc_shifts poly 8 (crc_shifts poly 8 (c XOR unat x) XOR unat y)"
    by (simp only: crc_shifts_linear [of poly 8 "c XOR unat x"] shifts_push)
  finally show ?thesis by (simp only: crc_loop.simps)
qed

lemma pair_bound: "unat (x :: byte) XOR push_bit 8 (unat (y :: byte)) < 65536"
  using unat_byte_less [of x] unat_byte_less [of y]
  by (intro xor_less_16) (auto simp: push_bit_eq_mult)

lemma pair_inj:
  assumes "unat (x :: byte) XOR push_bit 8 (unat (y :: byte)) = unat x' XOR push_bit 8 (unat y')"
  shows "(x :: byte) = x' \<and> (y :: byte) = y'"
proof -
  have tb: "take_bit 8 (unat (z :: byte)) = unat z" for z
    using unat_byte_less [of z] by (simp add: take_bit_nat_eq_self)
  have "take_bit 8 (unat x XOR push_bit 8 (unat y)) = take_bit 8 (unat x' XOR push_bit 8 (unat y'))"
    using assms by simp
  then have "unat x = unat x'" by (simp add: tb take_bit_push_bit)
  moreover from this assms have "push_bit 8 (unat y) = push_bit 8 (unat y')"
    by (simp add: xor_left_cancel_nat)
  then have "unat y = unat y'" by (simp add: push_bit_eq_mult)
  ultimately show ?thesis by (simp add: word_unat_eq_iff)
qed

lemma two_bytes_detected:
  assumes c: "c < 65536" and ne: "(x, y) \<noteq> (x', y')"
  shows "crc_loop poly c (xs @ [x, y] @ ys) \<noteq> crc_loop poly c (xs @ [x', y'] @ ys)"
proof
  let ?c = "crc_loop poly c xs"
  have b: "?c < 65536" using c by (rule loop_bound)
  assume "crc_loop poly c (xs @ [x, y] @ ys) = crc_loop poly c (xs @ [x', y'] @ ys)"
  then have "crc_loop poly (crc_loop poly ?c [x, y]) ys = crc_loop poly (crc_loop poly ?c [x', y']) ys"
    by (simp only: crc_loop_append)
  then have "crc_loop poly ?c [x, y] = crc_loop poly ?c [x', y']"
    using loop_inj loop_bound [OF b] by blast
  then have "?c XOR (unat x XOR push_bit 8 (unat y)) = ?c XOR (unat x' XOR push_bit 8 (unat y'))"
    unfolding two_bytes using shifts_inj xor_less_16 [OF b pair_bound] by blast
  with ne pair_inj show False by (auto simp: xor_left_cancel_nat)
qed

end

interpretation x25: reflected_crc "0x8408"
  by unfold_locales simp_all

interpretation ibm: reflected_crc "0xA001"
  by unfold_locales simp_all

section \<open>Facts about the two checksums\<close>

lemma and_ffff_bound: "(a :: nat) AND 0xFFFF < 65536"
proof -
  have "(0xFFFF :: nat) = mask 16" by (simp add: mask_eq_exp_minus_1)
  then have "a AND 0xFFFF = take_bit 16 a" by (simp only: take_bit_eq_mask)
  then show ?thesis by (simp add: take_bit_eq_mod)
qed

lemma crc16_x25_bound [simp]: "crc16_x25 data < 65536"
  unfolding crc16_x25_def by (rule and_ffff_bound)

lemma crc16_ibm_bound [simp]: "crc16_ibm data < 65536"
  using ibm.loop_bound [of 0 data] by (simp add: crc16_ibm_def)

section \<open>Properties\<close>

lemma and_ffff_id: "a < 65536 \<Longrightarrow> (a :: nat) AND 0xFFFF = a"
proof -
  assume a: "a < 65536"
  have "(0xFFFF :: nat) = mask 16" by (simp add: mask_eq_exp_minus_1)
  then have "a AND 0xFFFF = take_bit 16 a" by (simp only: take_bit_eq_mask)
  also have "\<dots> = a" using a by (simp add: take_bit_nat_eq_self)
  finally show ?thesis .
qed

text \<open>
  Both checksums detect every corruption of two neighbouring bytes (a burst of up to 16 bits on
  byte boundaries), wherever it is in the message.
\<close>

lemma crcs_detect_two_bytes:
  assumes "(x, y) \<noteq> (x', y')"
  shows "crc16_x25 (xs @ [x, y] @ ys) \<noteq> crc16_x25 (xs @ [x', y'] @ ys) \<and>
    crc16_ibm (xs @ [x, y] @ ys) \<noteq> crc16_ibm (xs @ [x', y'] @ ys)"
proof
  let ?a = "crc_loop 0x8408 0xFFFF (xs @ [x, y] @ ys)" and ?b = "crc_loop 0x8408 0xFFFF (xs @ [x', y'] @ ys)"
  have "?a \<noteq> ?b" by (rule x25.two_bytes_detected [OF _ assms]) simp
  moreover have "(c XOR 0xFFFF) AND 0xFFFF = c XOR 0xFFFF" if "c < 65536" for c :: nat
  proof -
    have "c XOR 0xFFFF < 65536" using that by (rule xor_less_16) simp
    then show ?thesis by (simp only: and_ffff_id)
  qed
  moreover have "?a < 65536" "?b < 65536" by (rule x25.loop_bound, simp)+
  ultimately show "crc16_x25 (xs @ [x, y] @ ys) \<noteq> crc16_x25 (xs @ [x', y'] @ ys)"
    by (simp only: crc16_x25_def xor_right_cancel_nat not_False_eq_True)
  show "crc16_ibm (xs @ [x, y] @ ys) \<noteq> crc16_ibm (xs @ [x', y'] @ ys)"
    unfolding crc16_ibm_def by (rule ibm.two_bytes_detected [OF _ assms]) simp
qed

end
