(* ===== verification/Framing.thy ===== *)
theory Framing
  imports Prelude "HOL-Library.While_Combinator"
begin

text \<open>
  The three stream framers and the protocol sniffer: \<^verbatim>\<open>extract_packets\<close>
  (utils/packet_buffer.py), \<^verbatim>\<open>extract_messages\<close> (parsers/gps103_parser.py),
  \<^verbatim>\<open>extract_frames\<close> (parsers/teltonika_parser.py) and \<^verbatim>\<open>detect_protocol\<close>
  (protocols/detect.py). tcp_server.py treats the framers alike: that shared contract is the
  locale \<open>framer\<close>, and each framer interprets it. The limits
  \<^verbatim>\<open>GPS103_MAX_UNFRAMED_BYTES\<close> and \<^verbatim>\<open>TELTONIKA_MAX_PACKET_BYTES\<close> come from the
  environment and are arguments.
\<close>

section \<open>The framers of the code\<close>

subsection \<open>GT06: length-prefixed binary\<close>

function extract_packets :: "bytes \<Rightarrow> bytes list \<times> bytes" where
  "extract_packets buffer =
     (if length buffer < 5 then ([], buffer)
      else if starts_with [0x78, 0x78] buffer then
        (let total = unat (buffer ! 2) + 5
         in if length buffer < total then ([], buffer)
            else (let (packets, rest) = extract_packets (drop total buffer)
                  in (take total buffer # packets, rest)))
      else if starts_with [0x79, 0x79] buffer then
        (let total = be_val (slice buffer 2 4) + 6
         in if length buffer < total then ([], buffer)
            else (let (packets, rest) = extract_packets (drop total buffer)
                  in (take total buffer # packets, rest)))
      else extract_packets (drop 1 buffer))"
  by pat_completeness auto
termination
  by (relation "measure length") auto

declare extract_packets.simps [simp del]

subsection \<open>GPS103: text terminated by a semicolon\<close>

text \<open>\<^verbatim>\<open>buffer.find(b";")\<close>, with None for -1.\<close>

fun find_byte :: "byte \<Rightarrow> bytes \<Rightarrow> nat option" where
  "find_byte c [] = None"
| "find_byte c (b # bs) = (if b = c then Some 0 else map_option Suc (find_byte c bs))"

text \<open>\<^verbatim>\<open>bytes.strip()\<close>: ASCII whitespace at both ends.\<close>

definition is_space_byte :: "byte \<Rightarrow> bool" where
  "is_space_byte b \<longleftrightarrow> b \<in> {0x20, 0x09, 0x0A, 0x0B, 0x0C, 0x0D}"

definition strip_bytes :: "bytes \<Rightarrow> bytes" where
  "strip_bytes bs = rev (dropWhile is_space_byte (rev (dropWhile is_space_byte bs)))"

lemma find_byte_less: "find_byte c bs = Some i \<Longrightarrow> i < length bs"
  by (induction bs arbitrary: i) (auto split: if_splits)

function split_messages :: "bytes \<Rightarrow> bytes list \<times> bytes" where
  "split_messages buffer =
     (case find_byte 0x3B buffer of
        None \<Rightarrow> ([], buffer)
      | Some idx \<Rightarrow>
          (let raw = strip_bytes (take idx buffer);
               (messages, rest) = split_messages (drop (Suc idx) buffer)
           in (if raw \<noteq> [] then raw # messages else messages, rest)))"
  by pat_completeness auto
termination
  by (relation "measure length") (auto dest: find_byte_less)

declare split_messages.simps [simp del]

definition extract_messages :: "int \<Rightarrow> bytes \<Rightarrow> (bytes list \<times> bytes) result" where
  "extract_messages max_unframed buffer =
     (let (messages, rest) = split_messages buffer
      in if int (length rest) > max_unframed then Inl FrameOverflowError
         else Inr (messages, rest))"

subsection \<open>Teltonika: login frames and AVL packets\<close>

definition is_digit_byte :: "byte \<Rightarrow> bool" where
  "is_digit_byte b \<longleftrightarrow> 48 \<le> b \<and> b \<le> 57"

definition LOGIN_FRAME_LEN :: nat where
  "LOGIN_FRAME_LEN = 17"

definition PREAMBLE :: bytes where
  "PREAMBLE = [0, 0, 0, 0]"

definition LOGIN_PREFIX :: bytes where
  "LOGIN_PREFIX = [0x00, 0x0F]"

definition is_login_frame :: "bytes \<Rightarrow> bool" where
  "is_login_frame frame \<longleftrightarrow> length frame = LOGIN_FRAME_LEN \<and> take 2 frame = LOGIN_PREFIX"

function extract_frames :: "int \<Rightarrow> bytes \<Rightarrow> (bytes list \<times> bytes) result" where
  "extract_frames max_packet buffer =
     (if length buffer < 4 then Inr ([], buffer)
      else if starts_with LOGIN_PREFIX buffer then
        (if length buffer < LOGIN_FRAME_LEN then Inr ([], buffer)
         else if \<not> list_all is_digit_byte (slice buffer 2 LOGIN_FRAME_LEN)
         then Inl TeltonikaFrameError
         else bindR (extract_frames max_packet (drop LOGIN_FRAME_LEN buffer))
                (\<lambda>(frames, rest). Inr (take LOGIN_FRAME_LEN buffer # frames, rest)))
      else if starts_with PREAMBLE buffer then
        (if length buffer < 8 then Inr ([], buffer)
         else (let len = be_val (slice buffer 4 8)
               in if len = 0 \<or> int len > max_packet then Inl TeltonikaFrameError
                  else (let total = 8 + len + 4
                        in if length buffer < total then Inr ([], buffer)
                           else bindR (extract_frames max_packet (drop total buffer))
                                  (\<lambda>(frames, rest). Inr (take total buffer # frames, rest)))))
      else Inl TeltonikaFrameError)"
  by pat_completeness auto
termination
  by (relation "measure (\<lambda>(m, b). length b)") (auto simp: LOGIN_FRAME_LEN_def)

declare extract_frames.simps [simp del]

section \<open>The contract of a framer\<close>

text \<open>
  What one turn of a framer's loop does with the front of the buffer: wait for more bytes, hand
  out frames and drop bytes, or give up on the stream.
\<close>

datatype turn = Wait | Take "bytes list" nat | Fail exn

text \<open>
  The receive loop of tcp_server.handle_device: append what was read to the buffer, run the
  framer, keep the remainder; a framer that raises ends the connection.
\<close>

fun feed :: "(bytes \<Rightarrow> (bytes list \<times> bytes) result) \<Rightarrow> bytes \<Rightarrow> bytes list
             \<Rightarrow> (bytes list \<times> bytes) result" where
  "feed framer_fn buffer [] = Inr ([], buffer)"
| "feed framer_fn buffer (chunk # chunks) =
     bindR (framer_fn (buffer @ chunk)) (\<lambda>(packets, rest).
       bindR (feed framer_fn rest chunks) (\<lambda>(packets', rest'). Inr (packets @ packets', rest')))"

text \<open>
  The loop around a turn, as the code has it: \<open>takes\<close> is whether it goes round again,
  \<open>take_turn\<close> what it does then to the list of frames and the buffer.
\<close>

definition takes :: "(bytes \<Rightarrow> turn) \<Rightarrow> bytes list \<times> bytes \<Rightarrow> bool" where
  "takes turn_fn = (\<lambda>(packets, buffer). case turn_fn buffer of Take _ _ \<Rightarrow> True | _ \<Rightarrow> False)"

definition take_turn :: "(bytes \<Rightarrow> turn) \<Rightarrow> bytes list \<times> bytes \<Rightarrow> bytes list \<times> bytes" where
  "take_turn turn_fn = (\<lambda>(packets, buffer).
     case turn_fn buffer of Take fs n \<Rightarrow> (packets @ fs, drop n buffer) | _ \<Rightarrow> (packets, buffer))"

locale framer =
  fixes framer_fn :: "bytes \<Rightarrow> (bytes list \<times> bytes) result"
    and turn_of :: "bytes \<Rightarrow> turn"
    and frame_ok :: "bytes \<Rightarrow> bool"
  assumes extract_unfold: "framer_fn b = (case turn_of b of
            Wait \<Rightarrow> Inr ([], b)
          | Fail e \<Rightarrow> Inl e
          | Take fs n \<Rightarrow> bindR (framer_fn (drop n b)) (\<lambda>(gs, r). Inr (fs @ gs, r)))"
    and take_progress: "turn_of b = Take fs n \<Longrightarrow> 0 < n \<and> n \<le> length b"
    and take_stable: "turn_of b = Take fs n \<Longrightarrow> turn_of (b @ c) = Take fs n"
    and take_ok: "turn_of b = Take fs n \<Longrightarrow> list_all frame_ok fs"
begin

lemma extract_induct [case_names step]:
  assumes "\<And>b. (\<And>fs n. turn_of b = Take fs n \<Longrightarrow> P (drop n b)) \<Longrightarrow> P b"
  shows "P b"
proof (induction b rule: length_induct)
  case (1 b)
  show ?case
  proof (rule assms)
    fix fs n assume "turn_of b = Take fs n"
    then have "length (drop n b) < length b" using take_progress by fastforce
    with 1 show "P (drop n b)" by blast
  qed
qed

text \<open>The remainder is a buffer the framer has nothing to do with yet.\<close>

lemma rest_waits: "framer_fn b = Inr (fs, r) \<Longrightarrow> turn_of r = Wait"
proof (induction b arbitrary: fs rule: extract_induct)
  case (step b)
  then show ?case
    by (subst (asm) (2) extract_unfold) (auto split: turn.splits simp: result_simps)
qed

lemma wait_extract: "turn_of r = Wait \<Longrightarrow> framer_fn r = Inr ([], r)"
  by (subst extract_unfold) simp

lemma rest_stable: "framer_fn b = Inr (fs, r) \<Longrightarrow> framer_fn r = Inr ([], r)"
  by (intro wait_extract rest_waits)

text \<open>Bytes that arrive later only add frames.\<close>

lemma extract_append:
  "framer_fn b = Inr (fs, r) \<Longrightarrow>
   framer_fn (b @ c) = bindR (framer_fn (r @ c)) (\<lambda>(gs, r'). Inr (fs @ gs, r'))"
proof (induction b arbitrary: fs rule: extract_induct)
  case (step b)
  show ?case
  proof (cases "turn_of b")
    case Wait
    with step.prems have "fs = []" "r = b" by (simp_all add: wait_extract)
    then show ?thesis by (cases "framer_fn (b @ c)") auto
  next
    case (Fail e)
    with step.prems show ?thesis by (subst (asm) extract_unfold) simp
  next
    case (Take fs0 n)
    with step.prems obtain gs where gs: "framer_fn (drop n b) = Inr (gs, r)" and fs: "fs = fs0 @ gs"
      by (subst (asm) extract_unfold) (auto simp: result_simps)
    have "framer_fn (b @ c) = bindR (framer_fn (drop n b @ c)) (\<lambda>(hs, r'). Inr (fs0 @ hs, r'))"
      using take_stable [OF Take, of c] take_progress [OF Take]
      by (subst extract_unfold) simp
    also have "\<dots> = bindR (framer_fn (r @ c)) (\<lambda>(hs, r'). Inr (fs @ hs, r'))"
      by (cases "framer_fn (r @ c)") (auto simp: step.IH [OF Take gs] fs)
    finally show ?thesis .
  qed
qed

text \<open>How TCP cuts the stream into reads does not matter.\<close>

lemma feed_eq_extract:
  assumes "feed framer_fn buffer chunks = Inr (fs, r)" and "turn_of buffer = Wait"
  shows "framer_fn (buffer @ concat chunks) = Inr (fs, r)"
  using assms
proof (induction chunks arbitrary: buffer fs)
  case Nil
  then show ?case by (simp add: wait_extract)
next
  case (Cons chunk chunks)
  then obtain ps rest ps' where
    1: "framer_fn (buffer @ chunk) = Inr (ps, rest)" and
    2: "feed framer_fn rest chunks = Inr (ps', r)" and fs: "fs = ps @ ps'"
    by (auto simp: result_simps)
  from 2 rest_waits [OF 1] have "framer_fn (rest @ concat chunks) = Inr (ps', r)"
    by (rule Cons.IH)
  with extract_append [OF 1, of "concat chunks"] fs show ?case by simp
qed

lemma frames_ok: "framer_fn b = Inr (fs, r) \<Longrightarrow> list_all frame_ok fs"
proof (induction b arbitrary: fs rule: extract_induct)
  case (step b)
  then show ?case
    by (subst (asm) (2) extract_unfold) (auto split: turn.splits simp: result_simps dest: take_ok)
qed

lemma rest_length: "framer_fn b = Inr (fs, r) \<Longrightarrow> length r \<le> length b"
proof (induction b arbitrary: fs rule: extract_induct)
  case (step b)
  then show ?case
    by (subst (asm) (2) extract_unfold)
      (force split: turn.splits simp: result_simps dest: take_progress)
qed

text \<open>The loop ends within as many turns as there are bytes, with the framer's result.\<close>

lemma loop_ends:
  "\<exists>k fs r. k \<le> length b \<and> (take_turn turn_of ^^ k) (packets, b) = (packets @ fs, r) \<and>
     while_option (takes turn_of) (take_turn turn_of) (packets, b) = Some (packets @ fs, r) \<and>
     framer_fn b = (case turn_of r of Fail e \<Rightarrow> Inl e | _ \<Rightarrow> Inr (fs, r))"
proof (induction b arbitrary: packets rule: extract_induct)
  case (step b)
  show ?case
  proof (cases "turn_of b")
    case (Take gs n)
    from step [OF Take, of "packets @ gs"] obtain k fs r where k: "k \<le> length (drop n b)"
      "(take_turn turn_of ^^ k) (packets @ gs, drop n b) = (packets @ gs @ fs, r)"
      "while_option (takes turn_of) (take_turn turn_of) (packets @ gs, drop n b) = Some (packets @ gs @ fs, r)"
      "framer_fn (drop n b) = (case turn_of r of Fail e \<Rightarrow> Inl e | _ \<Rightarrow> Inr (fs, r))"
      by auto
    have turn: "take_turn turn_of (packets, b) = (packets @ gs, drop n b)" "takes turn_of (packets, b)"
      by (simp_all add: take_turn_def takes_def Take)
    have "Suc k \<le> length b" using k(1) take_progress [OF Take] by (simp, arith)
    moreover have "(take_turn turn_of ^^ Suc k) (packets, b) = (packets @ (gs @ fs), r)"
      by (simp add: funpow_Suc_right turn k(2) del: funpow.simps)
    moreover have "while_option (takes turn_of) (take_turn turn_of) (packets, b) = Some (packets @ (gs @ fs), r)"
      by (subst while_option_unfold) (simp add: turn k(3))
    moreover have "framer_fn b = (case turn_of r of Fail e \<Rightarrow> Inl e | _ \<Rightarrow> Inr (gs @ fs, r))"
      by (subst extract_unfold) (simp add: Take k(4) split: turn.split)
    ultimately show ?thesis by blast
  next
    case Wait
    then show ?thesis
      by (intro exI [of _ 0] exI [of _ "[]"] exI [of _ b])
        (simp add: while_option_unfold takes_def wait_extract)
  next
    case (Fail e)
    then have "framer_fn b = Inl e" by (subst extract_unfold) simp
    with Fail show ?thesis
      by (intro exI [of _ 0] exI [of _ "[]"] exI [of _ b]) (simp add: while_option_unfold takes_def)
  qed
qed

end


text \<open>A framer that hands out every byte it consumes.\<close>

locale lossless_framer = framer +
  assumes take_exact: "turn_of b = Take fs n \<Longrightarrow> concat fs = take n b"
begin

lemma lossless: "framer_fn b = Inr (fs, r) \<Longrightarrow> concat fs @ r = b"
proof (induction b arbitrary: fs rule: extract_induct)
  case (step b)
  show ?case
  proof (cases "turn_of b")
    case (Take gs n)
    with step.prems obtain hs where "framer_fn (drop n b) = Inr (hs, r)" "fs = gs @ hs"
      by (subst (asm) extract_unfold) (auto simp: result_simps)
    then show ?thesis
      using step.IH [OF Take] take_exact [OF Take] by (simp add: append_take_drop_id)
  qed (use step.prems in \<open>subst (asm) extract_unfold, simp\<close>)+
qed

end

section \<open>GT06 meets the contract\<close>

definition gt06_turn :: "bytes \<Rightarrow> turn" where
  "gt06_turn b =
     (if length b < 5 then Wait
      else if starts_with [0x78, 0x78] b then
        (if length b < unat (b ! 2) + 5 then Wait
         else Take [take (unat (b ! 2) + 5) b] (unat (b ! 2) + 5))
      else if starts_with [0x79, 0x79] b then
        (if length b < be_val (slice b 2 4) + 6 then Wait
         else Take [take (be_val (slice b 2 4) + 6) b] (be_val (slice b 2 4) + 6))
      else Take [] 1)"

text \<open>A complete GT06 frame: a start marker, and as long as its length field says.\<close>

definition gt06_frame :: "bytes \<Rightarrow> bool" where
  "gt06_frame f \<longleftrightarrow>
     starts_with [0x78, 0x78] f \<and> 5 \<le> length f \<and> length f = unat (f ! 2) + 5 \<or>
     starts_with [0x79, 0x79] f \<and> 6 \<le> length f \<and> length f = be_val (slice f 2 4) + 6"

lemma starts_with_take: "length p \<le> n \<Longrightarrow> starts_with p (take n b) \<longleftrightarrow> starts_with p b"
  by (simp add: starts_with_def min_absorb1)

lemma slice_take: "j \<le> n \<Longrightarrow> slice (take n b) i j = slice b i j"
  by (simp add: slice_def drop_take min_absorb1)

lemma extract_packets_turn:
  "Inr (extract_packets b) = (case gt06_turn b of
      Wait \<Rightarrow> Inr ([], b)
    | Fail e \<Rightarrow> Inl e
    | Take fs n \<Rightarrow> bindR (Inr (extract_packets (drop n b))) (\<lambda>(gs, r). Inr (fs @ gs, r)))"
  by (subst extract_packets.simps) (simp add: gt06_turn_def Let_def split: prod.split)

interpretation gt06: framer "\<lambda>b. Inr (extract_packets b)" gt06_turn gt06_frame
proof (unfold_locales, goal_cases)
  case (1 b)
  show ?case by (rule extract_packets_turn)
next
  case (2 b fs n)
  then show ?case by (auto simp: gt06_turn_def split: if_splits)
next
  case (3 b fs n c)
  have "5 \<le> length b \<Longrightarrow> slice (b @ c) 2 4 = slice b 2 4"
    by (simp add: slice_append_left)
  with 3 show ?case
    by (auto simp: gt06_turn_def nth_append starts_with_append simp del: starts_with_Cons
        split: if_splits)
next
  case (4 b fs n)
  then show ?case
    by (auto simp: gt06_turn_def gt06_frame_def starts_with_take slice_take
        simp del: starts_with_Cons split: if_splits)
qed

lemma gt06_wait_bound: "gt06_turn r = Wait \<Longrightarrow> length r < 65541"
proof -
  assume w: "gt06_turn r = Wait"
  have "unat (r ! 2) + 5 < 65541" by (rule less_le_trans [OF add_strict_right_mono [OF unat_byte_less]]) simp
  moreover have "be_val (slice r 2 4) < 65536" if "5 \<le> length r"
    using be_val_bound [of "slice r 2 4"] that by simp
  ultimately show ?thesis
    using w by (fastforce simp: gt06_turn_def simp del: starts_with_Cons split: if_splits)
qed

lemma extract_packets_rest_bound: "length (snd (extract_packets b)) < 65541"
  by (metis gt06_wait_bound gt06.rest_waits prod.collapse)

lemma gt06_turn_frame: "gt06_frame f \<Longrightarrow> gt06_turn (f @ c) = Take [f] (length f)"
proof -
  assume f: "gt06_frame f"
  have "\<not> (starts_with [0x78, 0x78] f \<and> starts_with [0x79, 0x79] f)"
    by (auto split: list.splits)
  with f have "gt06_turn f = Take [f] (length f)"
    by (auto simp: gt06_turn_def gt06_frame_def simp del: starts_with_Cons)
  then show ?thesis by (rule gt06.take_stable)
qed

lemma extract_packets_frame:
  assumes "gt06_frame f"
  shows "extract_packets (f @ c) = (f # fst (extract_packets c), snd (extract_packets c))"
proof -
  have "Inr (extract_packets (f @ c)) =
    (Inr (f # fst (extract_packets c), snd (extract_packets c)) :: (bytes list \<times> bytes) result)"
    by (subst extract_packets_turn) (simp add: gt06_turn_frame [OF assms] split: prod.split)
  then show ?thesis by simp
qed

lemma extract_packets_concat:
  "list_all gt06_frame fs \<Longrightarrow> extract_packets (concat fs) = (fs, [])"
  by (induction fs) (simp_all add: extract_packets_frame, simp add: extract_packets.simps)

lemma extract_packets_junk:
  assumes "\<forall>b \<in> set junk. b \<noteq> 0x78 \<and> b \<noteq> 0x79" and "5 \<le> length c"
  shows "extract_packets (junk @ c) = extract_packets c"
  using assms(1)
proof (induction junk)
  case (Cons j junk)
  then have "extract_packets (j # (junk @ c)) = extract_packets (junk @ c)"
    using assms(2) by (subst extract_packets.simps) simp
  with Cons show ?case by simp
qed simp


section \<open>GPS103 meets the contract\<close>

definition gps103_turn :: "int \<Rightarrow> bytes \<Rightarrow> turn" where
  "gps103_turn max_unframed b =
     (case find_byte 0x3B b of
        None \<Rightarrow> (if int (length b) > max_unframed then Fail FrameOverflowError else Wait)
      | Some idx \<Rightarrow>
          (let raw = strip_bytes (take idx b) in Take (if raw \<noteq> [] then [raw] else []) (Suc idx)))"

text \<open>A GPS103 message: not empty, no terminator inside, no whitespace at either end.\<close>

definition gps103_message :: "bytes \<Rightarrow> bool" where
  "gps103_message m \<longleftrightarrow>
     m \<noteq> [] \<and> 0x3B \<notin> set m \<and> \<not> is_space_byte (hd m) \<and> \<not> is_space_byte (last m)"

lemma find_byte_None_iff: "find_byte c bs = None \<longleftrightarrow> c \<notin> set bs"
  by (induction bs) auto

lemma find_byte_Some_take: "find_byte c bs = Some i \<Longrightarrow> c \<notin> set (take i bs)"
  by (induction bs arbitrary: i) (auto split: if_splits)

lemma find_byte_append_Some: "find_byte c bs = Some i \<Longrightarrow> find_byte c (bs @ cs) = Some i"
  by (induction bs arbitrary: i) (auto split: if_splits)

lemma find_byte_append_None:
  "c \<notin> set bs \<Longrightarrow> find_byte c (bs @ cs) = map_option (\<lambda>i. length bs + i) (find_byte c cs)"
  by (induction bs; cases "find_byte c cs") auto

lemma set_strip_bytes: "set (strip_bytes bs) \<subseteq> set bs"
  unfolding strip_bytes_def by (metis set_dropWhileD set_rev subsetI)

lemma find_byte_not_in_strip: "find_byte c bs = Some i \<Longrightarrow> c \<notin> set (strip_bytes (take i bs))"
  using find_byte_Some_take set_strip_bytes by blast

lemma strip_bytes_ends:
  assumes "strip_bytes bs \<noteq> []"
  shows "\<not> is_space_byte (hd (strip_bytes bs)) \<and> \<not> is_space_byte (last (strip_bytes bs))"
proof -
  let ?d = "dropWhile is_space_byte bs"
  let ?e = "dropWhile is_space_byte (rev ?d)"
  have e: "?e \<noteq> []" using assms by (simp add: strip_bytes_def)
  then have "\<not> is_space_byte (hd ?e)" by (rule hd_dropWhile)
  then have l: "\<not> is_space_byte (last (strip_bytes bs))"
    using e by (simp add: strip_bytes_def last_rev)
  obtain ws where "rev ?d = ws @ ?e" by (metis takeWhile_dropWhile_id)
  then have "?d = rev ?e @ rev ws" by (metis rev_append rev_rev_ident)
  moreover have "rev ?e \<noteq> []" using e by simp
  ultimately have "hd ?d = hd (rev ?e)" and "?d \<noteq> []"
    by (metis hd_append2, metis append_is_Nil_conv)
  moreover from this(2) have "\<not> is_space_byte (hd ?d)" by (rule hd_dropWhile)
  ultimately show ?thesis using l by (simp add: strip_bytes_def)
qed

lemma extract_messages_turn:
  "extract_messages m b = (case gps103_turn m b of
      Wait \<Rightarrow> Inr ([], b)
    | Fail e \<Rightarrow> Inl e
    | Take fs n \<Rightarrow> bindR (extract_messages m (drop n b)) (\<lambda>(gs, r). Inr (fs @ gs, r)))"
  unfolding extract_messages_def
  by (subst split_messages.simps)
    (simp add: gps103_turn_def Let_def split: option.split prod.split)

interpretation gps103: framer "extract_messages m" "gps103_turn m" gps103_message for m
proof (unfold_locales, goal_cases)
  case (1 b)
  show ?case by (rule extract_messages_turn)
next
  case (2 b fs n)
  then show ?case
    by (auto simp: gps103_turn_def Let_def Suc_le_eq dest: find_byte_less split: option.splits if_splits)
next
  case (3 b fs n c)
  then show ?case
    by (auto simp: gps103_turn_def Let_def find_byte_append_Some less_imp_le
        dest: find_byte_less split: option.splits if_splits)
next
  case (4 b fs n)
  then show ?case
    using strip_bytes_ends
    by (auto simp: gps103_turn_def gps103_message_def Let_def find_byte_not_in_strip
        split: option.splits if_splits)
qed

lemma gps103_wait_bound: "gps103_turn m r = Wait \<Longrightarrow> int (length r) \<le> m"
  by (auto simp: gps103_turn_def Let_def split: option.splits if_splits)

lemma strip_bytes_message: "gps103_message m \<Longrightarrow> strip_bytes m = m"
proof -
  assume "gps103_message m"
  then have "dropWhile is_space_byte m = m" "dropWhile is_space_byte (rev m) = rev m"
    by (simp_all add: gps103_message_def dropWhile_eq_self_iff hd_rev)
  then show ?thesis by (simp add: strip_bytes_def)
qed

lemma split_messages_message:
  assumes "gps103_message m"
  shows "split_messages (m @ [0x3B] @ c) = (m # fst (split_messages c), snd (split_messages c))"
proof -
  from assms have "find_byte 0x3B (m @ [0x3B] @ c) = Some (length m)"
    by (simp add: gps103_message_def find_byte_append_None)
  moreover from assms have "m \<noteq> []" by (simp add: gps103_message_def)
  ultimately show ?thesis
    by (subst split_messages.simps) (simp add: strip_bytes_message [OF assms] split: prod.split)
qed

lemma split_messages_concat:
  "list_all gps103_message ms \<Longrightarrow> split_messages (concat (map (\<lambda>m. m @ [0x3B]) ms)) = (ms, [])"
proof (induction ms)
  case Nil
  show ?case by (simp add: split_messages.simps)
next
  case (Cons m ms)
  then show ?case using split_messages_message [of m] by simp
qed

section \<open>Teltonika meets the contract\<close>

definition teltonika_turn :: "int \<Rightarrow> bytes \<Rightarrow> turn" where
  "teltonika_turn max_packet b =
     (if length b < 4 then Wait
      else if starts_with LOGIN_PREFIX b then
        (if length b < 17 then Wait
         else if \<not> list_all is_digit_byte (slice b 2 17) then Fail TeltonikaFrameError
         else Take [take 17 b] 17)
      else if starts_with PREAMBLE b then
        (if length b < 8 then Wait
         else (let len = be_val (slice b 4 8)
               in if len = 0 \<or> int len > max_packet then Fail TeltonikaFrameError
                  else if length b < 12 + len then Wait else Take [take (12 + len) b] (12 + len)))
      else Fail TeltonikaFrameError)"

text \<open>A complete frame: a login with fifteen digits, or an AVL packet of the announced size.\<close>

definition avl_frame :: "int \<Rightarrow> bytes \<Rightarrow> bool" where
  "avl_frame max_packet f \<longleftrightarrow> starts_with PREAMBLE f \<and> 8 \<le> length f
     \<and> length f = 12 + be_val (slice f 4 8)
     \<and> 0 < be_val (slice f 4 8) \<and> int (be_val (slice f 4 8)) \<le> max_packet"

definition login_frame :: "bytes \<Rightarrow> bool" where
  "login_frame f \<longleftrightarrow> is_login_frame f \<and> list_all is_digit_byte (drop 2 f)"

lemma extract_frames_turn:
  "extract_frames m b = (case teltonika_turn m b of
      Wait \<Rightarrow> Inr ([], b)
    | Fail e \<Rightarrow> Inl e
    | Take fs n \<Rightarrow> bindR (extract_frames m (drop n b)) (\<lambda>(gs, r). Inr (fs @ gs, r)))"
  by (subst extract_frames.simps) (simp add: teltonika_turn_def Let_def LOGIN_FRAME_LEN_def)

lemma login_not_avl: "starts_with LOGIN_PREFIX b \<Longrightarrow> \<not> starts_with PREAMBLE b"
  by (auto simp: LOGIN_PREFIX_def PREAMBLE_def split: list.splits)

lemma login_frame_take:
  assumes "starts_with LOGIN_PREFIX b" "\<not> length b < 17" "list_all is_digit_byte (slice b 2 17)"
  shows "login_frame (take 17 b)"
proof -
  have "take 2 b = LOGIN_PREFIX" using assms(1) by (simp add: starts_with_def LOGIN_PREFIX_def numeral_2_eq_2)
  moreover have "slice b 2 17 = drop 2 (take 17 b)" by (simp add: slice_def drop_take)
  ultimately show ?thesis
    using assms(2,3) by (simp add: login_frame_def is_login_frame_def LOGIN_FRAME_LEN_def)
qed

lemma avl_frame_take:
  assumes "starts_with PREAMBLE b" "\<not> length b < 12 + be_val (slice b 4 8)"
    "0 < be_val (slice b 4 8)" "\<not> m < int (be_val (slice b 4 8))"
  shows "avl_frame m (take (12 + be_val (slice b 4 8)) b)"
proof -
  have "starts_with PREAMBLE (take (12 + be_val (slice b 4 8)) b)"
    using assms(1) by (subst starts_with_take) (simp_all add: PREAMBLE_def)
  with assms(2-) show ?thesis by (simp add: avl_frame_def slice_take)
qed

interpretation teltonika: lossless_framer "extract_frames m" "teltonika_turn m"
  "\<lambda>f. login_frame f \<or> avl_frame m f" for m
proof (unfold_locales, goal_cases)
  case (1 b)
  show ?case by (rule extract_frames_turn)
next
  case (2 b fs n)
  then show ?case by (auto simp: teltonika_turn_def Let_def split: if_splits)
next
  case (3 b fs n c)
  then show ?case
    by (auto simp: teltonika_turn_def Let_def starts_with_append LOGIN_PREFIX_def PREAMBLE_def
        slice_append_left simp del: starts_with_Cons split: if_splits)
next
  case (4 b fs n)
  then show ?case
    by (auto simp: teltonika_turn_def Let_def login_frame_take avl_frame_take split: if_splits)
next
  case (5 b fs n)
  then show ?case by (auto simp: teltonika_turn_def Let_def split: if_splits)
qed

lemma teltonika_wait_bound: "teltonika_turn m r = Wait \<Longrightarrow> int (length r) < max 17 (12 + m)"
  by (auto simp: teltonika_turn_def Let_def split: if_splits)


section \<open>Protocol detection\<close>

text \<open>The device families of protocols/detect.py; \<^verbatim>\<open>config._ALL_PROTOCOLS\<close> lists the same three.\<close>

datatype family = GT06 | GPS103 | TELTONIKA

definition sniff :: "bytes \<Rightarrow> family option" where
  "sniff first_bytes =
     (if first_bytes = [] then None
      else if take 2 first_bytes \<in> {[0x78, 0x78], [0x79, 0x79]} then Some GT06
      else if starts_with [0x23, 0x23] first_bytes
           \<or> starts_with [0x69, 0x6D, 0x65, 0x69, 0x3A] first_bytes then Some GPS103
      else if take 2 first_bytes = [0x00, 0x0F]
           \<and> list_all is_digit_byte (slice first_bytes 2 17) then Some TELTONIKA
      else None)"

definition detect_protocol :: "bytes \<Rightarrow> family set \<Rightarrow> family option" where
  "detect_protocol first_bytes enabled =
     (case sniff first_bytes of
        None \<Rightarrow> None
      | Some f \<Rightarrow> if f \<in> enabled then Some f else None)"

lemma take2_append: "2 \<le> length b \<Longrightarrow> take 2 (b @ c) = take 2 b"
  by simp

lemma sniff_gt06: "5 \<le> length b \<Longrightarrow> sniff b = Some GT06 \<longleftrightarrow>
    starts_with [0x78, 0x78] b \<or> starts_with [0x79, 0x79] b"
  by (auto simp: sniff_def starts_with_def numeral_2_eq_2 simp del: starts_with_Cons)

section \<open>Properties\<close>

lemma gt06_feed: "feed (\<lambda>b. Inr (extract_packets b)) buffer chunks \<noteq> Inl e"
  by (induction chunks arbitrary: buffer) (auto simp: result_simps split: prod.splits)

text \<open>
  However TCP cuts a GT06 stream into reads, the frames handed out and the bytes left over are
  those of the whole stream. Only complete frames are handed out (a start marker, and as long as the
  length field says), at most one incomplete frame is kept (65540 bytes), and what is kept yields
  nothing until more bytes arrive.
\<close>

lemma gt06_chunking:
  "feed (\<lambda>b. Inr (extract_packets b)) [] chunks = Inr (extract_packets (concat chunks)) \<and>
   list_all gt06_frame (fst (extract_packets b)) \<and> length (snd (extract_packets b)) < 65541 \<and>
   extract_packets (snd (extract_packets b)) = ([], snd (extract_packets b))"
proof (intro conjI)
  obtain fs r where f: "feed (\<lambda>b. Inr (extract_packets b)) [] chunks = Inr (fs, r)"
    by (metis gt06_feed surj_pair sum.exhaust)
  moreover have "gt06_turn [] = Wait" by (simp add: gt06_turn_def)
  ultimately have "Inr (extract_packets ([] @ concat chunks)) = (Inr (fs, r) :: (bytes list \<times> bytes) result)"
    by (rule gt06.feed_eq_extract)
  with f show "feed (\<lambda>b. Inr (extract_packets b)) [] chunks = Inr (extract_packets (concat chunks))" by simp
next
  obtain fs r where e: "extract_packets b = (fs, r)" by (cases "extract_packets b")
  show "list_all gt06_frame (fst (extract_packets b))" using gt06.frames_ok [of b fs r] e by simp
  show "extract_packets (snd (extract_packets b)) = ([], snd (extract_packets b))"
    using gt06.rest_stable [of b fs r] e by simp
qed (rule extract_packets_rest_bound)

text \<open>
  The GT06 framer resynchronises: junk without a start byte in front of a sequence of complete
  frames is skipped, and every frame behind it is delivered, in order, with nothing left over.
\<close>

lemma gt06_resync:
  assumes "\<forall>b \<in> set junk. b \<noteq> 0x78 \<and> b \<noteq> 0x79" and "list_all gt06_frame fs" and "fs \<noteq> []"
  shows "extract_packets (junk @ concat fs) = (fs, [])"
proof -
  obtain f gs where fs: "fs = f # gs" using assms(3) by (cases fs) auto
  have "5 \<le> length f" using assms(2) fs by (auto simp: gt06_frame_def)
  then have "5 \<le> length (concat fs)" by (simp add: fs)
  then show ?thesis
    using extract_packets_junk [OF assms(1)] extract_packets_concat [OF assms(2)] by simp
qed

text \<open>
  Messages without a terminator or surrounding whitespace, sent with their semicolons, come out
  of the GPS103 framer unchanged, in order, with nothing left over.
\<close>

lemma gps103_roundtrip:
  assumes "list_all gps103_message ms" and "0 \<le> m"
  shows "extract_messages m (concat (map (\<lambda>x. x @ [0x3B]) ms)) = Inr (ms, [])"
  using assms by (simp add: extract_messages_def split_messages_concat)

text \<open>
  The Teltonika framer is lossless: the frames it hands out and the bytes it keeps are the buffer,
  every frame is a login of fifteen digits or an AVL packet of the announced size, and it never
  keeps more than one incomplete packet of the allowed size.
\<close>

lemma teltonika_lossless:
  assumes "extract_frames m b = Inr (fs, r)"
  shows "concat fs @ r = b \<and> list_all (\<lambda>f. login_frame f \<or> avl_frame m f) fs \<and>
    int (length r) < max 17 (12 + m) \<and> extract_frames m r = Inr ([], r)"
  using teltonika.lossless [OF assms] teltonika.frames_ok [OF assms]
    teltonika_wait_bound [OF teltonika.rest_waits [OF assms]] teltonika.rest_stable [OF assms] by simp

text \<open>
  C26. A connection is served by the right pipeline: a stream that opens with a complete GT06 frame, a
  complete Teltonika login, or the text of a GPS103 login or report is detected as that family when
  it is enabled and as nothing otherwise, whatever follows.
\<close>

theorem detects_opening:
  "(gt06_frame f \<longrightarrow> detect_protocol (f @ c) en = (if GT06 \<in> en then Some GT06 else None)) \<and>
   (login_frame f \<longrightarrow> detect_protocol (f @ c) en = (if TELTONIKA \<in> en then Some TELTONIKA else None)) \<and>
   (starts_with [0x23, 0x23] f \<or> starts_with [0x69, 0x6D, 0x65, 0x69, 0x3A] f \<longrightarrow>
      detect_protocol (f @ c) en = (if GPS103 \<in> en then Some GPS103 else None))"
proof (intro conjI impI)
  assume "gt06_frame f"
  then have "sniff (f @ c) = Some GT06"
    by (auto simp: gt06_frame_def sniff_gt06 starts_with_append simp del: starts_with_Cons)
  then show "detect_protocol (f @ c) en = (if GT06 \<in> en then Some GT06 else None)"
    by (simp add: detect_protocol_def)
next
  assume f: "login_frame f"
  then have l: "length f = 17" "take 2 f = [0x00, 0x0F]" "list_all is_digit_byte (drop 2 f)"
    by (auto simp: login_frame_def is_login_frame_def LOGIN_FRAME_LEN_def LOGIN_PREFIX_def)
  then obtain g where g: "f = 0x00 # 0x0F # g" "length g = 15"
    by (cases f; cases "tl f") auto
  with l have "sniff (f @ c) = Some TELTONIKA"
    by (simp add: sniff_def slice_def)
  then show "detect_protocol (f @ c) en = (if TELTONIKA \<in> en then Some TELTONIKA else None)"
    by (simp add: detect_protocol_def)
next
  assume "starts_with [0x23, 0x23] f \<or> starts_with [0x69, 0x6D, 0x65, 0x69, 0x3A] f"
  then obtain g where "f = [0x23, 0x23] @ g \<or> f = [0x69, 0x6D, 0x65, 0x69, 0x3A] @ g"
    by (metis starts_with_def append_take_drop_id)
  then have "sniff (f @ c) = Some GPS103"
    by (auto simp: sniff_def starts_with_def)
  then show "detect_protocol (f @ c) en = (if GPS103 \<in> en then Some GPS103 else None)"
    by (simp add: detect_protocol_def)
qed

theorem detects_opening_witness:
  "detect_protocol ([0x78, 0x78, 0, 1, 2] @ [9]) {GT06} = Some GT06 \<and>
   detect_protocol (([0x00, 0x0F] @ replicate 15 0x31) @ []) {GT06} = None"
proof -
  have "gt06_frame [0x78, 0x78, 0, 1, 2]" by (simp add: gt06_frame_def)
  moreover have "login_frame ([0x00, 0x0F] @ replicate 15 0x31)"
    by (simp add: login_frame_def is_login_frame_def LOGIN_FRAME_LEN_def LOGIN_PREFIX_def
        is_digit_byte_def list_all_iff)
  ultimately show ?thesis
    using detects_opening [of "[0x78, 0x78, 0, 1, 2]" "[9]" "{GT06}"]
      detects_opening [of "[0x00, 0x0F] @ replicate 15 0x31" "[]" "{GT06}"] by simp
qed

end
