(* ===== verification/Py_Float.thy ===== *)
theory Py_Float
  imports Complex_Main Prelude "HOL-Library.Log_Nat"
begin

text \<open>
  Python floats. A finite float is a rational number that is the result of rounding to binary64
  (\<open>rnd64\<close>: 53 significant bits, ties to even, gradual underflow); the values that are not finite
  are constructors of their own. Arithmetic is exact arithmetic followed by that rounding, as
  IEEE 754 defines it. Built on it: \<^verbatim>\<open>round(x, n)\<close> and the two functions of utils/numeric.py
  through which every number bound to a numeric column passes. Integers that meet floats in the
  code (speeds and headings of one or two bytes) are finite floats here, since they are exact.
\<close>

named_theorems float_simps \<open>comparison and rounding of floats\<close>

section \<open>Rounding\<close>

text \<open>Round to the nearest integer, ties to even.\<close>

definition rhe :: "rat \<Rightarrow> int" where
  "rhe x = (let f = \<lfloor>x\<rfloor>; r = x - of_int f
            in if r < 1 / 2 then f else if r > 1 / 2 then f + 1
               else if even f then f else f + 1)"

text \<open>The binary exponent of a positive number: \<open>2 ^ e \<le> x < 2 ^ (e + 1)\<close>.\<close>

definition binexp :: "rat \<Rightarrow> int" where
  "binexp x = (let (n, d) = quotient_of x; k = bitlen n - bitlen d
               in if x < 2 powi k then k - 1 else k)"

definition ulp :: "rat \<Rightarrow> rat" where
  "ulp x = 2 powi (max (binexp \<bar>x\<bar> - 52) (- 1074))"

definition rnd64 :: "rat \<Rightarrow> rat" where
  "rnd64 x = (if x = 0 then 0 else of_int (rhe (x / ulp x)) * ulp x)"

lemma rhe_cases: "rhe x = \<lfloor>x\<rfloor> \<and> x - of_int \<lfloor>x\<rfloor> \<le> 1 / 2 \<or> rhe x = \<lfloor>x\<rfloor> + 1 \<and> 1 / 2 \<le> x - of_int \<lfloor>x\<rfloor>"
  by (auto simp: rhe_def Let_def)

lemma rhe_error: "\<bar>of_int (rhe x) - x\<bar> \<le> 1 / 2"
proof -
  have "of_int \<lfloor>x\<rfloor> \<le> x" "x < of_int \<lfloor>x\<rfloor> + 1" by linarith+
  with rhe_cases [of x] show ?thesis by auto
qed

lemma rhe_of_int [simp]: "rhe (of_int n) = n"
  by (simp add: rhe_def)

lemma rhe_mono: "x \<le> y \<Longrightarrow> rhe x \<le> rhe y"
proof -
  assume xy: "x \<le> y"
  then have fl: "\<lfloor>x\<rfloor> \<le> \<lfloor>y\<rfloor>" by (rule floor_mono)
  show ?thesis
  proof (cases "\<lfloor>x\<rfloor> = \<lfloor>y\<rfloor>")
    case True
    with xy show ?thesis by (auto simp: rhe_def Let_def)
  next
    case False
    with fl have "\<lfloor>x\<rfloor> + 1 \<le> \<lfloor>y\<rfloor>" by simp
    with rhe_cases [of x] rhe_cases [of y] show ?thesis by linarith
  qed
qed

lemma rhe_minus: "rhe (- x) = - rhe x"
proof -
  have f: "\<lfloor>- x\<rfloor> = (if of_int \<lfloor>x\<rfloor> = x then - \<lfloor>x\<rfloor> else - \<lfloor>x\<rfloor> - 1)"
  proof (cases "of_int \<lfloor>x\<rfloor> = x")
    case True
    then show ?thesis by (metis floor_of_int of_int_minus)
  next
    case False
    have "of_int \<lfloor>x\<rfloor> \<le> x" "x < of_int \<lfloor>x\<rfloor> + 1" by linarith+
    moreover from False this have "of_int \<lfloor>x\<rfloor> < x" by (simp add: less_le)
    ultimately have "\<lfloor>- x\<rfloor> = - \<lfloor>x\<rfloor> - 1" by (intro floor_unique) simp_all
    with False show ?thesis by simp
  qed
  show ?thesis
    by (cases "of_int \<lfloor>x\<rfloor> = x") (auto simp: rhe_def Let_def f)
qed

lemma rhe_0 [simp]: "rhe 0 = 0"
  using rhe_of_int [of 0] by simp

section \<open>The binary exponent\<close>

lemma binexp_bounds:
  assumes "0 < x"
  shows "2 powi binexp x \<le> x \<and> x < 2 powi (binexp x + 1)"
proof -
  obtain n d where q: "quotient_of x = (n, d)" by (cases "quotient_of x")
  then have d: "0 < d" and x: "x = of_int n / of_int d"
    using quotient_of_denom_pos quotient_of_div by blast+
  with assms have n: "0 < n" by (simp add: zero_less_divide_iff)
  have up: "of_int m < (2 :: rat) powi bitlen m" and lo: "(2 :: rat) powi (bitlen m - 1) \<le> of_int m"
    if "0 < m" for m
  proof -
    have b: "2 ^ nat (bitlen m - 1) \<le> m \<and> m < 2 ^ nat (bitlen m)" and p: "0 < bitlen m"
      using bitlen_bounds [OF that] bitlen_eq_zero_iff [of m] bitlen_nonneg [of m] that by auto
    have "of_int (2 ^ nat (bitlen m - 1)) \<le> (of_int m :: rat)"
      and "(of_int m :: rat) < of_int (2 ^ nat (bitlen m))"
      using b of_int_le_iff of_int_less_iff by blast+
    then show "of_int m < (2 :: rat) powi bitlen m" and "(2 :: rat) powi (bitlen m - 1) \<le> of_int m"
      using p by (simp_all add: power_int_def)
  qed
  let ?k = "bitlen n - bitlen d"
  have "x < 2 powi bitlen n / 2 powi (bitlen d - 1)"
    unfolding x using up [OF n] lo [OF d] d n
    by (intro frac_less) auto
  also have "\<dots> = 2 powi (?k + 1)"
    by (simp add: power_int_diff power_int_add)
  finally have hi: "x < 2 powi (?k + 1)" .
  have "2 powi (?k - 1) = (2 :: rat) powi (bitlen n - 1) / 2 powi bitlen d"
    by (simp add: power_int_diff)
  also have "\<dots> \<le> x"
    unfolding x using up [OF d] lo [OF n] d n by (intro frac_le) auto
  finally have "2 powi (?k - 1) \<le> x" .
  with hi show ?thesis by (auto simp: binexp_def q Let_def)
qed

lemma powi_less_iff: "(2 :: rat) powi a < 2 powi b \<longleftrightarrow> a < b"
proof
  assume "(2 :: rat) powi a < 2 powi b"
  then show "a < b"
    using power_int_increasing [of b a "2 :: rat"] by (metis linorder_not_less numeral_le_one_iff
      one_le_numeral)
next
  assume "a < b"
  then show "(2 :: rat) powi a < 2 powi b" by (simp add: power_int_strict_increasing)
qed

lemma powi_le_iff: "(2 :: rat) powi a \<le> 2 powi b \<longleftrightarrow> a \<le> b"
  using powi_less_iff [of b a] by (simp add: linorder_not_less [symmetric])

lemma binexpI:
  assumes "2 powi e \<le> x" "x < 2 powi (e + 1)"
  shows "binexp x = e"
proof -
  have "0 < x" using assms(1) by (metis less_le_trans zero_less_numeral zero_less_power_int)
  from binexp_bounds [OF this] assms have "2 powi e < (2 :: rat) powi (binexp x + 1)"
    and "(2 :: rat) powi binexp x < 2 powi (e + 1)" by linarith+
  then show ?thesis unfolding powi_less_iff by simp
qed

lemma binexp_mono: "0 < x \<Longrightarrow> x \<le> y \<Longrightarrow> binexp x \<le> binexp y"
proof -
  assume "0 < x" "x \<le> y"
  with binexp_bounds [of x] binexp_bounds [of y]
  have "(2 :: rat) powi binexp x < 2 powi (binexp y + 1)" by linarith
  then show ?thesis unfolding powi_less_iff by simp
qed


section \<open>Rounding is monotone and exact where it should be\<close>

definition expo :: "rat \<Rightarrow> int" where
  "expo x = max (binexp \<bar>x\<bar> - 52) (- 1074)"

lemma ulp_expo: "ulp x = 2 powi expo x"
  by (simp add: ulp_def expo_def)

lemma ulp_pos [simp]: "0 < ulp x"
  by (simp add: ulp_def)

lemma ulp_nonzero [simp]: "ulp x \<noteq> 0"
  by (metis ulp_pos less_irrefl)

lemma abs_ulp [simp]: "\<bar>ulp x\<bar> = ulp x"
  by (metis ulp_pos abs_of_pos)

lemma rnd64_0 [simp]: "rnd64 0 = 0"
  by (simp add: rnd64_def)

lemma rnd64_minus: "rnd64 (- x) = - rnd64 x"
proof -
  have "ulp (- x) = ulp x" by (simp add: ulp_def)
  then show ?thesis by (simp add: rnd64_def rhe_minus)
qed

lemma rnd64_error: "\<bar>rnd64 x - x\<bar> \<le> ulp x / 2"
proof (cases "x = 0")
  case False
  have "rnd64 x - x = (of_int (rhe (x / ulp x)) - x / ulp x) * ulp x"
    using False by (simp add: rnd64_def left_diff_distrib)
  also have "\<bar>\<dots>\<bar> = \<bar>of_int (rhe (x / ulp x)) - x / ulp x\<bar> * ulp x"
    by (simp add: abs_mult)
  also have "\<dots> \<le> 1 / 2 * ulp x"
    using rhe_error [of "x / ulp x"] by (intro mult_right_mono) (auto simp: less_imp_le)
  finally show ?thesis by simp
qed (simp add: less_imp_le)

lemma powi_nat: "k \<le> b \<Longrightarrow> (2 :: rat) powi b / 2 powi k = of_int (2 ^ nat (b - k))"
  by (simp add: power_int_diff [symmetric] power_int_nonneg_exp)

lemma rnd64_upper:
  assumes "0 < x"
  shows "rnd64 x \<le> 2 powi (max (binexp x + 1) (- 1074))"
proof -
  let ?m = "max (binexp x + 1) (- 1074)" and ?k = "expo x"
  have "x < 2 powi (binexp x + 1)" using binexp_bounds [OF assms] by simp
  also have "\<dots> \<le> 2 powi ?m" by (simp add: powi_le_iff)
  finally have "x / 2 powi ?k \<le> 2 powi ?m / 2 powi ?k" by (simp add: divide_right_mono)
  also have "\<dots> = of_int (2 ^ nat (?m - ?k))"
    using assms by (intro powi_nat) (simp add: expo_def)
  finally have "rhe (x / 2 powi ?k) \<le> 2 ^ nat (?m - ?k)"
    using rhe_mono rhe_of_int by metis
  then have "of_int (rhe (x / 2 powi ?k)) \<le> (of_int (2 ^ nat (?m - ?k)) :: rat)"
    by (simp only: of_int_le_iff)
  also have "\<dots> = 2 powi ?m / 2 powi ?k"
    using assms by (intro powi_nat [symmetric]) (simp add: expo_def)
  finally show ?thesis
    using assms by (simp add: rnd64_def ulp_expo pos_le_divide_eq)
qed

lemma rnd64_lower:
  assumes "0 < x" "expo x \<le> binexp x"
  shows "2 powi binexp x \<le> rnd64 x"
proof -
  let ?k = "expo x"
  have "of_int (2 ^ nat (binexp x - ?k)) = 2 powi binexp x / (2 :: rat) powi ?k"
    using assms(2) by (rule powi_nat [symmetric])
  also have "\<dots> \<le> x / 2 powi ?k"
    using binexp_bounds [OF assms(1)] by (simp add: divide_right_mono)
  finally have "2 ^ nat (binexp x - ?k) \<le> rhe (x / 2 powi ?k)"
    using rhe_mono rhe_of_int by metis
  then have "of_int (2 ^ nat (binexp x - ?k)) \<le> (of_int (rhe (x / 2 powi ?k)) :: rat)"
    by (simp only: of_int_le_iff)
  then have "2 powi binexp x / (2 :: rat) powi ?k \<le> of_int (rhe (x / 2 powi ?k))"
    using powi_nat [OF assms(2)] by simp
  then show ?thesis
    using assms(1) by (simp add: rnd64_def ulp_expo pos_divide_le_eq)
qed

lemma rnd64_nonneg: "0 \<le> x \<Longrightarrow> 0 \<le> rnd64 x"
proof -
  assume "0 \<le> x"
  then have "0 \<le> x / ulp x" by (simp add: less_imp_le)
  then have "0 \<le> rhe (x / ulp x)" using rhe_mono [of 0 "x / ulp x"] by simp
  then show ?thesis by (simp add: rnd64_def less_imp_le)
qed

lemma rnd64_mono_pos:
  assumes "0 < x" "x \<le> y"
  shows "rnd64 x \<le> rnd64 y"
proof (cases "expo x = expo y")
  case True
  have "x / 2 powi expo y \<le> y / 2 powi expo y"
    using assms by (simp add: divide_right_mono)
  then have "rhe (x / 2 powi expo y) \<le> rhe (y / 2 powi expo y)" by (rule rhe_mono)
  with True assms show ?thesis by (simp add: rnd64_def ulp_expo mult_right_mono)
next
  case False
  have b: "binexp x \<le> binexp y" using assms by (rule binexp_mono)
  with False assms have e: "binexp x + 1 \<le> binexp y" "- 1074 \<le> binexp y" "expo y \<le> binexp y"
    by (auto simp: expo_def)
  have "rnd64 x \<le> 2 powi (max (binexp x + 1) (- 1074))" by (rule rnd64_upper [OF assms(1)])
  also have "\<dots> \<le> 2 powi binexp y" using e by (simp add: powi_le_iff)
  also have "\<dots> \<le> rnd64 y" using assms e by (intro rnd64_lower) auto
  finally show ?thesis .
qed

lemma rnd64_mono: "x \<le> y \<Longrightarrow> rnd64 x \<le> rnd64 y"
proof -
  assume xy: "x \<le> y"
  consider "0 < x" | "x \<le> 0" "0 \<le> y" | "y < 0" by linarith
  then show ?thesis
  proof cases
    case 1
    with xy show ?thesis by (intro rnd64_mono_pos)
  next
    case 2
    have "0 \<le> rnd64 (- x)" and "0 \<le> rnd64 y" using 2 by (auto intro: rnd64_nonneg)
    then show ?thesis by (simp add: rnd64_minus)
  next
    case 3
    with xy have "rnd64 (- y) \<le> rnd64 (- x)" by (intro rnd64_mono_pos) auto
    then show ?thesis by (simp add: rnd64_minus)
  qed
qed

text \<open>Dyadic numbers with at most 53 bits are not changed; integers are a special case.\<close>

lemma rnd64_dyadic:
  assumes m: "\<bar>m\<bar> < 2 ^ 53" and k: "- 1074 \<le> k"
  shows "rnd64 (of_int m * 2 powi k) = of_int m * 2 powi k"
proof (cases "m = 0")
  case False
  let ?x = "of_int m * 2 powi k :: rat"
  have x0: "0 < \<bar>?x\<bar>" using False by simp
  have "of_int \<bar>m\<bar> < (of_int (2 ^ 53) :: rat)" using m by (simp only: of_int_less_iff)
  then have "\<bar>?x\<bar> < 2 powi 53 * 2 powi k" by (simp add: abs_mult)
  also have "\<dots> = 2 powi (53 + k)" by (simp add: power_int_add)
  finally have "(2 :: rat) powi binexp \<bar>?x\<bar> < 2 powi (53 + k)"
    using binexp_bounds [OF x0] by linarith
  then have "expo ?x \<le> k" using k by (simp add: powi_less_iff expo_def)
  then have "?x / ulp ?x = of_int (m * 2 ^ nat (k - expo ?x))"
    using powi_nat [of "expo ?x" k]
    by (simp add: ulp_expo times_divide_eq_right [symmetric] del: times_divide_eq_right)
  then have "of_int (rhe (?x / ulp ?x)) = ?x / ulp ?x" by (metis rhe_of_int)
  then show ?thesis using ulp_pos [of ?x] by (simp add: rnd64_def)
qed simp

lemma rnd64_of_int: "\<bar>m\<bar> < 2 ^ 53 \<Longrightarrow> rnd64 (of_int m) = of_int m"
  using rnd64_dyadic [of m 0] by simp

lemma rnd64_numeral [simp]: "(numeral k :: int) < 2 ^ 53 \<Longrightarrow> rnd64 (numeral k) = numeral k"
  using rnd64_of_int [of "numeral k"] by simp

lemma rnd64_le_int: "\<bar>m\<bar> < 2 ^ 53 \<Longrightarrow> x \<le> of_int m \<Longrightarrow> rnd64 x \<le> of_int m"
  using rnd64_mono [of x "of_int m"] by (simp add: rnd64_of_int)

lemma rnd64_ge_int: "\<bar>m\<bar> < 2 ^ 53 \<Longrightarrow> of_int m \<le> x \<Longrightarrow> of_int m \<le> rnd64 x"
  using rnd64_mono [of "of_int m" x] by (simp add: rnd64_of_int)


text \<open>The rounding error of a number below \<open>2 ^ k\<close>.\<close>

lemma rnd64_error_below:
  assumes "\<bar>x\<bar> < 2 powi k" "- 1000 \<le> k"
  shows "\<bar>rnd64 x - x\<bar> \<le> 2 powi (k - 54)"
proof (cases "x = 0")
  case False
  then have "2 powi binexp \<bar>x\<bar> \<le> \<bar>x\<bar>" using binexp_bounds [of "\<bar>x\<bar>"] by simp
  with assms(1) have "(2 :: rat) powi binexp \<bar>x\<bar> < 2 powi k" by linarith
  then have "expo x \<le> k - 53" using assms(2) by (simp add: powi_less_iff expo_def)
  then have "ulp x \<le> 2 powi (k - 53)" by (simp add: ulp_expo powi_le_iff)
  moreover have "(2 :: rat) powi (k - 53) = 2 * 2 powi (k - 54)"
    using power_int_add [of "2 :: rat" 1 "k - 54"] by simp
  ultimately show ?thesis using rnd64_error [of x] by simp
qed simp

section \<open>Float values and their operations\<close>

datatype pyfloat = Fin rat | PInf | NInf | NaN

text \<open>The float nearest to an exact result; too large a magnitude overflows to an infinity.\<close>

definition to_float :: "rat \<Rightarrow> pyfloat" where
  "to_float x = (let r = rnd64 x
                 in if 2 ^ 1024 \<le> r then PInf else if r \<le> - (2 ^ 1024) then NInf else Fin r)"

text \<open>\<^verbatim>\<open>a / b\<close> on integers: correctly rounded; the code divides by positive constants only.\<close>

definition int_div :: "int \<Rightarrow> int \<Rightarrow> pyfloat" where
  "int_div a b = to_float (of_int a / of_int b)"

fun f_neg :: "pyfloat \<Rightarrow> pyfloat" where
  "f_neg (Fin x) = Fin (- x)"
| "f_neg PInf = NInf"
| "f_neg NInf = PInf"
| "f_neg NaN = NaN"

fun f_add :: "pyfloat \<Rightarrow> pyfloat \<Rightarrow> pyfloat" where
  "f_add (Fin x) (Fin y) = to_float (x + y)"
| "f_add NaN _ = NaN"
| "f_add _ NaN = NaN"
| "f_add PInf NInf = NaN"
| "f_add NInf PInf = NaN"
| "f_add PInf _ = PInf"
| "f_add _ PInf = PInf"
| "f_add NInf _ = NInf"
| "f_add _ NInf = NInf"

text \<open>Multiplication by a positive finite constant.\<close>

fun f_scale :: "rat \<Rightarrow> pyfloat \<Rightarrow> pyfloat" where
  "f_scale c (Fin x) = to_float (x * c)"
| "f_scale c v = v"

text \<open>\<open>a <= b\<close>: false as soon as a NaN is compared.\<close>

fun f_le :: "pyfloat \<Rightarrow> pyfloat \<Rightarrow> bool" where
  "f_le (Fin x) (Fin y) = (x \<le> y)"
| "f_le NaN _ = False"
| "f_le _ NaN = False"
| "f_le NInf _ = True"
| "f_le _ PInf = True"
| "f_le _ _ = False"

definition f_between :: "int \<Rightarrow> pyfloat \<Rightarrow> int \<Rightarrow> bool" where
  "f_between lo v hi \<longleftrightarrow> f_le (Fin (of_int lo)) v \<and> f_le v (Fin (of_int hi))"

definition f_of_nat :: "nat \<Rightarrow> pyfloat" where
  "f_of_nat n = Fin (of_nat n)"

definition f_positive :: "pyfloat \<Rightarrow> bool" where
  "f_positive v \<longleftrightarrow> (case v of Fin x \<Rightarrow> 0 < x | PInf \<Rightarrow> True | _ \<Rightarrow> False)"

definition is_finite :: "pyfloat \<Rightarrow> bool" where
  "is_finite v \<longleftrightarrow> (case v of Fin _ \<Rightarrow> True | _ \<Rightarrow> False)"

text \<open>The decimal with \<open>places\<close> digits nearest to a number, ties to even.\<close>

definition decimal_round :: "nat \<Rightarrow> rat \<Rightarrow> rat" where
  "decimal_round places x = of_int (rhe (x * 10 ^ places)) / 10 ^ places"

text \<open>\<^verbatim>\<open>round(v, places)\<close> on a float.\<close>

fun py_round :: "nat \<Rightarrow> pyfloat \<Rightarrow> pyfloat" where
  "py_round places (Fin x) = to_float (decimal_round places x)"
| "py_round places v = v"

lemma f_between_Fin [float_simps]: "f_between lo (Fin x) hi \<longleftrightarrow> of_int lo \<le> x \<and> x \<le> of_int hi"
  by (simp add: f_between_def)

lemma f_between_finite: "f_between lo v hi \<Longrightarrow> \<exists>x. v = Fin x \<and> of_int lo \<le> x \<and> x \<le> of_int hi"
  by (cases v) (auto simp: f_between_def)

lemma to_float_Fin: "\<bar>rnd64 x\<bar> < 2 ^ 1024 \<Longrightarrow> to_float x = Fin (rnd64 x)"
  by (auto simp: to_float_def Let_def abs_less_iff)

lemma to_float_small:
  assumes "\<bar>x\<bar> \<le> of_int m" "\<bar>m\<bar> < 2 ^ 53"
  shows "to_float x = Fin (rnd64 x)"
proof (rule to_float_Fin)
  have "rnd64 x \<le> of_int m" and "of_int (- m) \<le> rnd64 x"
    using assms by (auto intro!: rnd64_le_int rnd64_ge_int simp del: of_int_minus)
  moreover have "of_int m < (2 :: rat) ^ 53"
    using assms(2) by (metis abs_less_iff of_int_less_iff of_int_numeral of_int_power)
  moreover have "(2 :: rat) ^ 53 \<le> 2 ^ 1024" by (rule power_increasing) simp_all
  ultimately show "\<bar>rnd64 x\<bar> < 2 ^ 1024" by (auto simp: abs_less_iff)
qed

lemma decimal_round_mono: "x \<le> y \<Longrightarrow> decimal_round p x \<le> decimal_round p y"
proof -
  assume "x \<le> y"
  then have "rhe (x * 10 ^ p) \<le> rhe (y * 10 ^ p)" by (intro rhe_mono) (simp add: mult_right_mono)
  then show ?thesis by (simp add: decimal_round_def divide_right_mono)
qed

lemma decimal_round_of_int: "decimal_round p (of_int n) = of_int n"
proof -
  have "of_int n * 10 ^ p = (of_int (n * 10 ^ p) :: rat)" by simp
  then show ?thesis unfolding decimal_round_def by (simp only: rhe_of_int) simp
qed

lemma decimal_round_bounds:
  "of_int lo \<le> x \<and> x \<le> of_int hi \<Longrightarrow>
   of_int lo \<le> decimal_round p x \<and> decimal_round p x \<le> of_int hi"
  by (metis decimal_round_mono decimal_round_of_int)

lemma decimal_round_error: "\<bar>decimal_round p x - x\<bar> \<le> 1 / (2 * 10 ^ p)"
proof -
  have "decimal_round p x - x = (of_int (rhe (x * 10 ^ p)) - x * 10 ^ p) / 10 ^ p"
    by (simp add: decimal_round_def diff_divide_distrib)
  also have "\<bar>\<dots>\<bar> = \<bar>of_int (rhe (x * 10 ^ p)) - x * 10 ^ p\<bar> / 10 ^ p"
    by (simp add: abs_divide)
  also have "\<dots> \<le> (1 / 2) / 10 ^ p"
    by (rule divide_right_mono [OF rhe_error]) simp
  finally show ?thesis by simp
qed

section \<open>utils/numeric.py\<close>

text \<open>
  \<^verbatim>\<open>Decimal(str(round(value, places)))\<close>. The rounded float is the one nearest to a decimal
  with \<open>places\<close> digits, and \<^verbatim>\<open>str\<close> prints the shortest decimal that reads back as the same
  float: for magnitudes with at most 15 significant digits (every value the gateway stores) that
  is the decimal itself, which is what is modelled. NaN and the infinities raise ValueError.
\<close>

definition clean_decimal :: "nat \<Rightarrow> pyfloat option \<Rightarrow> rat option result" where
  "clean_decimal places v =
     (case v of
        None \<Rightarrow> Inr None
      | Some (Fin x) \<Rightarrow> Inr (Some (decimal_round places x))
      | Some _ \<Rightarrow> Inl ValueError)"

definition clean_coordinates ::
    "pyfloat option \<Rightarrow> pyfloat option \<Rightarrow> (rat option \<times> rat option) result" where
  "clean_coordinates latitude longitude =
     (case (latitude, longitude) of
        (Some lat, Some lon) \<Rightarrow>
          (let lat_ok = f_between (- 90) lat 90 \<and> is_finite lat;
               lon_ok = f_between (- 180) lon 180 \<and> is_finite lon
           in if \<not> (lat_ok \<and> lon_ok) then Inr (None, None)
              else bindR (clean_decimal 6 latitude) (\<lambda>a.
                   bindR (clean_decimal 6 longitude) (\<lambda>b. Inr (a, b))))
      | _ \<Rightarrow> Inr (None, None))"

lemma clean_decimal_Fin [simp]: "clean_decimal p (Some (Fin x)) = Inr (Some (decimal_round p x))"
  by (simp add: clean_decimal_def)

lemma clean_decimal_finite:
  "clean_decimal p (Some v) = Inr r \<Longrightarrow> \<exists>x. v = Fin x \<and> r = Some (decimal_round p x)"
  by (cases v) (auto simp: clean_decimal_def)

lemma clean_coordinates_total: "\<exists>a b. clean_coordinates lat lon = Inr (a, b)"
  by (cases lat; cases lon)
    (auto simp: clean_coordinates_def Let_def dest!: f_between_finite)

lemma clean_coordinates_bounds:
  assumes "clean_coordinates lat lon = Inr (a, b)"
  shows "(a = None \<and> b = None) \<or>
    (\<exists>x y. a = Some x \<and> b = Some y \<and> - 90 \<le> x \<and> x \<le> 90 \<and> - 180 \<le> y \<and> y \<le> 180)"
proof (cases "lat = None \<or> lon = None")
  case True
  with assms show ?thesis by (auto simp: clean_coordinates_def split: option.splits)
next
  case False
  then obtain u v where uv: "lat = Some u" "lon = Some v" by auto
  show ?thesis
  proof (cases "f_between (- 90) u 90 \<and> f_between (- 180) v 180")
    case True
    then obtain x y where "u = Fin x" "- 90 \<le> x" "x \<le> 90" "v = Fin y" "- 180 \<le> y" "y \<le> 180"
      by (auto dest!: f_between_finite)
    then show ?thesis
      using assms uv decimal_round_bounds [of "- 90" x 90 6] decimal_round_bounds [of "- 180" y 180 6]
      by (auto simp: clean_coordinates_def is_finite_def float_simps)
  next
    case False
    with assms uv show ?thesis by (auto simp: clean_coordinates_def Let_def)
  qed
qed

section \<open>Properties\<close>

text \<open>
  \<^verbatim>\<open>clean_coordinates\<close> never raises; it gives no position for a missing, non-finite or physically
  impossible one, and otherwise the decimal with six digits nearest to the floats it was given: at
  most half a millionth of a degree away, and still within the bounds of the globe.
\<close>

lemma clean_coordinates_spec:
  "\<exists>r. clean_coordinates lat lon = Inr r \<and>
     r = (case (lat, lon) of
            (Some (Fin x), Some (Fin y)) \<Rightarrow>
              (if - 90 \<le> x \<and> x \<le> 90 \<and> - 180 \<le> y \<and> y \<le> 180
               then (Some (decimal_round 6 x), Some (decimal_round 6 y)) else (None, None))
          | _ \<Rightarrow> (None, None)) \<and>
     (case r of
        (Some a, Some b) \<Rightarrow> - 90 \<le> a \<and> a \<le> 90 \<and> - 180 \<le> b \<and> b \<le> 180 \<and>
          (\<exists>x y. lat = Some (Fin x) \<and> lon = Some (Fin y) \<and>
                 \<bar>a - x\<bar> \<le> 1 / 2000000 \<and> \<bar>b - y\<bar> \<le> 1 / 2000000)
      | _ \<Rightarrow> r = (None, None))"
proof (cases "\<exists>x y. lat = Some (Fin x) \<and> lon = Some (Fin y) \<and> - 90 \<le> x \<and> x \<le> 90 \<and> - 180 \<le> y \<and> y \<le> 180")
  case True
  then obtain x y where xy: "lat = Some (Fin x)" "lon = Some (Fin y)" "- 90 \<le> x" "x \<le> 90" "- 180 \<le> y" "y \<le> 180"
    by blast
  then have "clean_coordinates lat lon = Inr (Some (decimal_round 6 x), Some (decimal_round 6 y))"
    by (simp add: clean_coordinates_def is_finite_def float_simps)
  moreover have "- 90 \<le> decimal_round 6 x" "decimal_round 6 x \<le> 90"
    using decimal_round_bounds [of "- 90" x 90 6] xy by simp_all
  moreover have "- 180 \<le> decimal_round 6 y" "decimal_round 6 y \<le> 180"
    using decimal_round_bounds [of "- 180" y 180 6] xy by simp_all
  ultimately show ?thesis
    using xy decimal_round_error [of 6 x] decimal_round_error [of 6 y] by simp
next
  case False
  then have "clean_coordinates lat lon = Inr (None, None)"
    by (cases lat; cases lon)
      (auto simp: clean_coordinates_def Let_def dest!: f_between_finite)
  with False show ?thesis
    by (auto split: option.split pyfloat.split)
qed

end
