(* ===== verification/Py_Text.thy ===== *)
theory Py_Text
  imports Prelude "HOL-Library.Char_ord"
begin

text \<open>
  Python text as the gateway uses it. A string is a list of characters; what arrives from a device
  has been decoded as ASCII, so characters are code points below 128 there. The whitespace, digit
  and case rules are those of Python's \<^verbatim>\<open>str\<close> on that range.
\<close>

named_theorems text_simps \<open>decoding and encoding of text\<close>

section \<open>Bytes and text\<close>

definition char_code :: "char \<Rightarrow> nat" where
  "char_code c = of_char c"

text \<open>\<^verbatim>\<open>bs.decode("ascii")\<close> and \<^verbatim>\<open>s.encode("ascii")\<close>.\<close>

definition decode_ascii :: "bytes \<Rightarrow> string result" where
  "decode_ascii bs = (if list_all (\<lambda>b. b < 128) bs
     then Inr (map (\<lambda>b. char_of (unat b)) bs) else Inl UnicodeError)"

text \<open>\<^verbatim>\<open>bs.decode("ascii", errors="ignore")\<close> drops what is not ASCII.\<close>

definition decode_ascii_ignore :: "bytes \<Rightarrow> string" where
  "decode_ascii_ignore bs = map (\<lambda>b. char_of (unat b)) (filter (\<lambda>b. b < 128) bs)"

definition encode_ascii :: "string \<Rightarrow> bytes result" where
  "encode_ascii s = (if list_all (\<lambda>c. char_code c < 128) s
     then Inr (map (\<lambda>c. of_nat (char_code c)) s) else Inl UnicodeError)"

definition is_ascii :: "string \<Rightarrow> bool" where
  "is_ascii s \<longleftrightarrow> list_all (\<lambda>c. char_code c < 128) s"

section \<open>Character classes\<close>

definition is_space_char :: "char \<Rightarrow> bool" where
  "is_space_char c \<longleftrightarrow> (let n = char_code c in 9 \<le> n \<and> n \<le> 13 \<or> 28 \<le> n \<and> n \<le> 32 \<or> n = 133 \<or> n = 160)"

definition is_digit_char :: "char \<Rightarrow> bool" where
  "is_digit_char c \<longleftrightarrow> 48 \<le> char_code c \<and> char_code c \<le> 57"

definition digit_val :: "char \<Rightarrow> nat" where
  "digit_val c = char_code c - 48"

definition lower_char :: "char \<Rightarrow> char" where
  "lower_char c = (if 65 \<le> char_code c \<and> char_code c \<le> 90 then char_of (char_code c + 32) else c)"

definition upper_char :: "char \<Rightarrow> char" where
  "upper_char c = (if 97 \<le> char_code c \<and> char_code c \<le> 122 then char_of (char_code c - 32) else c)"

definition lower :: "string \<Rightarrow> string" where
  "lower s = map lower_char s"

definition upper :: "string \<Rightarrow> string" where
  "upper s = map upper_char s"

section \<open>String methods\<close>

text \<open>\<^verbatim>\<open>s.strip()\<close>, \<^verbatim>\<open>s.strip(chars)\<close> and \<^verbatim>\<open>s.lstrip(chars)\<close> for a class of characters.\<close>

definition strip_by :: "(char \<Rightarrow> bool) \<Rightarrow> string \<Rightarrow> string" where
  "strip_by p s = rev (dropWhile p (rev (dropWhile p s)))"

definition strip :: "string \<Rightarrow> string" where
  "strip s = strip_by is_space_char s"

definition lstrip_by :: "(char \<Rightarrow> bool) \<Rightarrow> string \<Rightarrow> string" where
  "lstrip_by p s = dropWhile p s"

text \<open>\<^verbatim>\<open>s.split(sep)\<close> for a one-character separator.\<close>

fun split_on :: "char \<Rightarrow> string \<Rightarrow> string list" where
  "split_on sep [] = [ [] ]"
| "split_on sep (c # cs) =
     (if c = sep then [] # split_on sep cs
      else (case split_on sep cs of [] \<Rightarrow> [ [c] ] | w # ws \<Rightarrow> (c # w) # ws))"

text \<open>\<^verbatim>\<open>s.partition(sep)\<close>: head, whether the separator was found, tail.\<close>

fun partition_on :: "char \<Rightarrow> string \<Rightarrow> string \<times> bool \<times> string" where
  "partition_on sep [] = ([], False, [])"
| "partition_on sep (c # cs) =
     (if c = sep then ([], True, cs)
      else (let (h, f, t) = partition_on sep cs in (c # h, f, t)))"

fun contains :: "string \<Rightarrow> string \<Rightarrow> bool" where
  "contains sub [] = (sub = [])"
| "contains sub (c # cs) = (starts_with sub (c # cs) \<or> contains sub cs)"

definition is_digits :: "string \<Rightarrow> bool" where
  "is_digits s \<longleftrightarrow> s \<noteq> [] \<and> list_all is_digit_char s"

text \<open>\<^verbatim>\<open>int(s)\<close> of a string of digits.\<close>

definition int_of_digits :: "string \<Rightarrow> nat" where
  "int_of_digits s = foldl (\<lambda>n c. 10 * n + digit_val c) 0 s"

fun str_nat :: "nat \<Rightarrow> string" where
  "str_nat n = (if n < 10 then [char_of (48 + n)] else str_nat (n div 10) @ [char_of (48 + n mod 10)])"

declare str_nat.simps [simp del]

definition str_int :: "int \<Rightarrow> string" where
  "str_int i = (if i < 0 then ''-'' @ str_nat (nat (- i)) else str_nat (nat i))"

section \<open>Facts\<close>

lemma char_code_less [simp]: "char_code c < 256"
  by (simp add: char_code_def)

lemma char_code_char_of [simp]: "n < 256 \<Longrightarrow> char_code (char_of n) = n"
  by (simp add: char_code_def)

lemma char_of_char_code [simp]: "char_of (char_code c) = c"
  by (simp add: char_code_def)

lemma less_128_iff: "(b :: byte) < 128 \<longleftrightarrow> unat b < 128"
  by (simp add: word_less_nat_alt)

lemma decode_ascii_Inr_iff:
  "decode_ascii bs = Inr s \<longleftrightarrow> list_all (\<lambda>b. unat b < 128) bs \<and> s = map (\<lambda>b. char_of (unat b)) bs"
  by (auto simp: decode_ascii_def less_128_iff)

lemma encode_ascii_Inr_iff:
  "encode_ascii s = Inr bs \<longleftrightarrow> is_ascii s \<and> bs = map (\<lambda>c. of_nat (char_code c)) s"
  by (auto simp: encode_ascii_def is_ascii_def)

lemma decode_encode [text_simps]: "encode_ascii s = Inr bs \<Longrightarrow> decode_ascii bs = Inr s"
  by (auto simp: encode_ascii_Inr_iff decode_ascii_Inr_iff is_ascii_def list_all_iff
      intro: map_idI [symmetric])

lemma encode_decode [text_simps]: "decode_ascii bs = Inr s \<Longrightarrow> encode_ascii s = Inr bs"
  by (auto simp: encode_ascii_Inr_iff decode_ascii_Inr_iff is_ascii_def list_all_iff comp_def
      intro: map_idI [symmetric])

lemma is_ascii_append [simp]: "is_ascii (s @ t) \<longleftrightarrow> is_ascii s \<and> is_ascii t"
  by (simp add: is_ascii_def)

lemma is_ascii_Nil [simp]: "is_ascii []"
  by (simp add: is_ascii_def)

lemma is_ascii_Cons [simp]: "is_ascii (c # s) \<longleftrightarrow> char_code c < 128 \<and> is_ascii s"
  by (simp add: is_ascii_def)

lemma split_on_not_Nil [simp]: "split_on sep s \<noteq> []"
  by (induction s) (auto split: list.splits)

text \<open>Joining the parts with the separator gives the string back.\<close>

fun join_with :: "char \<Rightarrow> string list \<Rightarrow> string" where
  "join_with sep [] = []"
| "join_with sep [w] = w"
| "join_with sep (w # ws) = w @ sep # join_with sep ws"

lemma join_split_on: "join_with sep (split_on sep s) = s"
proof (induction s)
  case (Cons c s)
  obtain w ws where ws: "split_on sep s = w # ws" by (cases "split_on sep s") auto
  with Cons show ?case by (cases ws) auto
qed simp

lemma split_on_free: "sep \<notin> set w \<Longrightarrow> split_on sep w = [w]"
  by (induction w) auto

lemma split_on_append: "sep \<notin> set w \<Longrightarrow> split_on sep (w @ sep # s) = w # split_on sep s"
  by (induction w) auto

lemma split_join_with:
  "ws \<noteq> [] \<Longrightarrow> \<forall>w \<in> set ws. sep \<notin> set w \<Longrightarrow> split_on sep (join_with sep ws) = ws"
  by (induction sep ws rule: join_with.induct) (auto simp: split_on_free split_on_append)

lemma is_digits_str_nat: "is_digits (str_nat n)"
  by (induction n rule: str_nat.induct)
    (subst str_nat.simps, auto simp: is_digits_def is_digit_char_def)

lemma int_of_digits_snoc: "int_of_digits (s @ [c]) = 10 * int_of_digits s + digit_val c"
  by (simp add: int_of_digits_def)

lemma int_of_digits_str_nat [text_simps]: "int_of_digits (str_nat n) = n"
proof (induction n rule: str_nat.induct)
  case (1 n)
  show ?case
  proof (cases "n < 10")
    case True
    then show ?thesis
      by (subst str_nat.simps) (simp add: int_of_digits_def digit_val_def)
  next
    case False
    with 1 show ?thesis
      by (subst str_nat.simps) (simp add: int_of_digits_snoc digit_val_def)
  qed
qed

lemma str_nat_inj: "str_nat m = str_nat n \<Longrightarrow> m = n"
  by (metis int_of_digits_str_nat)

lemma is_ascii_str_nat [simp]: "is_ascii (str_nat n)"
  using is_digits_str_nat [of n]
  by (auto simp: is_digits_def is_ascii_def is_digit_char_def list_all_iff)

lemma is_ascii_str_int [simp]: "is_ascii (str_int i)"
  by (simp add: str_int_def char_code_def)

end
