(* ===== verification/Py_Time.thy ===== *)
theory Py_Time
  imports Prelude Py_Float Py_Text
begin

text \<open>
  Python's \<^verbatim>\<open>datetime\<close>, as the number of microseconds since 0001-01-01 00:00:00 (its
  proleptic Gregorian calendar). The constructor raises ValueError for fields out of range,
  arithmetic raises OverflowError outside the years 1 to 9999, and \<^verbatim>\<open>fromtimestamp\<close> goes
  through a float as the library does. Every datetime of the gateway is UTC.
\<close>

type_synonym datetime = int

abbreviation usec :: int where
  "usec \<equiv> 1000000"

definition is_leap :: "nat \<Rightarrow> bool" where
  "is_leap y \<longleftrightarrow> y mod 4 = 0 \<and> (y mod 100 \<noteq> 0 \<or> y mod 400 = 0)"

definition days_in_month :: "nat \<Rightarrow> nat \<Rightarrow> nat" where
  "days_in_month y m = (if m = 2 \<and> is_leap y then 29
     else if m = 2 then 28 else if m \<in> {4, 6, 9, 11} then 30 else 31)"

definition days_before_year :: "nat \<Rightarrow> nat" where
  "days_before_year y = (let p = y - 1 in p * 365 + p div 4 - p div 100 + p div 400)"

fun days_before_month :: "nat \<Rightarrow> nat \<Rightarrow> nat" where
  "days_before_month y 0 = 0"
| "days_before_month y (Suc m) = (if m = 0 then 0 else days_before_month y m + days_in_month y m)"

text \<open>Days since 0001-01-01, which is day 0.\<close>

definition day_number :: "nat \<Rightarrow> nat \<Rightarrow> nat \<Rightarrow> nat" where
  "day_number y m d = days_before_year y + days_before_month y m + (d - 1)"

definition day_count_max :: nat where
  "day_count_max = 3652059"

definition valid_date :: "nat \<Rightarrow> nat \<Rightarrow> nat \<Rightarrow> bool" where
  "valid_date y m d \<longleftrightarrow> 1 \<le> y \<and> y \<le> 9999 \<and> 1 \<le> m \<and> m \<le> 12 \<and> 1 \<le> d \<and> d \<le> days_in_month y m"

definition valid_time :: "nat \<Rightarrow> nat \<Rightarrow> nat \<Rightarrow> bool" where
  "valid_time h mi s \<longleftrightarrow> h \<le> 23 \<and> mi \<le> 59 \<and> s \<le> 59"

definition seconds_of :: "nat \<Rightarrow> nat \<Rightarrow> nat \<Rightarrow> nat \<Rightarrow> nat \<Rightarrow> nat \<Rightarrow> nat" where
  "seconds_of y mo d h mi s = ((day_number y mo d * 24 + h) * 60 + mi) * 60 + s"

definition mk_datetime :: "nat \<Rightarrow> nat \<Rightarrow> nat \<Rightarrow> nat \<Rightarrow> nat \<Rightarrow> nat \<Rightarrow> datetime result" where
  "mk_datetime y mo d h mi s =
     (if valid_date y mo d \<and> valid_time h mi s then Inr (int (seconds_of y mo d h mi s) * usec)
      else Inl ValueError)"

definition dt_in_range :: "datetime \<Rightarrow> bool" where
  "dt_in_range t \<longleftrightarrow> 0 \<le> t \<and> t < int day_count_max * 86400 * usec"

text \<open>\<^verbatim>\<open>t.hour\<close>, \<^verbatim>\<open>t.minute\<close>, \<^verbatim>\<open>t.second\<close>.\<close>

definition dt_hour :: "datetime \<Rightarrow> int" where
  "dt_hour t = t div (3600 * usec) mod 24"

definition dt_minute :: "datetime \<Rightarrow> int" where
  "dt_minute t = t div (60 * usec) mod 60"

definition dt_second :: "datetime \<Rightarrow> int" where
  "dt_second t = t div usec mod 60"

text \<open>\<^verbatim>\<open>t.replace(second=s)\<close>.\<close>

definition replace_second :: "datetime \<Rightarrow> int \<Rightarrow> datetime" where
  "replace_second t s = t div (60 * usec) * (60 * usec) + s * usec + t mod usec"

text \<open>\<^verbatim>\<open>t - timedelta(minutes=m)\<close>.\<close>

definition sub_minutes :: "datetime \<Rightarrow> int \<Rightarrow> datetime result" where
  "sub_minutes t m = (let r = t - m * (60 * usec)
                      in if dt_in_range r then Inr r else Inl OverflowError)"

text \<open>Microseconds from 0001-01-01 to the Unix epoch.\<close>

definition epoch :: datetime where
  "epoch = int (day_number 1970 1 1) * 86400 * usec"

text \<open>
  \<^verbatim>\<open>datetime.fromtimestamp(x, tz=utc)\<close> for a non-negative finite float: whole seconds and the
  fraction are separated exactly, the fraction times \<^verbatim>\<open>1e6\<close> is a rounded float product, and it
  is rounded to microseconds with ties to even.
\<close>

definition from_timestamp :: "pyfloat \<Rightarrow> datetime result" where
  "from_timestamp v =
     (case v of
        Fin x \<Rightarrow> (let secs = \<lfloor>x\<rfloor>;
                      us = rhe (rnd64 ((x - of_int secs) * 1000000));
                      t = epoch + secs * usec + us
                  in if dt_in_range t then Inr t else Inl ValueError)
      | NaN \<Rightarrow> Inl ValueError
      | _ \<Rightarrow> Inl OverflowError)"

section \<open>Text\<close>

text \<open>
  \<^verbatim>\<open>str(t)\<close> of a naive datetime (separator a space, no offset) and \<^verbatim>\<open>t.isoformat()\<close> of an
  aware UTC one (separator \<^verbatim>\<open>T\<close>): the calendar fields found again from the day number, the
  microseconds only when there are any.
\<close>

definition pad :: "nat \<Rightarrow> nat \<Rightarrow> string" where
  "pad k n = (let s = str_nat n in replicate (k - length s) (CHR ''0'') @ s)"

definition year_of_day :: "nat \<Rightarrow> nat" where
  "year_of_day n = (let y0 = n div 366 + 1 in
     y0 + length (takeWhile (\<lambda>y. days_before_year (y + 1) \<le> n) [y0 ..< n div 365 + 2]))"

definition month_of_day :: "nat \<Rightarrow> nat \<Rightarrow> nat" where
  "month_of_day y r = 1 + length (takeWhile (\<lambda>m. days_before_month y (m + 1) \<le> r) [1 ..< 12])"

definition date_of_day :: "nat \<Rightarrow> nat \<times> nat \<times> nat" where
  "date_of_day n = (let y = year_of_day n; r = n - days_before_year y; m = month_of_day y r
                    in (y, m, r - days_before_month y m + 1))"

definition dt_text :: "char \<Rightarrow> string \<Rightarrow> datetime \<Rightarrow> string" where
  "dt_text sep offset t =
     (let (y, m, d) = date_of_day (nat (t div (86400 * usec)));
          us = nat (t mod usec)
      in pad 4 y @ ''-'' @ pad 2 m @ ''-'' @ pad 2 d @ [sep] @
         pad 2 (nat (dt_hour t)) @ '':'' @ pad 2 (nat (dt_minute t)) @ '':'' @
         pad 2 (nat (dt_second t)) @ (if us = 0 then [] else ''.'' @ pad 6 us) @ offset)"

definition dt_str :: "datetime \<Rightarrow> string" where
  "dt_str t = dt_text (CHR '' '') [] t"

definition isoformat :: "datetime \<Rightarrow> string" where
  "isoformat t = dt_text (CHR ''T'') ''+00:00'' t"

section \<open>Facts\<close>

lemma epoch_value [simp]: "epoch = 62135596800000000"
  by (simp add: epoch_def day_number_def days_before_year_def)

lemma valid_time_seconds: "valid_time h mi s \<Longrightarrow> (h * 60 + mi) * 60 + s < 86400"
  by (auto simp: valid_time_def)

lemma mk_datetime_Inr_iff [result_simps]:
  "mk_datetime y mo d h mi s = Inr t \<longleftrightarrow>
   valid_date y mo d \<and> valid_time h mi s \<and> t = int (seconds_of y mo d h mi s) * usec"
  by (auto simp: mk_datetime_def)

lemma seconds_fields:
  assumes "valid_time h mi s"
  shows "seconds_of y mo d h mi s div 60 mod 60 = mi"
    and "seconds_of y mo d h mi s div 3600 mod 24 = h"
    and "seconds_of y mo d h mi s mod 60 = s"
    and "seconds_of y mo d h mi s div 86400 = day_number y mo d"
proof -
  let ?D = "day_number y mo d"
  have v: "h < 24" "mi < 60" "s < 60" using assms by (auto simp: valid_time_def)
  have 1: "seconds_of y mo d h mi s div 60 = (?D * 24 + h) * 60 + mi"
    using v by (simp add: seconds_of_def)
  have 2: "((?D * 24 + h) * 60 + mi) div 60 = ?D * 24 + h" using v by simp
  have 3: "(?D * 24 + h) div 24 = ?D" "(?D * 24 + h) mod 24 = h" using v by simp_all
  show "seconds_of y mo d h mi s div 60 mod 60 = mi"
    using v by (simp only: 1 mod_mult_self3 mod_less)
  show "seconds_of y mo d h mi s mod 60 = s"
    using v by (simp only: seconds_of_def mod_mult_self3 mod_less)
  have "seconds_of y mo d h mi s div (60 * 60) = ?D * 24 + h" by (simp only: div_mult2_eq 1 2)
  then have 4: "seconds_of y mo d h mi s div 3600 = ?D * 24 + h" by simp
  show "seconds_of y mo d h mi s div 3600 mod 24 = h" by (simp only: 4 3)
  have "seconds_of y mo d h mi s div (3600 * 24) = ?D" by (simp only: div_mult2_eq 4 3)
  then show "seconds_of y mo d h mi s div 86400 = ?D" by simp
qed

lemma div_usec: "t = int n * usec \<Longrightarrow> t div (k * usec) = int n div k"
  by (simp add: div_mult_mult2)

lemma dt_fields:
  assumes "mk_datetime y mo d h mi s = Inr t"
  shows "dt_hour t = int h" "dt_minute t = int mi" "dt_second t = int s"
proof -
  let ?n = "seconds_of y mo d h mi s"
  from assms have t: "t = int ?n * usec" and v: "valid_time h mi s" by (simp_all add: result_simps)
  have "int ?n div 3600 mod 24 = int h" "int ?n div 60 mod 60 = int mi" "int ?n mod 60 = int s"
    using seconds_fields [OF v] by (metis of_nat_numeral zdiv_int zmod_int)+
  then show "dt_hour t = int h" "dt_minute t = int mi" "dt_second t = int s"
    by (simp_all add: dt_hour_def dt_minute_def dt_second_def t)
qed

text \<open>The clock fields from the minute count.\<close>

lemma dt_minutes: "t div (60 * usec) = t div usec div 60"
  using zdiv_zmult2_eq [of 60 t usec] by simp

lemma dt_clock: "dt_hour t * 60 + dt_minute t = t div (60 * usec) mod 1440"
proof -
  let ?M = "t div (60 * usec)"
  have "t div (3600 * usec) = ?M div 60"
    using zdiv_zmult2_eq [of 60 t "60 * usec"] by simp
  moreover have "?M mod (60 * 24) = 60 * (?M div 60 mod 24) + ?M mod 60"
    by (rule zmod_zmult2_eq) simp
  ultimately show ?thesis by (simp add: dt_hour_def dt_minute_def)
qed

lemma dt_hour_minutes: "dt_hour t = t div (60 * usec) div 60 mod 24"
  using zdiv_zmult2_eq [of 60 t "60 * usec"] by (simp add: dt_hour_def)

lemma dt_decompose: "t mod usec = 0 \<Longrightarrow> t = (t div (60 * usec) * 60 + dt_second t) * usec"
  using div_mult_mod_eq [of t usec] div_mult_mod_eq [of "t div usec" 60]
  by (simp only: dt_minutes dt_second_def add_0_right)

lemma dt_compose:
  assumes "t = (T * 60 + s) * usec" "0 \<le> s" "s < 60"
  shows "t div (60 * usec) = T" "dt_second t = s" "t mod usec = 0"
proof -
  have n: "t div usec = T * 60 + s" using assms(1) by simp
  have "(T * 60 + s) div 60 = T" "(T * 60 + s) mod 60 = s" using assms(2,3) by simp_all
  then show "t div (60 * usec) = T" "dt_second t = s"
    by (simp_all only: dt_minutes dt_second_def n)
  show "t mod usec = 0" using assms(1) by simp
qed

end
