(* ===== verification/Py_Number.thy ===== *)
theory Py_Number
  imports Prelude Py_Text Py_Float
begin

text \<open>
  \<^verbatim>\<open>int(s)\<close>, \<^verbatim>\<open>int(s, 16)\<close> and \<^verbatim>\<open>float(s)\<close> of a Python string, with everything those
  constructors accept: surrounding whitespace, a sign, underscores between digits, the \<^verbatim>\<open>0x\<close>
  prefix of base 16, exponents, \<^verbatim>\<open>inf\<close> and \<^verbatim>\<open>nan\<close>. Anything else is ValueError. A decimal
  literal is rounded once, from its exact value.
\<close>

section \<open>Digits\<close>

text \<open>The value of a digit in bases up to 16.\<close>

definition digit_of :: "char \<Rightarrow> nat option" where
  "digit_of c = (let n = char_code c in
     if 48 \<le> n \<and> n \<le> 57 then Some (n - 48)
     else if 97 \<le> n \<and> n \<le> 102 then Some (n - 87)
     else if 65 \<le> n \<and> n \<le> 70 then Some (n - 55) else None)"

text \<open>Digits with single underscores between them; \<open>prev\<close> says the last character was a digit.\<close>

fun digits_value :: "nat \<Rightarrow> nat \<Rightarrow> bool \<Rightarrow> string \<Rightarrow> nat option" where
  "digits_value base acc prev [] = (if prev then Some acc else None)"
| "digits_value base acc prev (c # cs) =
     (if c = CHR ''_'' then (if prev then digits_value base acc False cs else None)
      else (case digit_of c of
              Some d \<Rightarrow> (if d < base then digits_value base (base * acc + d) True cs else None)
            | None \<Rightarrow> None))"

text \<open>Decimal conversion refuses more than 4300 digits.\<close>

definition int_max_digits :: nat where
  "int_max_digits = 4300"

definition too_many_digits :: "nat \<Rightarrow> string \<Rightarrow> bool" where
  "too_many_digits base s \<longleftrightarrow> base = 10 \<and> int_max_digits < length (filter is_digit_char s)"

text \<open>The sign, and the rest.\<close>

definition split_sign :: "string \<Rightarrow> bool \<times> string" where
  "split_sign s = (case s of
     c # cs \<Rightarrow> (if c = CHR ''-'' then (True, cs) else if c = CHR ''+'' then (False, cs) else (False, s))
   | [] \<Rightarrow> (False, []))"

definition drop_hex_prefix :: "string \<Rightarrow> string" where
  "drop_hex_prefix s =
     (if lower (take 2 s) = ''0x''
      then (case drop 2 s of c # cs \<Rightarrow> (if c = CHR ''_'' then cs else c # cs) | [] \<Rightarrow> [])
      else s)"

section \<open>int\<close>

definition py_int :: "nat \<Rightarrow> string \<Rightarrow> int result" where
  "py_int base s =
     (let (neg, t) = split_sign (strip s);
          u = (if base = 16 then drop_hex_prefix t else t)
      in case digits_value base 0 False u of
           None \<Rightarrow> Inl ValueError
         | Some n \<Rightarrow> if too_many_digits base u then Inl ValueError
                     else Inr (if neg then - int n else int n))"

section \<open>float\<close>

text \<open>Underscores only between two digits; they are dropped.\<close>

fun drop_underscores :: "bool \<Rightarrow> string \<Rightarrow> string option" where
  "drop_underscores prev [] = Some []"
| "drop_underscores prev (c # cs) =
     (if c = CHR ''_''
      then (if prev \<and> (case cs of d # _ \<Rightarrow> is_digit_char d | [] \<Rightarrow> False)
            then drop_underscores False cs else None)
      else map_option (\<lambda>r. c # r) (drop_underscores (is_digit_char c) cs))"

definition span_digits :: "string \<Rightarrow> string \<times> string" where
  "span_digits s = (takeWhile is_digit_char s, dropWhile is_digit_char s)"

text \<open>\<^verbatim>\<open>[e[sign]digits]\<close> at the end of a literal; None when there is anything else.\<close>

definition exponent_of :: "string \<Rightarrow> int option" where
  "exponent_of s =
     (case s of
        [] \<Rightarrow> Some 0
      | c # cs \<Rightarrow>
          (if c = CHR ''e'' \<or> c = CHR ''E''
           then (let (neg, t) = split_sign cs
                 in if is_digits t then Some (if neg then - int (int_of_digits t) else int (int_of_digits t))
                    else None)
           else None))"

text \<open>The exact value of an unsigned decimal literal.\<close>

definition decimal_value :: "string \<Rightarrow> rat option" where
  "decimal_value s =
     (let (whole, r) = span_digits s;
          (frac, rest) = (case r of c # cs \<Rightarrow> (if c = CHR ''.'' then span_digits cs else ([], r))
                                | [] \<Rightarrow> ([], []))
      in if whole = [] \<and> frac = [] then None
         else map_option
                (\<lambda>e. of_nat (int_of_digits (whole @ frac)) * 10 powi (e - int (length frac)))
                (exponent_of rest))"

definition py_float :: "string \<Rightarrow> pyfloat result" where
  "py_float s =
     (case drop_underscores False (strip s) of
        None \<Rightarrow> Inl ValueError
      | Some t \<Rightarrow>
          (let (neg, u) = split_sign t;
               sign = (\<lambda>v. if neg then f_neg v else v)
           in if lower u = ''inf'' \<or> lower u = ''infinity'' then Inr (sign PInf)
              else if lower u = ''nan'' then Inr NaN
              else (case decimal_value u of
                      None \<Rightarrow> Inl ValueError
                    | Some q \<Rightarrow> Inr (sign (to_float q)))))"

section \<open>Facts\<close>

lemma py_int_value_error: "py_int b s = Inl e \<Longrightarrow> e = ValueError"
  by (auto simp: py_int_def Let_def split: option.splits prod.splits if_splits)

lemma py_float_value_error: "py_float s = Inl e \<Longrightarrow> e = ValueError"
  by (auto simp: py_float_def Let_def split: option.splits prod.splits if_splits)

lemma is_digit_digit_of: "is_digit_char c \<Longrightarrow> digit_of c = Some (digit_val c)"
  by (auto simp: is_digit_char_def digit_of_def digit_val_def)

lemma is_digit_less: "is_digit_char c \<Longrightarrow> digit_val c < 10"
  by (auto simp: is_digit_char_def digit_val_def)

lemma is_digit_not_underscore: "is_digit_char c \<Longrightarrow> c \<noteq> CHR ''_''"
  by (auto simp: is_digit_char_def char_code_def)

lemma digits_value_digits:
  "list_all is_digit_char s \<Longrightarrow>
   digits_value 10 acc prev s = (if s = [] \<and> \<not> prev then None
     else Some (foldl (\<lambda>n c. 10 * n + digit_val c) acc s))"
  by (induction s arbitrary: acc prev)
    (simp_all add: is_digit_digit_of is_digit_less is_digit_not_underscore)

lemma digit_not_space: "is_digit_char c \<Longrightarrow> \<not> is_space_char c"
  by (auto simp: is_digit_char_def is_space_char_def Let_def)

lemma strip_digits: "list_all is_digit_char s \<Longrightarrow> strip s = s"
proof -
  assume d: "list_all is_digit_char s"
  have "dropWhile is_space_char t = t" if "list_all is_digit_char t" for t
    using that by (cases t) (auto simp: digit_not_space)
  moreover from d have "list_all is_digit_char (rev s)" by (simp add: list_all_iff)
  ultimately show ?thesis using d by (simp add: strip_def strip_by_def)
qed

lemma split_sign_digits: "list_all is_digit_char s \<Longrightarrow> split_sign s = (False, s)"
  by (cases s) (auto simp: split_sign_def is_digit_char_def char_code_def)

text \<open>\<^verbatim>\<open>int(str(n)) = n\<close>.\<close>

lemma py_int_digits:
  assumes "is_digits s" and "length s \<le> int_max_digits"
  shows "py_int 10 s = Inr (int (int_of_digits s))"
proof -
  have "\<not> too_many_digits 10 s"
    using le_trans [OF length_filter_le assms(2)] by (simp add: too_many_digits_def linorder_not_less)
  with assms(1) show ?thesis
    by (auto simp: py_int_def is_digits_def strip_digits split_sign_digits digits_value_digits
        int_of_digits_def Let_def)
qed

end
