(* ===== verification/Effects.thy ===== *)
theory Effects
  imports Prelude
begin

text \<open>
  Effectful code as functions from a state to a result and a state: an exception keeps the state
  changes made before it, as in Python. \<open>tryM\<close> is \<^verbatim>\<open>try/except\<close>, \<open>finallyM\<close> is
  \<^verbatim>\<open>try/finally\<close>, \<open>forM\<close> a loop over a list. The triple \<open>valid P m Q E\<close> (from \<open>P\<close>, a
  normal end satisfies \<open>Q\<close> and an exception \<open>E\<close>) comes with one rule per construct, collected in
  \<open>keeps_intros\<close> for invariants: \<open>keeps I m\<close>.
\<close>

named_theorems keeps_intros \<open>an invariant is kept by a composed computation\<close>
named_theorems io_defs \<open>definitions of the combinators\<close>

type_synonym ('s, 'a) io = "'s \<Rightarrow> 'a result \<times> 's"

definition ret :: "'a \<Rightarrow> ('s, 'a) io" where [io_defs]:
  "ret x s = (Inr x, s)"

definition raise :: "exn \<Rightarrow> ('s, 'a) io" where [io_defs]:
  "raise e s = (Inl e, s)"

definition liftR :: "'a result \<Rightarrow> ('s, 'a) io" where [io_defs]:
  "liftR r s = (r, s)"

definition bindM :: "('s, 'a) io \<Rightarrow> ('a \<Rightarrow> ('s, 'b) io) \<Rightarrow> ('s, 'b) io" where [io_defs]:
  "bindM m f s = (case m s of (Inl e, s') \<Rightarrow> (Inl e, s') | (Inr x, s') \<Rightarrow> f x s')"

definition thenM :: "('s, 'a) io \<Rightarrow> ('s, 'b) io \<Rightarrow> ('s, 'b) io" where [io_defs]:
  "thenM m k = bindM m (\<lambda>_. k)"

definition tryM :: "('s, 'a) io \<Rightarrow> (exn \<Rightarrow> ('s, 'a) io) \<Rightarrow> ('s, 'a) io" where [io_defs]:
  "tryM m h s = (case m s of (Inl e, s') \<Rightarrow> h e s' | (Inr x, s') \<Rightarrow> (Inr x, s'))"

text \<open>An exception of the clean-up replaces the outcome of the body.\<close>

definition finallyM :: "('s, 'a) io \<Rightarrow> ('s, unit) io \<Rightarrow> ('s, 'a) io" where [io_defs]:
  "finallyM m c s = (case m s of (r, s') \<Rightarrow>
     (case c s' of (Inl e, s'') \<Rightarrow> (Inl e, s'') | (Inr _, s'') \<Rightarrow> (r, s'')))"

definition getsM :: "('s \<Rightarrow> 'a) \<Rightarrow> ('s, 'a) io" where [io_defs]:
  "getsM f s = (Inr (f s), s)"

definition modifyM :: "('s \<Rightarrow> 's) \<Rightarrow> ('s, unit) io" where [io_defs]:
  "modifyM f s = (Inr (), f s)"

definition whenM :: "bool \<Rightarrow> ('s, unit) io \<Rightarrow> ('s, unit) io" where [io_defs]:
  "whenM b m = (if b then m else ret ())"

fun forM :: "'a list \<Rightarrow> ('a \<Rightarrow> ('s, unit) io) \<Rightarrow> ('s, unit) io" where
  "forM [] f = ret ()"
| "forM (x # xs) f = thenM (f x) (forM xs f)"

section \<open>Triples\<close>

definition valid :: "('s \<Rightarrow> bool) \<Rightarrow> ('s, 'a) io \<Rightarrow> ('a \<Rightarrow> 's \<Rightarrow> bool) \<Rightarrow> (exn \<Rightarrow> 's \<Rightarrow> bool) \<Rightarrow> bool" where
  "valid P m Q E \<longleftrightarrow> (\<forall>s. P s \<longrightarrow> (case m s of (Inl e, s') \<Rightarrow> E e s' | (Inr x, s') \<Rightarrow> Q x s'))"

definition keeps :: "('s \<Rightarrow> bool) \<Rightarrow> ('s, 'a) io \<Rightarrow> bool" where
  "keeps I m \<longleftrightarrow> (\<forall>s. I s \<longrightarrow> I (snd (m s)))"

text \<open>A computation that never raises.\<close>

definition never_raises :: "('s, 'a) io \<Rightarrow> bool" where
  "never_raises m \<longleftrightarrow> (\<forall>s. \<exists>x s'. m s = (Inr x, s'))"

lemma keepsD: "keeps I m \<Longrightarrow> I s \<Longrightarrow> I (snd (m s))"
  by (simp add: keeps_def)

lemma keepsD2: "keeps I m \<Longrightarrow> m s = (r, s') \<Longrightarrow> I s \<Longrightarrow> I s'"
  by (metis keepsD snd_conv)

lemma keeps_ret [keeps_intros]: "keeps I (ret x)"
  by (simp add: keeps_def ret_def)

lemma keeps_raise [keeps_intros]: "keeps I (raise e)"
  by (simp add: keeps_def raise_def)

lemma keeps_liftR [keeps_intros]: "keeps I (liftR r)"
  by (simp add: keeps_def liftR_def)

lemma keeps_getsM [keeps_intros]: "keeps I (getsM f)"
  by (simp add: keeps_def getsM_def)

lemma keeps_modifyM: "(\<And>s. I s \<Longrightarrow> I (f s)) \<Longrightarrow> keeps I (modifyM f)"
  by (simp add: keeps_def modifyM_def)

lemma keeps_bindM [keeps_intros]:
  "keeps I m \<Longrightarrow> (\<And>x. keeps I (f x)) \<Longrightarrow> keeps I (bindM m f)"
  unfolding keeps_def bindM_def
  by (auto split: prod.split sum.split)

lemma keeps_liftR_bind:
  "(\<And>x. r = Inr x \<Longrightarrow> keeps I (f x)) \<Longrightarrow> keeps I (bindM (liftR r) f)"
  by (cases r) (auto simp: keeps_def bindM_def liftR_def)

lemma keeps_thenM [keeps_intros]: "keeps I m \<Longrightarrow> keeps I k \<Longrightarrow> keeps I (thenM m k)"
  by (simp add: thenM_def keeps_bindM)

lemma keeps_tryM [keeps_intros]:
  "keeps I m \<Longrightarrow> (\<And>e. keeps I (h e)) \<Longrightarrow> keeps I (tryM m h)"
  unfolding keeps_def tryM_def
  by (auto split: prod.split sum.split)

lemma keeps_finallyM [keeps_intros]: "keeps I m \<Longrightarrow> keeps I c \<Longrightarrow> keeps I (finallyM m c)"
  unfolding keeps_def finallyM_def
  by (auto split: prod.split sum.split)

lemma keeps_whenM [keeps_intros]: "(b \<Longrightarrow> keeps I m) \<Longrightarrow> keeps I (whenM b m)"
  by (simp add: whenM_def keeps_ret)

lemma keeps_if [keeps_intros]:
  "(b \<Longrightarrow> keeps I m) \<Longrightarrow> (\<not> b \<Longrightarrow> keeps I k) \<Longrightarrow> keeps I (if b then m else k)"
  by simp

lemma keeps_case_option [keeps_intros]:
  "keeps I m \<Longrightarrow> (\<And>x. keeps I (f x)) \<Longrightarrow> keeps I (case r of None \<Rightarrow> m | Some x \<Rightarrow> f x)"
  by (cases r) auto

lemma keeps_case_sum [keeps_intros]:
  "(\<And>e. keeps I (g e)) \<Longrightarrow> (\<And>x. keeps I (f x)) \<Longrightarrow> keeps I (case r of Inl e \<Rightarrow> g e | Inr x \<Rightarrow> f x)"
  by (cases r) auto

lemma keeps_case_prod [keeps_intros]:
  "(\<And>x y. keeps I (f x y)) \<Longrightarrow> keeps I (case r of (x, y) \<Rightarrow> f x y)"
  by (cases r) auto

lemma keeps_Let [keeps_intros]: "(\<And>x. keeps I (f x)) \<Longrightarrow> keeps I (let x = v in f x)"
  by simp

lemma keeps_forM [keeps_intros]: "(\<And>x. keeps I (f x)) \<Longrightarrow> keeps I (forM xs f)"
  by (induction xs) (auto intro: keeps_ret keeps_thenM)

section \<open>Evaluation\<close>

lemma ret_run [simp]: "ret x s = (Inr x, s)"
  by (simp add: ret_def)

lemma raise_run [simp]: "raise e s = (Inl e, s)"
  by (simp add: raise_def)

lemma liftR_run [simp]: "liftR r s = (r, s)"
  by (simp add: liftR_def)

lemma getsM_run [simp]: "getsM f s = (Inr (f s), s)"
  by (simp add: getsM_def)

lemma modifyM_run [simp]: "modifyM f s = (Inr (), f s)"
  by (simp add: modifyM_def)

lemma bindM_Inr: "m s = (Inr x, s') \<Longrightarrow> bindM m f s = f x s'"
  by (simp add: bindM_def)

lemma bindM_Inl: "m s = (Inl e, s') \<Longrightarrow> bindM m f s = (Inl e, s')"
  by (simp add: bindM_def)

lemma thenM_Inr: "m s = (Inr x, s') \<Longrightarrow> thenM m k s = k s'"
  by (simp add: thenM_def bindM_def)

lemma whenM_True: "whenM True m = m"
  by (simp add: whenM_def)

lemma bindM_thenM: "bindM (thenM a b) f = thenM a (bindM b f)"
  by (rule ext) (auto simp: thenM_def bindM_def split: prod.split sum.split)

lemma bindM_eq_Inr_iff:
  "bindM m f s = (Inr y, s'') \<longleftrightarrow> (\<exists>x s'. m s = (Inr x, s') \<and> f x s' = (Inr y, s''))"
  by (auto simp: bindM_def split: prod.splits sum.splits)

lemma tryM_eq_Inr_iff:
  "tryM m h s = (Inr y, s'') \<longleftrightarrow>
   m s = (Inr y, s'') \<or> (\<exists>e s'. m s = (Inl e, s') \<and> h e s' = (Inr y, s''))"
  by (auto simp: tryM_def split: prod.splits sum.splits)

lemma never_raises_ret: "never_raises (ret x)"
  by (simp add: never_raises_def)

lemma never_raises_bindM:
  "never_raises m \<Longrightarrow> (\<And>x. never_raises (f x)) \<Longrightarrow> never_raises (bindM m f)"
  unfolding never_raises_def bindM_def by (metis (mono_tags, lifting) old.prod.case sum.case(2))

lemma never_raises_tryM: "(\<And>e. never_raises (h e)) \<Longrightarrow> never_raises (tryM m h)"
  unfolding never_raises_def tryM_def by (auto split: prod.split sum.split)

end
