(* ===== verification/Device_Registry.thy ===== *)
theory Device_Registry
  imports Prelude Framing Py_Time "HOL-Library.AList"
begin

text \<open>
  services/device_registry.py: the in-memory registry that maps an IMEI to its live connection and
  a socket back to its IMEI. Each operation holds the registry lock for its whole body, so it is
  one atomic function here; \<open>reg_step\<close> lets them happen in any order, from any connection. A
  socket is identified by a number, as \<^verbatim>\<open>id(conn)\<close> does; a Python dict keeps insertion order,
  so \<open>by_imei\<close> is an association list updated in place.
\<close>

named_theorems registry_simps \<open>the registry after each operation\<close>

section \<open>State and operations\<close>

type_synonym sock = nat

record entry =
  e_device_id :: string
  e_ip :: string
  e_protocol :: family
  e_socket :: sock
  e_connected_at :: datetime
  e_last_seen :: datetime
  e_last_position_at :: "datetime option"
  e_last_speed :: "pyfloat option"
  e_last_poll_at :: "datetime option"

record registry =
  by_imei :: "(string \<times> entry) list"
  by_socket :: "sock \<rightharpoonup> string"
  last_packet_at :: "datetime option"

definition empty_registry :: registry where
  "empty_registry = \<lparr> by_imei = [], by_socket = Map.empty, last_packet_at = None \<rparr>"

definition get_device :: "registry \<Rightarrow> string \<Rightarrow> entry option" where
  "get_device r imei = map_of (by_imei r) imei"

definition get_imei_by_socket :: "registry \<Rightarrow> sock \<Rightarrow> string option" where
  "get_imei_by_socket r conn = by_socket r conn"

definition new_entry :: "string \<Rightarrow> string \<Rightarrow> sock \<Rightarrow> family \<Rightarrow> datetime \<Rightarrow> datetime \<Rightarrow> entry" where
  "new_entry ip device_id conn protocol now1 now2 =
     \<lparr> e_device_id = device_id, e_ip = ip, e_protocol = protocol, e_socket = conn,
       e_connected_at = now1, e_last_seen = now2,
       e_last_position_at = None, e_last_speed = None, e_last_poll_at = None \<rparr>"

text \<open>Everything \<^verbatim>\<open>register_device\<close> does once the entry is built.\<close>

definition put_entry :: "string \<Rightarrow> entry \<Rightarrow> registry \<Rightarrow> registry" where
  "put_entry imei e r =
     (let popped = (case get_device r imei of
                      Some existing \<Rightarrow> (by_socket r)(e_socket existing := None)
                    | None \<Rightarrow> by_socket r)
      in r \<lparr> by_imei := AList.update imei e (by_imei r),
             by_socket := popped(e_socket e \<mapsto> imei) \<rparr>)"

definition register_device ::
    "string \<Rightarrow> string \<Rightarrow> string \<Rightarrow> sock \<Rightarrow> family \<Rightarrow> datetime \<Rightarrow> datetime \<Rightarrow> registry \<Rightarrow> registry" where
  "register_device imei ip device_id conn protocol now1 now2 r =
     put_entry imei (new_entry ip device_id conn protocol now1 now2) r"

definition unregister_device :: "string \<Rightarrow> registry \<Rightarrow> registry" where
  "unregister_device imei r =
     (case get_device r imei of
        None \<Rightarrow> r
      | Some e \<Rightarrow> r \<lparr> by_imei := AList.delete imei (by_imei r),
                     by_socket := (by_socket r)(e_socket e := None) \<rparr>)"

definition note_position :: "string \<Rightarrow> pyfloat option \<Rightarrow> datetime \<Rightarrow> registry \<Rightarrow> registry" where
  "note_position imei speed now r =
     r \<lparr> by_imei := AList.map_entry imei
           (\<lambda>e. e \<lparr> e_last_position_at := Some now, e_last_speed := speed \<rparr>) (by_imei r) \<rparr>"

definition update_last_seen :: "string \<Rightarrow> datetime \<Rightarrow> registry \<Rightarrow> registry" where
  "update_last_seen imei now r =
     r \<lparr> by_imei := AList.map_entry imei (\<lambda>e. e \<lparr> e_last_seen := now \<rparr>) (by_imei r) \<rparr>"

text \<open>\<^verbatim>\<open>entry["last_poll_at"] = now\<close> of services/gps103_poller.py, on the entry in the registry.\<close>

definition note_poll :: "string \<Rightarrow> datetime \<Rightarrow> registry \<Rightarrow> registry" where
  "note_poll imei now r =
     r \<lparr> by_imei := AList.map_entry imei (\<lambda>e. e \<lparr> e_last_poll_at := Some now \<rparr>) (by_imei r) \<rparr>"

definition mark_packet_received :: "datetime \<Rightarrow> registry \<Rightarrow> registry" where
  "mark_packet_received now r = r \<lparr> last_packet_at := Some now \<rparr>"

definition get_last_packet_at :: "registry \<Rightarrow> datetime option" where
  "get_last_packet_at r = last_packet_at r"

definition get_socket :: "registry \<Rightarrow> string \<Rightarrow> sock option" where
  "get_socket r imei = map_option e_socket (get_device r imei)"

definition is_online :: "registry \<Rightarrow> string \<Rightarrow> bool" where
  "is_online r imei \<longleftrightarrow> imei \<in> fst ` set (by_imei r)"

definition get_all_devices :: "registry \<Rightarrow> (string \<times> entry) list" where
  "get_all_devices r = by_imei r"

section \<open>The contract the handlers rely on\<close>

text \<open>
  A session registry knows, for each socket, the identity it authenticated as, and for each
  identity its live session. Putting a session replaces the identity's previous one and takes the
  old socket's authentication away; its laws are all a handler needs.
\<close>

locale session_registry =
  fixes dev :: "'r \<Rightarrow> 'i \<Rightarrow> 'e option"
    and auth :: "'r \<Rightarrow> sock \<Rightarrow> 'i option"
    and put :: "'i \<Rightarrow> 'e \<Rightarrow> 'r \<Rightarrow> 'r"
    and rem :: "'i \<Rightarrow> 'r \<Rightarrow> 'r"
    and sock_of :: "'e \<Rightarrow> sock"
    and ok :: "'r \<Rightarrow> bool"
  assumes dev_put: "dev (put i e r) j = (if j = i then Some e else dev r j)"
    and dev_rem: "ok r \<Longrightarrow> dev (rem i r) j = (if j = i then None else dev r j)"
    and auth_put_same: "auth (put i e r) (sock_of e) = Some i"
    and auth_put_other: "ok r \<Longrightarrow> s \<noteq> sock_of e \<Longrightarrow> auth (put i e r) s = Some j \<Longrightarrow>
          auth r s = Some j \<and> j \<noteq> i"
    and auth_rem: "ok r \<Longrightarrow> auth (rem i r) s = Some j \<Longrightarrow> auth r s = Some j \<and> j \<noteq> i"
    and auth_session: "ok r \<Longrightarrow> auth r s = Some i \<Longrightarrow> \<exists>e. dev r i = Some e \<and> sock_of e = s"
    and ok_put: "ok r \<Longrightarrow> ok (put i e r)"
    and ok_rem: "ok r \<Longrightarrow> ok (rem i r)"
begin

text \<open>No two sockets are authenticated as the same identity.\<close>

lemma auth_inj:
  assumes "ok r" "auth r s = Some i" "auth r t = Some i"
  shows "s = t"
proof -
  from assms obtain e e' where "dev r i = Some e" "sock_of e = s" "dev r i = Some e'" "sock_of e' = t"
    by (metis auth_session)
  then show ?thesis by simp
qed

text \<open>A new session displaces the previous socket of that identity.\<close>

lemma auth_displaced:
  assumes "ok r" "auth r s = Some i" "s \<noteq> sock_of e"
  shows "auth (put i e r) s \<noteq> Some j"
  using assms auth_put_other by (metis option.inject)

text \<open>Removing an identity leaves its socket unauthenticated.\<close>

lemma auth_removed:
  assumes "ok r" "auth r s = Some i"
  shows "auth (rem i r) s \<noteq> Some j"
  using assms auth_rem by (metis option.inject)

text \<open>Other identities keep their session.\<close>

lemma dev_frame: "j \<noteq> i \<Longrightarrow> dev (put i e r) j = dev r j"
  by (simp add: dev_put)

end

section \<open>The registry meets it\<close>

text \<open>
  Keys are distinct, and a socket's IMEI always has an entry that holds that very socket. (The
  converse does not hold: see \<open>relogin_strands_entry\<close> below.)
\<close>

definition reg_ok :: "registry \<Rightarrow> bool" where
  "reg_ok r \<longleftrightarrow> distinct (map fst (by_imei r)) \<and>
     (\<forall>s i. by_socket r s = Some i \<longrightarrow> (\<exists>e. get_device r i = Some e \<and> e_socket e = s))"

lemma get_device_map_entry:
  "get_device (r \<lparr> by_imei := AList.map_entry i f (by_imei r) \<rparr>) j =
   (if j = i then map_option f (get_device r j) else get_device r j)"
  by (simp add: get_device_def map_of_map_entry split: option.split)

lemma get_device_by_socket [simp]: "get_device (r \<lparr> by_socket := m \<rparr>) i = get_device r i"
  by (simp add: get_device_def)

lemma get_device_put [registry_simps]:
  "get_device (put_entry i e r) j = (if j = i then Some e else get_device r j)"
  by (auto simp: put_entry_def get_device_def Let_def update_conv')

lemma get_device_unregister [registry_simps]:
  "get_device (unregister_device i r) j = (if j = i then None else get_device r j)"
  by (cases "get_device r i")
    (auto simp: unregister_device_def get_device_def delete_conv')

lemma by_socket_put:
  "by_socket (put_entry i e r) s = (if s = e_socket e then Some i
     else case get_device r i of Some x \<Rightarrow> (if s = e_socket x then None else by_socket r s)
          | None \<Rightarrow> by_socket r s)"
  by (auto simp: put_entry_def Let_def split: option.split)

lemma by_socket_unregister:
  "by_socket (unregister_device i r) s =
     (case get_device r i of Some x \<Rightarrow> (if s = e_socket x then None else by_socket r s)
      | None \<Rightarrow> by_socket r s)"
  by (auto simp: unregister_device_def split: option.split)

lemma reg_okD: "reg_ok r \<Longrightarrow> by_socket r s = Some i \<Longrightarrow> \<exists>e. get_device r i = Some e \<and> e_socket e = s"
  by (simp add: reg_ok_def)

lemma reg_ok_put: "reg_ok r \<Longrightarrow> reg_ok (put_entry i e r)"
proof -
  assume ok: "reg_ok r"
  have "distinct (map fst (by_imei (put_entry i e r)))"
    using ok by (simp add: reg_ok_def put_entry_def Let_def distinct_update)
  moreover have "\<exists>x. get_device (put_entry i e r) j = Some x \<and> e_socket x = s"
    if s: "by_socket (put_entry i e r) s = Some j" for s j
  proof (cases "s = e_socket e")
    case True
    with s show ?thesis by (simp add: by_socket_put get_device_put)
  next
    case False
    with s have "by_socket r s = Some j" by (auto simp: by_socket_put split: option.splits if_splits)
    with ok obtain x where x: "get_device r j = Some x" "e_socket x = s" by (metis reg_okD)
    with s False have "j \<noteq> i" by (auto simp: by_socket_put)
    with x show ?thesis by (simp add: get_device_put)
  qed
  ultimately show ?thesis by (auto simp: reg_ok_def)
qed

lemma reg_ok_unregister: "reg_ok r \<Longrightarrow> reg_ok (unregister_device i r)"
proof -
  assume ok: "reg_ok r"
  have "distinct (map fst (by_imei (unregister_device i r)))"
    using ok by (cases "get_device r i")
      (simp_all add: reg_ok_def unregister_device_def distinct_delete)
  moreover have "\<exists>x. get_device (unregister_device i r) j = Some x \<and> e_socket x = s"
    if s: "by_socket (unregister_device i r) s = Some j" for s j
  proof -
    from s have "by_socket r s = Some j"
      by (auto simp: by_socket_unregister split: option.splits if_splits)
    with ok obtain x where x: "get_device r j = Some x" "e_socket x = s" by (metis reg_okD)
    with s have "j \<noteq> i" by (auto simp: by_socket_unregister)
    with x show ?thesis by (simp add: get_device_unregister)
  qed
  ultimately show ?thesis by (auto simp: reg_ok_def)
qed

lemma reg_ok_map_entry:
  assumes ok: "reg_ok r" and f: "\<And>e. e_socket (f e) = e_socket e"
  shows "reg_ok (r \<lparr> by_imei := AList.map_entry i f (by_imei r) \<rparr>)"
proof -
  have "map fst (AList.map_entry i f al) = map fst al" for al :: "(string \<times> entry) list"
    by (induction al) auto
  then show ?thesis
    using ok f by (fastforce simp: reg_ok_def get_device_map_entry)
qed

lemma reg_ok_empty: "reg_ok empty_registry"
  by (simp add: reg_ok_def empty_registry_def)

interpretation registry: session_registry get_device get_imei_by_socket put_entry unregister_device
  e_socket reg_ok
proof (unfold_locales, goal_cases)
  case (4 r s e i j)
  then obtain x where "by_socket r s = Some j" "get_device r j = Some x" "e_socket x = s"
    using reg_okD [OF 4(1)]
    by (fastforce simp: get_imei_by_socket_def by_socket_put split: option.splits if_splits)
  with 4 show ?case by (auto simp: get_imei_by_socket_def by_socket_put)
next
  case (5 r i s j)
  then obtain x where "by_socket r s = Some j" "get_device r j = Some x" "e_socket x = s"
    using reg_okD [OF 5(1)]
    by (fastforce simp: get_imei_by_socket_def by_socket_unregister split: option.splits if_splits)
  with 5 show ?case by (auto simp: get_imei_by_socket_def by_socket_unregister)
qed (simp_all add: registry_simps get_imei_by_socket_def by_socket_put reg_okD reg_ok_put
    reg_ok_unregister)

section \<open>Any interleaving\<close>

text \<open>
  Connections, the poller and the command API run their operations in an order nobody fixes. A
  step is one operation with any arguments.
\<close>

inductive reg_step :: "registry \<Rightarrow> registry \<Rightarrow> bool" where
  register: "reg_step r (register_device imei ip device_id conn protocol t1 t2 r)"
| unregister: "reg_step r (unregister_device imei r)"
| position: "reg_step r (note_position imei speed t r)"
| seen: "reg_step r (update_last_seen imei t r)"
| poll: "reg_step r (note_poll imei t r)"
| packet: "reg_step r (mark_packet_received t r)"

inductive reg_reachable :: "registry \<Rightarrow> bool" where
  start: "reg_reachable empty_registry"
| step: "reg_reachable r \<Longrightarrow> reg_step r r' \<Longrightarrow> reg_reachable r'"

lemma reg_ok_note_position: "reg_ok r \<Longrightarrow> reg_ok (note_position i v t r)"
  by (simp add: note_position_def reg_ok_map_entry)

lemma reg_ok_update_last_seen: "reg_ok r \<Longrightarrow> reg_ok (update_last_seen i t r)"
  by (simp add: update_last_seen_def reg_ok_map_entry)

lemma reg_ok_note_poll: "reg_ok r \<Longrightarrow> reg_ok (note_poll i t r)"
  by (simp add: note_poll_def reg_ok_map_entry)

lemma get_device_mark_packet [simp]: "get_device (mark_packet_received t r) i = get_device r i"
  by (simp add: mark_packet_received_def get_device_def)

lemma reg_ok_mark_packet: "reg_ok r \<Longrightarrow> reg_ok (mark_packet_received t r)"
  by (simp add: reg_ok_def) (simp add: mark_packet_received_def)

lemma reg_ok_register: "reg_ok r \<Longrightarrow> reg_ok (register_device imei ip d c p t1 t2 r)"
  by (simp add: register_device_def reg_ok_put)

lemmas reg_ok_ops = reg_ok_register reg_ok_unregister reg_ok_note_position reg_ok_update_last_seen
  reg_ok_note_poll reg_ok_mark_packet

lemma reg_step_ok: "reg_step r r' \<Longrightarrow> reg_ok r \<Longrightarrow> reg_ok r'"
  by (induction rule: reg_step.induct) (auto intro: reg_ok_ops)

lemma reachable_reg_ok: "reg_reachable r \<Longrightarrow> reg_ok r"
  by (induction rule: reg_reachable.induct) (auto intro: reg_ok_empty reg_step_ok)

section \<open>Properties\<close>

text \<open>
  C19. Whatever the order in which connections, the poller and the command API touch the registry, an
  IMEI has one entry, the socket of an authenticated connection is the one its IMEI's entry holds,
  and no two sockets are authenticated as the same IMEI.
\<close>

theorem registry_reachable_ok:
  assumes "reg_reachable r"
  shows "distinct (map fst (by_imei r)) \<and>
    (\<forall>s i. get_imei_by_socket r s = Some i \<longrightarrow> get_socket r i = Some s) \<and>
    (\<forall>s t i. get_imei_by_socket r s = Some i \<and> get_imei_by_socket r t = Some i \<longrightarrow> s = t)"
proof -
  have ok: "reg_ok r" using assms by (rule reachable_reg_ok)
  then have "get_socket r i = Some s" if "get_imei_by_socket r s = Some i" for s i
    using registry.auth_session [OF ok that] by (auto simp: get_socket_def)
  with ok show ?thesis using registry.auth_inj [OF ok] by (auto simp: reg_ok_def)
qed

definition sample_registry :: registry where
  "sample_registry = register_device ''356'' ''10.0.0.2'' ''dev'' 7 GT06 0 0 empty_registry"

theorem registry_reachable_ok_witness:
  "distinct (map fst (by_imei sample_registry)) \<and> get_imei_by_socket sample_registry 7 = Some ''356'' \<and>
   get_socket sample_registry ''356'' = Some 7"
proof -
  have "reg_reachable sample_registry"
    unfolding sample_registry_def by (rule reg_reachable.step [OF reg_reachable.start reg_step.register])
  moreover have "get_imei_by_socket sample_registry 7 = Some ''356''"
    by (simp add: sample_registry_def register_device_def new_entry_def get_imei_by_socket_def by_socket_put)
  ultimately show ?thesis using registry_reachable_ok [of sample_registry] by blast
qed

text \<open>
  A device that reconnects takes its identity along: the new socket is authenticated, the old one
  no longer is, the entry holds the new socket, and every other device keeps its entry.
\<close>

lemma reconnect_takes_over:
  assumes "reg_ok r" and "get_imei_by_socket r s = Some i" and "t \<noteq> s"
  shows "let r' = register_device i ip dev t p t1 t2 r
    in get_imei_by_socket r' t = Some i \<and> get_imei_by_socket r' s = None \<and> get_socket r' i = Some t \<and>
       (\<forall>j. j \<noteq> i \<longrightarrow> get_device r' j = get_device r j)"
proof -
  let ?e = "new_entry ip dev t p t1 t2"
  have "get_imei_by_socket (put_entry i ?e r) s \<noteq> Some j" for j
    by (rule registry.auth_displaced [OF assms(1,2)]) (use assms(3) in \<open>simp add: new_entry_def\<close>)
  then have "get_imei_by_socket (put_entry i ?e r) s = None" by (cases "get_imei_by_socket (put_entry i ?e r) s") auto
  then show ?thesis
    using registry.auth_put_same [of i ?e r]
    by (simp add: Let_def register_device_def get_socket_def get_device_put new_entry_def)
qed

text \<open>
  C40. A second login on one socket under another IMEI strands the first entry: once the connection is
  cleaned up under the second IMEI, the first is still listed as online with that socket, although
  the socket is authenticated as nobody.
\<close>

theorem relogin_strands_entry:
  assumes "i \<noteq> j"
  shows "let r' = unregister_device j (register_device j ip2 dev2 s p2 t3 t4
                    (register_device i ip1 dev1 s p1 t1 t2 r))
    in is_online r' i \<and> get_socket r' i = Some s \<and> get_imei_by_socket r' s = None"
proof -
  let ?a = "register_device i ip1 dev1 s p1 t1 t2 r"
  let ?b = "register_device j ip2 dev2 s p2 t3 t4 ?a"
  let ?c = "unregister_device j ?b"
  have d: "get_device ?c i = Some (new_entry ip1 dev1 s p1 t1 t2)"
    using assms by (simp add: get_device_unregister register_device_def get_device_put)
  then have "i \<in> fst ` set (by_imei ?c)" by (auto simp: get_device_def dest: map_of_SomeD intro: rev_image_eqI)
  moreover have "get_imei_by_socket ?c s = None"
    by (simp add: get_imei_by_socket_def by_socket_unregister register_device_def get_device_put new_entry_def)
  ultimately show ?thesis
    using d by (simp add: Let_def is_online_def get_socket_def new_entry_def)
qed

theorem relogin_strands_entry_witness:
  "let r' = unregister_device ''B'' (register_device ''B'' ''ip'' ''d2'' 7 GT06 0 0
              (register_device ''A'' ''ip'' ''d1'' 7 GT06 0 0 empty_registry))
   in is_online r' ''A'' \<and> get_socket r' ''A'' = Some 7 \<and> get_imei_by_socket r' 7 = None"
  by (rule relogin_strands_entry) simp

end
