(* ===== verification/World.thy ===== *)
theory World
  imports Prelude Effects Py_Float Py_Text Py_Time Device_Registry
begin

text \<open>
  The state the gateway's coroutines act on: the device registry, the database tables the SQL of
  the services and repositories names, what has been written to each socket and which are closed,
  the module-level caches and counters, and the outside world. The outside world is an oracle:
  \<open>outcome w k\<close> says how the \<open>k\<close>-th external call (a statement, a connection from the pool, a
  socket write) ends, so a theorem about every world is a theorem about every pattern of failures.
  An external call can fail before it takes effect or after it did.
\<close>

section \<open>JSON values\<close>

text \<open>What \<^verbatim>\<open>json.dumps\<close> gets and \<^verbatim>\<open>json.loads\<close> returns; an object keeps its key order.\<close>

datatype json =
    JNull
  | JBool bool
  | JInt int
  | JFloat pyfloat
  | JStr string
  | JList "json list"
  | JObj "(string \<times> json) list"

section \<open>Configuration\<close>

datatype raw_mode = RawAll | RawSelective | RawOff

record config =
  cfg_connection_timeout :: int
  cfg_max_connections :: int
  cfg_enabled_protocols :: "family set"
  cfg_speed_in_kmh :: bool
  cfg_max_unframed_bytes :: int
  cfg_poll_seconds :: int
  cfg_poll_idle_seconds :: int
  cfg_max_packet_bytes :: int
  cfg_max_future_seconds :: int
  cfg_raw_packet_mode :: raw_mode
  cfg_raw_sample_rate :: rat
  cfg_gps_idempotent :: bool

section \<open>Tables\<close>

record gps_device_row =
  gd_device_id :: string
  gd_sim_number :: "string option"
  gd_device_model :: string
  gd_protocol_type :: string
  gd_activation_status :: nat

record setup_row =
  su_device_category :: "string option"
  su_sim_number :: "string option"
  su_status :: "string option"

record assignment_row =
  as_device_id :: string
  as_vehicle_id :: string
  as_status :: int

record status_row =
  st_is_online :: bool
  st_last_heartbeat :: "datetime option"
  st_last_seen :: datetime
  st_gps_signal :: nat
  st_battery_level :: nat
  st_ignition :: bool
  st_movement :: bool
  st_power :: nat
  st_updated_at :: datetime

record tracking_row =
  tr_device_id :: string
  tr_latitude :: "rat option"
  tr_longitude :: "rat option"
  tr_speed :: "rat option"
  tr_heading :: "rat option"
  tr_satellites :: nat
  tr_event_time :: datetime

record current_row =
  cl_vehicle_id :: string
  cl_latitude :: "rat option"
  cl_longitude :: "rat option"
  cl_speed :: "rat option"
  cl_heading :: "rat option"
  cl_ignition :: bool
  cl_movement :: bool
  cl_last_update :: datetime

record event_row =
  ev_device_id :: string
  ev_vehicle_id :: "string option"
  ev_event_type :: string
  ev_severity :: nat
  ev_latitude :: "rat option"
  ev_longitude :: "rat option"
  ev_description :: string
  ev_metadata :: "json option"
  ev_created_at :: datetime

record raw_row =
  rp_device_id :: string
  rp_protocol_number :: string
  rp_raw_hex :: string
  rp_packet_length :: nat
  rp_received_at :: datetime
  rp_parsed :: bool

record response_row =
  cr_device_id :: string
  cr_command :: string
  cr_raw_response :: string
  cr_parsed_data :: json

text \<open>
  Tables with a key the code upserts on are maps from that key; the others are lists in insertion
  order. \<^verbatim>\<open>ImeiNumber\<close> is unique in both device tables.
\<close>

record database =
  gps_devices :: "string \<rightharpoonup> gps_device_row"
  setup_devices :: "string \<rightharpoonup> setup_row"
  assignments :: "assignment_row list"
  device_statuses :: "string \<rightharpoonup> status_row"
  gps_trackings :: "tracking_row list"
  current_locations :: "string \<rightharpoonup> current_row"
  device_events :: "event_row list"
  raw_packets :: "raw_row list"
  command_responses :: "response_row list"

section \<open>The world\<close>

datatype outcome = Succeeds | FailsClean | FailsApplied

record world =
  reg :: registry
  db :: database
  pool_in_use :: nat
  sent :: "sock \<Rightarrow> bytes list"
  closing :: "sock set"
  last_alive :: "string \<rightharpoonup> rat"
  last_ignition :: "string \<rightharpoonup> bool"
  command_serial :: nat
  connection_count :: int
  calls :: nat
  outcomes :: "nat \<Rightarrow> outcome"
  clock :: "nat \<Rightarrow> datetime"
  mono :: "nat \<Rightarrow> rat"
  rand :: "nat \<Rightarrow> rat"
  uuids :: "nat \<Rightarrow> string"

type_synonym 'a act = "(world, 'a) io"

definition tick :: "world \<Rightarrow> world" where
  "tick w = w \<lparr> calls := Suc (calls w) \<rparr>"

text \<open>Reading the clock, a random number, a fresh identifier: each read is its own.\<close>

definition now_utc :: "datetime act" where
  "now_utc w = (Inr (clock w (calls w)), tick w)"

definition monotonic :: "rat act" where
  "monotonic w = (Inr (mono w (calls w)), tick w)"

definition random_unit :: "rat act" where
  "random_unit w = (Inr (rand w (calls w)), tick w)"

definition uuid4 :: "string act" where
  "uuid4 w = (Inr (uuids w (calls w)), tick w)"

text \<open>An external effect \<open>f\<close> that may fail with \<open>e\<close>, before or after it is applied.\<close>

definition external :: "exn \<Rightarrow> (world \<Rightarrow> 'a \<times> world) \<Rightarrow> 'a act" where
  "external e f w =
     (case outcomes w (calls w) of
        Succeeds \<Rightarrow> (case f (tick w) of (x, w') \<Rightarrow> (Inr x, w'))
      | FailsClean \<Rightarrow> (Inl e, tick w)
      | FailsApplied \<Rightarrow> (case f (tick w) of (x, w') \<Rightarrow> (Inl e, w')))"

section \<open>Sockets\<close>

text \<open>
  \<^verbatim>\<open>writer.write(payload); await writer.drain()\<close>. What is written to a closing transport is
  dropped by asyncio.
\<close>

definition push_bytes :: "sock \<Rightarrow> bytes \<Rightarrow> world \<Rightarrow> unit \<times> world" where
  "push_bytes s payload w =
     ((), if s \<in> closing w then w else w \<lparr> sent := (sent w)(s := sent w s @ [payload]) \<rparr>)"

definition write_drain :: "sock \<Rightarrow> bytes \<Rightarrow> unit act" where
  "write_drain s payload = external SocketError (push_bytes s payload)"

definition close_socket :: "sock \<Rightarrow> unit act" where
  "close_socket s = modifyM (\<lambda>w. w \<lparr> closing := insert s (closing w) \<rparr>)"

text \<open>\<^verbatim>\<open>_send\<close> and \<^verbatim>\<open>_safely\<close> of the handlers: log and swallow a failure.\<close>

definition send_reply :: "sock \<Rightarrow> bytes \<Rightarrow> unit act" where
  "send_reply s payload = tryM (write_drain s payload) (\<lambda>_. ret ())"

definition safely :: "unit act \<Rightarrow> unit act" where
  "safely m = tryM m (\<lambda>_. ret ())"

section \<open>The registry inside the world\<close>

definition with_reg :: "(registry \<Rightarrow> registry) \<Rightarrow> unit act" where
  "with_reg f = modifyM (\<lambda>w. w \<lparr> reg := f (reg w) \<rparr>)"

definition reg_register :: "string \<Rightarrow> string \<Rightarrow> string \<Rightarrow> sock \<Rightarrow> family \<Rightarrow> unit act" where
  "reg_register imei ip device_id conn protocol =
     bindM now_utc (\<lambda>t1. bindM now_utc (\<lambda>t2.
       with_reg (register_device imei ip device_id conn protocol t1 t2)))"

definition reg_imei_of :: "sock \<Rightarrow> string option act" where
  "reg_imei_of s = getsM (\<lambda>w. get_imei_by_socket (reg w) s)"

definition reg_device :: "string \<Rightarrow> entry option act" where
  "reg_device imei = getsM (\<lambda>w. get_device (reg w) imei)"

section \<open>The connection pool\<close>

text \<open>
  \<^verbatim>\<open>async with managed_connection() as conn\<close> (and the acquire/release pairs of the
  repositories): a borrowed connection goes back to the pool however the body ends.
\<close>

definition acquire :: "unit act" where
  "acquire w = (case outcomes w (calls w) of
                  Succeeds \<Rightarrow> (Inr (), (tick w) \<lparr> pool_in_use := Suc (pool_in_use w) \<rparr>)
                | _ \<Rightarrow> (Inl DbError, tick w))"

definition release :: "unit act" where
  "release = modifyM (\<lambda>w. w \<lparr> pool_in_use := pool_in_use w - 1 \<rparr>)"

definition managed_connection :: "'a act \<Rightarrow> 'a act" where
  "managed_connection body = thenM acquire (finallyM body release)"

text \<open>One SQL statement: a function on the tables, and what it returns.\<close>

definition statement :: "(database \<Rightarrow> 'a \<times> database) \<Rightarrow> 'a act" where
  "statement f = external DbError
     (\<lambda>w. case f (db w) of (x, d) \<Rightarrow> (x, w \<lparr> db := d \<rparr>))"

definition execute :: "(database \<Rightarrow> database) \<Rightarrow> unit act" where
  "execute f = statement (\<lambda>d. ((), f d))"

definition fetch :: "(database \<Rightarrow> 'a) \<Rightarrow> 'a act" where
  "fetch f = statement (\<lambda>d. (f d, d))"

named_theorems reliable_intros \<open>a composed computation succeeds when no call fails\<close>

section \<open>What the primitives keep\<close>

text \<open>Invariants about one part of the world, kept by every primitive that acts on another part.\<close>

lemma reg_tick [simp]: "reg (tick w) = reg w"
  and db_tick [simp]: "db (tick w) = db w"
  and pool_tick [simp]: "pool_in_use (tick w) = pool_in_use w"
  and sent_tick [simp]: "sent (tick w) = sent w"
  and closing_tick [simp]: "closing (tick w) = closing w"
  and count_tick [simp]: "connection_count (tick w) = connection_count w"
  and serial_tick [simp]: "command_serial (tick w) = command_serial w"
  and outcomes_tick [simp]: "outcomes (tick w) = outcomes w"
  and last_alive_tick [simp]: "last_alive (tick w) = last_alive w"
  and last_ignition_tick [simp]: "last_ignition (tick w) = last_ignition w"
  by (simp_all add: tick_def)

lemma keeps_external:
  assumes "\<And>w. I w \<Longrightarrow> I (tick w)" and "\<And>w. I w \<Longrightarrow> I (snd (f w))"
  shows "keeps I (external e f)"
  using assms unfolding keeps_def external_def
  by (auto split: outcome.split prod.split) (metis snd_conv)+

text \<open>An invariant on the registry, on the sockets, on the oracle, on the tables, on the pool.\<close>

definition on_reg :: "(registry \<Rightarrow> bool) \<Rightarrow> world \<Rightarrow> bool" where
  "on_reg R w \<longleftrightarrow> R (reg w)"

definition on_net :: "((sock \<Rightarrow> bytes list) \<Rightarrow> sock set \<Rightarrow> bool) \<Rightarrow> world \<Rightarrow> bool" where
  "on_net N w \<longleftrightarrow> N (sent w) (closing w)"

definition on_sent :: "(sock \<Rightarrow> bytes list) \<Rightarrow> world \<Rightarrow> bool" where
  "on_sent S w \<longleftrightarrow> sent w = S"

definition oracle_is :: "(nat \<Rightarrow> outcome) \<Rightarrow> world \<Rightarrow> bool" where
  "oracle_is f w \<longleftrightarrow> outcomes w = f"

definition serial_is :: "nat \<Rightarrow> world \<Rightarrow> bool" where
  "serial_is n w \<longleftrightarrow> command_serial w = n"

definition slots_are :: "int \<Rightarrow> world \<Rightarrow> bool" where
  "slots_are n w \<longleftrightarrow> connection_count w = n"

definition on_db :: "(database \<Rightarrow> bool) \<Rightarrow> world \<Rightarrow> bool" where
  "on_db D w \<longleftrightarrow> D (db w)"

definition pool_is :: "nat \<Rightarrow> world \<Rightarrow> bool" where
  "pool_is n w \<longleftrightarrow> pool_in_use w = n"

lemmas part_defs = on_reg_def on_net_def on_sent_def oracle_is_def serial_is_def slots_are_def on_db_def pool_is_def

text \<open>
  \<open>session_inv I\<close>: reading the clock, a statement and borrowing a connection cannot break \<open>I\<close>.
  \<open>net_inv I\<close>: neither can writing to a socket or closing one; \<open>reg_inv I\<close>: nor the registry.
\<close>

definition session_inv :: "(world \<Rightarrow> bool) \<Rightarrow> bool" where
  "session_inv I \<longleftrightarrow> (\<forall>w. I w \<longrightarrow> I (tick w)) \<and> (\<forall>w d. I w \<longrightarrow> I (w \<lparr> db := d \<rparr>)) \<and>
     (\<forall>w n. I w \<longrightarrow> I (w \<lparr> pool_in_use := n \<rparr>))"

definition net_inv :: "(world \<Rightarrow> bool) \<Rightarrow> bool" where
  "net_inv I \<longleftrightarrow> (\<forall>w. I w \<longrightarrow> I (tick w)) \<and> (\<forall>w f. I w \<longrightarrow> I (w \<lparr> sent := f \<rparr>)) \<and>
     (\<forall>w c. I w \<longrightarrow> I (w \<lparr> closing := c \<rparr>))"

definition reg_inv :: "(world \<Rightarrow> bool) \<Rightarrow> bool" where
  "reg_inv I \<longleftrightarrow> (\<forall>w. I w \<longrightarrow> I (tick w)) \<and> (\<forall>w r. I w \<longrightarrow> I (w \<lparr> reg := r \<rparr>))"

lemma session_inv_parts [simp]:
  "session_inv (on_reg R)" "session_inv (on_net N)" "session_inv (on_sent S)"
  "session_inv (oracle_is f)" "session_inv (serial_is n)" "session_inv (slots_are k)"
  by (simp_all add: session_inv_def part_defs)

lemma net_inv_parts [simp]:
  "net_inv (on_reg R)" "net_inv (on_db D)" "net_inv (pool_is n)"
  "net_inv (oracle_is f)" "net_inv (serial_is n)" "net_inv (slots_are k)"
  by (simp_all add: net_inv_def part_defs)

lemma reg_inv_parts [simp]:
  "reg_inv (on_net N)" "reg_inv (on_sent S)" "reg_inv (on_db D)" "reg_inv (pool_is n)"
  "reg_inv (oracle_is f)" "reg_inv (serial_is n)" "reg_inv (slots_are k)"
  by (simp_all add: reg_inv_def part_defs)

lemma part_tick [simp]:
  "on_reg R (tick w) = on_reg R w" "on_db D (tick w) = on_db D w" "on_sent S (tick w) = on_sent S w"
  "on_net N (tick w) = on_net N w" "pool_is n (tick w) = pool_is n w"
  "oracle_is f (tick w) = oracle_is f w" "serial_is n (tick w) = serial_is n w"
  "slots_are k (tick w) = slots_are k w"
  by (simp_all add: part_defs)

section \<open>The oracle and the tables\<close>

lemma keeps_oracle:
  assumes "\<And>w. I w \<Longrightarrow> I (tick w)"
  shows "keeps I now_utc" "keeps I monotonic" "keeps I random_unit" "keeps I uuid4"
  using assms by (simp_all add: keeps_def now_utc_def monotonic_def random_unit_def uuid4_def)

lemma keeps_oracle_part [keeps_intros]:
  "session_inv I \<Longrightarrow> keeps I now_utc" "session_inv I \<Longrightarrow> keeps I monotonic"
  "session_inv I \<Longrightarrow> keeps I random_unit" "session_inv I \<Longrightarrow> keeps I uuid4"
  by (auto intro!: keeps_oracle simp: session_inv_def)

lemma keeps_oracle_db [keeps_intros]:
  "keeps (on_db D) now_utc" "keeps (on_db D) monotonic" "keeps (on_db D) random_unit"
  "keeps (on_db D) uuid4" "keeps (pool_is n) now_utc" "keeps (pool_is n) monotonic"
  "keeps (pool_is n) random_unit" "keeps (pool_is n) uuid4"
  by (auto intro!: keeps_oracle)

lemma keeps_statement [keeps_intros]: "session_inv I \<Longrightarrow> keeps I (statement f)"
  unfolding statement_def session_inv_def by (rule keeps_external) (auto split: prod.split)

lemma keeps_statement_db:
  "(\<And>d. D d \<Longrightarrow> D (snd (f d))) \<Longrightarrow> keeps (on_db D) (statement f)"
  unfolding statement_def
  by (rule keeps_external, simp, simp add: part_defs split: prod.split) (metis snd_conv)

lemma keeps_execute_db: "(\<And>d. D d \<Longrightarrow> D (f d)) \<Longrightarrow> keeps (on_db D) (execute f)"
  unfolding execute_def by (rule keeps_statement_db) simp

lemma keeps_fetch_db [keeps_intros]: "keeps (on_db D) (fetch f)"
  unfolding fetch_def by (rule keeps_statement_db) simp

lemma keeps_execute [keeps_intros]:
  "session_inv I \<Longrightarrow> keeps I (execute f)" "session_inv I \<Longrightarrow> keeps I (fetch g)"
  by (simp_all add: execute_def fetch_def keeps_statement)

lemma keeps_managed [keeps_intros]:
  assumes "session_inv I" "keeps I m"
  shows "keeps I (managed_connection m)"
proof -
  have "keeps I acquire" and "keeps I release"
    using assms(1) by (auto simp: keeps_def acquire_def release_def session_inv_def split: outcome.split)
  with assms(2) show ?thesis unfolding managed_connection_def by (intro keeps_intros)
qed

lemma keeps_managed_db [keeps_intros]:
  assumes "keeps (on_db D) m"
  shows "keeps (on_db D) (managed_connection m)"
proof -
  have "keeps (on_db D) acquire" and "keeps (on_db D) release"
    by (auto simp: keeps_def acquire_def release_def part_defs split: outcome.split)
  with assms show ?thesis unfolding managed_connection_def by (intro keeps_intros)
qed

text \<open>A query returns what the tables say, and changes nothing in them however it ends.\<close>

lemma fetch_Inr: "fetch f w = (Inr x, w') \<Longrightarrow> x = f (db w) \<and> db w' = db w"
  by (auto simp: fetch_def statement_def external_def split: outcome.splits)

lemma fetch_db: "db (snd (fetch f w)) = db w"
  by (auto simp: fetch_def statement_def external_def split: outcome.splits)

text \<open>When every external call succeeds.\<close>

definition healthy :: "world \<Rightarrow> bool" where
  "healthy w \<longleftrightarrow> (\<forall>k. outcomes w k = Succeeds)"

lemma healthy_external: "healthy w \<Longrightarrow> external e f w = (case f (tick w) of (x, w') \<Rightarrow> (Inr x, w'))"
  by (simp add: healthy_def external_def)

lemma healthy_fetch: "healthy w \<Longrightarrow> fetch f w = (Inr (f (db w)), tick w)"
  by (simp add: fetch_def statement_def healthy_external)

lemma healthy_tick [simp]: "healthy (tick w) = healthy w"
  by (simp add: healthy_def)

lemma healthy_pool [simp]: "healthy (w \<lparr> pool_in_use := n \<rparr>) = healthy w"
  by (simp add: healthy_def)

lemma healthy_db [simp]: "healthy (w \<lparr> db := d \<rparr>) = healthy w"
  by (simp add: healthy_def)

lemma healthy_acquire:
  "healthy w \<Longrightarrow> acquire w = (Inr (), (tick w) \<lparr> pool_in_use := Suc (pool_in_use w) \<rparr>)"
  by (simp add: acquire_def healthy_def)

lemma healthy_managed:
  assumes "healthy w" and "m ((tick w) \<lparr> pool_in_use := Suc (pool_in_use w) \<rparr>) = (Inr x, w')"
  shows "managed_connection m w = (Inr x, w' \<lparr> pool_in_use := pool_in_use w' - 1 \<rparr>)"
  using assms
  by (simp add: managed_connection_def thenM_def bindM_def finallyM_def healthy_acquire release_def)

text \<open>A computation that succeeds whenever no external call fails.\<close>

definition reliable :: "'a act \<Rightarrow> bool" where
  "reliable m \<longleftrightarrow> (\<forall>w. healthy w \<longrightarrow> (\<exists>x w'. m w = (Inr x, w') \<and> healthy w'))"

lemma reliableD: "reliable m \<Longrightarrow> healthy w \<Longrightarrow> \<exists>x w'. m w = (Inr x, w') \<and> healthy w'"
  by (simp add: reliable_def)

lemma reliable_ret [reliable_intros]: "reliable (ret x)"
  by (simp add: reliable_def)

lemma reliable_getsM [reliable_intros]: "reliable (getsM f)"
  by (simp add: reliable_def)

lemma reliable_bindM [reliable_intros]: "reliable m \<Longrightarrow> (\<And>x. reliable (f x)) \<Longrightarrow> reliable (bindM m f)"
  unfolding reliable_def by (metis bindM_Inr)

lemma reliable_liftR [reliable_intros]: "(\<And>x. reliable (f x)) \<Longrightarrow> \<exists>x. r = Inr x \<Longrightarrow> reliable (bindM (liftR r) f)"
  unfolding reliable_def by (auto simp: bindM_def)

lemma reliable_thenM [reliable_intros]: "reliable m \<Longrightarrow> reliable k \<Longrightarrow> reliable (thenM m k)"
  unfolding thenM_def by (rule reliable_bindM)

lemma reliable_whenM [reliable_intros]: "reliable m \<Longrightarrow> reliable (whenM b m)"
  by (simp add: whenM_def reliable_ret)

lemma reliable_tryM [reliable_intros]: "reliable m \<Longrightarrow> reliable (tryM m h)"
  unfolding reliable_def tryM_def by fastforce

lemma reliable_safely [reliable_intros]: "reliable m \<Longrightarrow> reliable (safely m)"
  unfolding safely_def by (rule reliable_tryM)

lemma reliable_if [reliable_intros]: "reliable m \<Longrightarrow> reliable k \<Longrightarrow> reliable (if b then m else k)"
  by simp

lemma reliable_case_option:
  "reliable m \<Longrightarrow> (\<And>x. reliable (f x)) \<Longrightarrow> reliable (case v of None \<Rightarrow> m | Some x \<Rightarrow> f x)"
  by (cases v) simp_all

lemma reliable_oracle [reliable_intros]: "reliable now_utc" "reliable monotonic" "reliable random_unit" "reliable uuid4"
  by (simp_all add: reliable_def now_utc_def monotonic_def random_unit_def uuid4_def)

lemma reliable_statement: "reliable (statement f)"
  by (auto simp: reliable_def statement_def healthy_external split: prod.split)

lemma reliable_execute [reliable_intros]: "reliable (execute f)" "reliable (fetch g)"
  by (simp_all add: execute_def fetch_def reliable_statement)

lemma reliable_finallyM: "reliable m \<Longrightarrow> reliable c \<Longrightarrow> reliable (finallyM m c)"
  unfolding reliable_def finallyM_def by fastforce

lemma reliable_managed [reliable_intros]: "reliable m \<Longrightarrow> reliable (managed_connection m)"
proof -
  have "reliable acquire" "reliable release"
    by (auto simp: reliable_def healthy_acquire release_def)
  then show "reliable m \<Longrightarrow> ?thesis"
    unfolding managed_connection_def by (intro reliable_thenM reliable_finallyM)
qed

lemma reliable_send_reply [reliable_intros]: "reliable (send_reply s b)"
  by (auto simp: reliable_def send_reply_def tryM_def write_drain_def healthy_external push_bytes_def healthy_def)

lemma managed_Inr:
  assumes "managed_connection m w = (Inr x, w')"
  shows "\<exists>w1 w2. m w1 = (Inr x, w2) \<and> db w1 = db w \<and> db w' = db w2"
  using assms
  by (auto simp: managed_connection_def thenM_def bindM_def finallyM_def acquire_def release_def
      split: outcome.splits sum.splits prod.splits) force+

section \<open>The pool\<close>

named_theorems pool_intros \<open>the number of borrowed connections is the same after as before\<close>

lemmas [pool_intros] = keeps_ret keeps_raise keeps_liftR keeps_getsM keeps_bindM keeps_thenM
  keeps_tryM keeps_finallyM keeps_whenM keeps_if keeps_case_option keeps_case_sum keeps_case_prod
  keeps_Let keeps_forM keeps_oracle_db

lemma keeps_statement_pool [pool_intros]: "keeps (pool_is n) (statement f)"
  unfolding statement_def
  by (rule keeps_external, simp, simp add: part_defs split: prod.split)

lemma keeps_execute_pool [pool_intros]:
  "keeps (pool_is n) (execute f)" "keeps (pool_is n) (fetch g)"
  by (simp_all add: execute_def fetch_def keeps_statement_pool)

text \<open>A borrowed connection always comes back.\<close>

lemma keeps_managed_pool [pool_intros]:
  assumes "\<And>k. keeps (pool_is k) m"
  shows "keeps (pool_is n) (managed_connection m)"
proof (unfold keeps_def, intro allI impI)
  fix w assume n: "pool_is n w"
  let ?w = "(tick w) \<lparr> pool_in_use := Suc (pool_in_use w) \<rparr>"
  have "pool_is (Suc n) ?w" using n by (simp add: pool_is_def)
  then have "pool_is (Suc n) (snd (m ?w))" by (rule keepsD [OF assms])
  with n show "pool_is n (snd (managed_connection m w))"
    by (auto simp: managed_connection_def thenM_def bindM_def finallyM_def acquire_def release_def
        pool_is_def split: outcome.splits prod.splits sum.splits)
qed

section \<open>Sockets and the registry\<close>

lemma keeps_write_drain [keeps_intros]: "net_inv I \<Longrightarrow> keeps I (write_drain s b)"
  unfolding write_drain_def net_inv_def
  by (rule keeps_external) (simp_all add: push_bytes_def)

lemma keeps_close [keeps_intros]: "net_inv I \<Longrightarrow> keeps I (close_socket s)"
  unfolding close_socket_def net_inv_def by (auto intro!: keeps_modifyM)

lemma keeps_close_sent [keeps_intros]: "keeps (on_sent S) (close_socket s)"
  unfolding close_socket_def by (auto simp: part_defs intro!: keeps_modifyM)

lemma keeps_send_reply [keeps_intros]: "net_inv I \<Longrightarrow> keeps I (send_reply s b)"
  unfolding send_reply_def by (intro keeps_intros)

lemma keeps_safely [keeps_intros]: "keeps I m \<Longrightarrow> keeps I (safely m)"
  unfolding safely_def by (intro keeps_intros)

lemma keeps_with_reg [keeps_intros]: "reg_inv I \<Longrightarrow> keeps I (with_reg f)"
  unfolding with_reg_def reg_inv_def by (auto intro!: keeps_modifyM)

lemma keeps_with_reg_reg:
  "(\<And>r. R r \<Longrightarrow> R (f r)) \<Longrightarrow> keeps (on_reg R) (with_reg f)"
  by (auto simp: with_reg_def part_defs intro!: keeps_modifyM)

lemma keeps_reg_read [keeps_intros]: "keeps I (reg_imei_of s)" "keeps I (reg_device i)"
  unfolding reg_imei_of_def reg_device_def by (intro keeps_intros)+

lemma keeps_reg_register [keeps_intros]:
  assumes "reg_inv I"
  shows "keeps I (reg_register i ip d s p)"
proof -
  have "keeps I now_utc" using assms by (intro keeps_oracle) (simp add: reg_inv_def)
  with assms show ?thesis
    unfolding reg_register_def by (intro keeps_bindM keeps_with_reg)
qed

lemma keeps_reg_register_ok [keeps_intros]: "keeps (on_reg reg_ok) (reg_register i ip d s p)"
  unfolding reg_register_def
  by (rule keeps_bindM [OF keeps_oracle(1)], simp)+ (intro keeps_with_reg_reg reg_ok_register)

lemmas [pool_intros] = keeps_write_drain [OF net_inv_parts(3)] keeps_close [OF net_inv_parts(3)]
  keeps_send_reply [OF net_inv_parts(3)] keeps_safely keeps_with_reg [OF reg_inv_parts(4)]
  keeps_reg_read keeps_reg_register [OF reg_inv_parts(4)]

lemma never_raises_safely: "never_raises (safely m)"
  by (simp add: safely_def never_raises_tryM never_raises_ret)

lemma never_raises_send_reply: "never_raises (send_reply s b)"
  by (simp add: send_reply_def never_raises_tryM never_raises_ret)

section \<open>The start\<close>

text \<open>
  The process when it starts, on given tables, in an outside world where every call succeeds and
  the clocks stand still.
\<close>

definition empty_database :: database where
  "empty_database =
     \<lparr> gps_devices = Map.empty, setup_devices = Map.empty, assignments = [],
       device_statuses = Map.empty, gps_trackings = [], current_locations = Map.empty,
       device_events = [], raw_packets = [], command_responses = [] \<rparr>"

definition start_world :: "database \<Rightarrow> world" where
  "start_world d =
     \<lparr> reg = empty_registry, db = d, pool_in_use = 0, sent = (\<lambda>_. []), closing = {},
       last_alive = Map.empty, last_ignition = Map.empty, command_serial = 1,
       connection_count = 0, calls = 0, outcomes = (\<lambda>_. Succeeds), clock = (\<lambda>_. 0),
       mono = (\<lambda>_. 0), rand = (\<lambda>_. 0), uuids = (\<lambda>_. ''00000000-0000-4000-8000-000000000001'') \<rparr>"

lemma start_world_simps [simp]:
  "reg (start_world d) = empty_registry" "db (start_world d) = d" "pool_in_use (start_world d) = 0"
  "sent (start_world d) = (\<lambda>_. [])" "closing (start_world d) = {}" "command_serial (start_world d) = 1"
  "connection_count (start_world d) = 0" "calls (start_world d) = 0"
  "outcomes (start_world d) = (\<lambda>_. Succeeds)" "clock (start_world d) = (\<lambda>_. 0)"
  by (simp_all add: start_world_def)

lemma healthy_start [simp]: "healthy (start_world d)"
  by (simp add: healthy_def)

end
