(* ===== verification/Py_Repr.thy ===== *)
theory Py_Repr
  imports World Py_Number
begin

text \<open>
  How Python turns the values of a JSON body back into text (\<^verbatim>\<open>str\<close>, \<^verbatim>\<open>repr\<close>, f-strings) and into
  numbers (\<^verbatim>\<open>int(x)\<close>, \<^verbatim>\<open>float(x)\<close>, \<^verbatim>\<open>bool(x)\<close>). Text is over the code points below 256.
\<close>

section \<open>repr of a float\<close>

text \<open>The decimal exponent of a positive number: \<open>10 ^ e \<le> x < 10 ^ (e + 1)\<close>.\<close>

definition decexp :: "rat \<Rightarrow> int" where
  "decexp x = (let k = \<lfloor>of_int (binexp x) * (30103 / 100000 :: rat)\<rfloor>
               in if 10 powi (k + 1) \<le> x then k + 1 else if x < 10 powi k then k - 1 else k)"

text \<open>The nearest decimal with \<open>k\<close> significant digits, as its digits and the exponent of the last.\<close>

definition round_digits :: "nat \<Rightarrow> rat \<Rightarrow> int \<times> int" where
  "round_digits k x = (let e = decexp x - int k + 1 in (rhe (x / 10 powi e), e))"

definition digits_rat :: "int \<times> int \<Rightarrow> rat" where
  "digits_rat d = of_int (fst d) * 10 powi (snd d)"

text \<open>The fewest digits that read back as the same float; 17 are always enough.\<close>

definition shortest_digits :: "rat \<Rightarrow> int \<times> int" where
  "shortest_digits x =
     (case List.find (\<lambda>k. rnd64 (digits_rat (round_digits k x)) = x) [1 ..< 17] of
        Some k \<Rightarrow> round_digits k x | None \<Rightarrow> round_digits 17 x)"

text \<open>Digits without trailing zeros, and the exponent of the first.\<close>

definition digit_string :: "int \<times> int \<Rightarrow> string \<times> int" where
  "digit_string d =
     (let s = str_nat (nat (fst d));
          t = rev (dropWhile (\<lambda>c. c = CHR ''0'') (rev s))
      in (t, snd d + int (length s) - 1))"

definition exponent_str :: "int \<Rightarrow> string" where
  "exponent_str e = (if e < 0 then ''-'' else ''+'') @ pad 2 (nat \<bar>e\<bar>)"

definition format_repr :: "string \<times> int \<Rightarrow> string" where
  "format_repr p =
     (let (s, e) = p; n = nat e + 1
      in if - 4 \<le> e \<and> e < 0 then ''0.'' @ replicate (nat (- e) - 1) (CHR ''0'') @ s
         else if 0 \<le> e \<and> e < 16
         then (if length s \<le> n then s @ replicate (n - length s) (CHR ''0'') @ ''.0''
               else take n s @ ''.'' @ drop n s)
         else take 1 s @ (if length s = 1 then [] else ''.'' @ drop 1 s) @ ''e'' @ exponent_str e)"

fun float_repr :: "pyfloat \<Rightarrow> string" where
  "float_repr (Fin x) =
     (if x = 0 then ''0.0''
      else (if x < 0 then ''-'' else []) @ format_repr (digit_string (shortest_digits \<bar>x\<bar>)))"
| "float_repr PInf = ''inf''"
| "float_repr NInf = ''-inf''"
| "float_repr NaN = ''nan''"

section \<open>str and repr of a JSON value\<close>

definition escape_char :: "char \<Rightarrow> char \<Rightarrow> string" where
  "escape_char quote c =
     (let n = char_code c; back = char_of (92 :: nat)
      in if c = quote \<or> n = 92 then [back, c]
         else if n = 9 then [back, CHR ''t''] else if n = 10 then [back, CHR ''n'']
         else if n = 13 then [back, CHR ''r'']
         else if n < 32 \<or> 127 \<le> n \<and> n \<le> 160 \<or> n = 173
         then [back, CHR ''x'', hex_digit (n div 16), hex_digit (n mod 16)]
         else [c])"

definition str_repr :: "string \<Rightarrow> string" where
  "str_repr s =
     (let single = char_of (39 :: nat); double = char_of (34 :: nat);
          q = (if single \<in> set s \<and> double \<notin> set s then double else single)
      in [q] @ concat (map (escape_char q) s) @ [q])"

fun commas :: "string list \<Rightarrow> string" where
  "commas [] = []"
| "commas [w] = w"
| "commas (w # ws) = w @ '', '' @ commas ws"

fun json_repr :: "json \<Rightarrow> string" where
  "json_repr JNull = ''None''"
| "json_repr (JBool b) = (if b then ''True'' else ''False'')"
| "json_repr (JInt i) = str_int i"
| "json_repr (JFloat v) = float_repr v"
| "json_repr (JStr s) = str_repr s"
| "json_repr (JList xs) = ''['' @ commas (map json_repr xs) @ '']''"
| "json_repr (JObj kvs) = ''{'' @ commas (map (\<lambda>(k, v). str_repr k @ '': '' @ json_repr v) kvs) @ ''}''"

definition json_str :: "json \<Rightarrow> string" where
  "json_str v = (case v of JStr s \<Rightarrow> s | _ \<Rightarrow> json_repr v)"

section \<open>Numbers and truth values of a JSON value\<close>

definition py_trunc :: "rat \<Rightarrow> int" where
  "py_trunc x = (if x < 0 then \<lceil>x\<rceil> else \<lfloor>x\<rfloor>)"

fun json_int :: "json \<Rightarrow> int result" where
  "json_int (JInt i) = Inr i"
| "json_int (JBool b) = Inr (if b then 1 else 0)"
| "json_int (JFloat (Fin x)) = Inr (py_trunc x)"
| "json_int (JFloat NaN) = Inl ValueError"
| "json_int (JFloat _) = Inl OverflowError"
| "json_int (JStr s) = py_int 10 s"
| "json_int _ = Inl TypeError"

fun json_float :: "json \<Rightarrow> pyfloat result" where
  "json_float (JFloat v) = Inr v"
| "json_float (JInt i) = (case to_float (of_int i) of Fin x \<Rightarrow> Inr (Fin x) | _ \<Rightarrow> Inl OverflowError)"
| "json_float (JBool b) = Inr (Fin (if b then 1 else 0))"
| "json_float (JStr s) = py_float s"
| "json_float _ = Inl TypeError"

fun json_bool :: "json \<Rightarrow> bool" where
  "json_bool JNull = False"
| "json_bool (JBool b) = b"
| "json_bool (JInt i) = (i \<noteq> 0)"
| "json_bool (JFloat v) = (v \<noteq> Fin 0)"
| "json_bool (JStr s) = (s \<noteq> [])"
| "json_bool (JList xs) = (xs \<noteq> [])"
| "json_bool (JObj kvs) = (kvs \<noteq> [])"

text \<open>\<^verbatim>\<open>params[key]\<close> and \<^verbatim>\<open>params.get(key, default)\<close> on a value that should be an object.\<close>

definition json_item :: "json \<Rightarrow> string \<Rightarrow> json result" where
  "json_item v key =
     (case v of
        JObj kvs \<Rightarrow> (case map_of (rev kvs) key of None \<Rightarrow> Inl (KeyError key) | Some x \<Rightarrow> Inr x)
      | _ \<Rightarrow> Inl TypeError)"

definition json_get :: "json \<Rightarrow> string \<Rightarrow> json \<Rightarrow> json result" where
  "json_get v key dflt =
     (case v of
        JObj kvs \<Rightarrow> Inr (case map_of (rev kvs) key of None \<Rightarrow> dflt | Some x \<Rightarrow> x)
      | _ \<Rightarrow> Inl AttributeError)"

end
