(* ===== verification/V5_Parser.thy ===== *)
theory V5_Parser
  imports Prelude Py_Float Py_Text Py_Time Crc Framing "HOL-Library.AList"
begin

text \<open>
  parsers/v5_parser.py: the parsers of the GT06/V5 packets and the acknowledgement builder. Every
  parser is applied to a frame the GT06 framer handed out; a read past the end of the frame is the
  IndexError of the code. Dictionaries whose order shows are association lists.
\<close>

section \<open>Login\<close>

record login_data =
  login_imei :: string
  login_serial :: string

definition parse_login_packet :: "bytes \<Rightarrow> login_data" where
  "parse_login_packet raw =
     \<lparr> login_imei = lstrip_by (\<lambda>c. c = CHR ''0'') (concat (map hex_byte (slice raw 4 12))),
       login_serial = hex_of (py_slice raw (- 6) (- 4)) \<rparr>"

section \<open>Position\<close>

text \<open>The bits of a terminal or status word: \<^verbatim>\<open>bool(w & mask)\<close>.\<close>

definition flag :: "nat \<Rightarrow> nat \<Rightarrow> bool" where
  "flag w m \<longleftrightarrow> w AND m \<noteq> 0"

text \<open>\<^verbatim>\<open>datetime(raw[4] + 2000, raw[5], ..., raw[9])\<close>.\<close>

definition parse_timestamp :: "bytes \<Rightarrow> datetime result" where
  "parse_timestamp raw =
     bindR (get_at raw 4) (\<lambda>year.
     bindR (get_at raw 5) (\<lambda>month.
     bindR (get_at raw 6) (\<lambda>day.
     bindR (get_at raw 7) (\<lambda>hour.
     bindR (get_at raw 8) (\<lambda>minute.
     bindR (get_at raw 9) (\<lambda>second.
       mk_datetime (unat year + 2000) (unat month) (unat day)
         (unat hour) (unat minute) (unat second)))))))"

record location =
  loc_latitude :: pyfloat
  loc_longitude :: pyfloat
  loc_speed :: nat
  loc_timestamp :: datetime
  loc_heading :: nat
  loc_gps_fixed :: bool
  loc_gps_length :: nat
  loc_satellites :: nat

text \<open>Degrees from a raw coordinate, with the sign of its hemisphere.\<close>

definition degrees :: "nat \<Rightarrow> bool \<Rightarrow> pyfloat" where
  "degrees coord negative =
     (let v = int_div (int coord) 1800000 in if negative then f_neg v else v)"

definition parse_location_packet :: "bytes \<Rightarrow> location result" where
  "parse_location_packet raw =
     bindR (parse_timestamp raw) (\<lambda>ts.
     (let lat_raw = be_val (slice raw 11 15);
          lon_raw = be_val (slice raw 15 19)
      in bindR (get_at raw 19) (\<lambda>spd.
         bindR (get_at raw 10) (\<lambda>info.
         (let course_status = be_val (slice raw 20 22);
              is_north = flag course_status 0x0400;
              is_west = flag course_status 0x0800
          in Inr \<lparr> loc_latitude = degrees lat_raw (\<not> is_north),
                   loc_longitude = degrees lon_raw is_west,
                   loc_speed = unat spd,
                   loc_timestamp = ts,
                   loc_heading = course_status AND 0x03FF,
                   loc_gps_fixed = flag course_status 0x1000,
                   loc_gps_length = unat info div 16,
                   loc_satellites = unat info AND 0x0F \<rparr>)))))"

section \<open>Acknowledgement\<close>

definition GT06_START :: bytes where
  "GT06_START = [0x78, 0x78]"

definition GT06_STOP :: bytes where
  "GT06_STOP = [0x0D, 0x0A]"

definition build_ack :: "bytes \<Rightarrow> bytes result" where
  "build_ack packet =
     bindR (if take 2 packet = [0x79, 0x79] then get_at packet 4 else get_at packet 3)
       (\<lambda>protocol_number.
     (let serial = py_slice packet (- 6) (- 4);
          ack_body = [0x05] @ [protocol_number] @ serial
      in bindR (to_bytes_be 2 (crc16_x25 ack_body)) (\<lambda>crc.
           Inr (GT06_START @ ack_body @ crc @ GT06_STOP))))"

section \<open>Status and heartbeat\<close>

record terminal_status =
  ts_battery_level :: nat
  ts_gsm_signal :: nat
  ts_ignition_status :: bool
  ts_power_cut :: bool
  ts_gps_tracking :: bool
  ts_charging :: bool
  ts_activated :: bool

definition parse_terminal_status :: "bytes \<Rightarrow> terminal_status result" where
  "parse_terminal_status packet =
     bindR (get_at packet 4) (\<lambda>terminal_info.
     bindR (get_at packet 5) (\<lambda>voltage.
     bindR (get_at packet 6) (\<lambda>gsm.
       Inr \<lparr> ts_battery_level = unat voltage,
             ts_gsm_signal = unat gsm,
             ts_ignition_status = flag (unat terminal_info) 0x02,
             ts_power_cut = flag (unat terminal_info) 0x80,
             ts_gps_tracking = flag (unat terminal_info) 0x40,
             ts_charging = flag (unat terminal_info) 0x04,
             ts_activated = flag (unat terminal_info) 0x01 \<rparr>)))"

definition parse_status_packet :: "bytes \<Rightarrow> terminal_status result" where
  "parse_status_packet packet = parse_terminal_status packet"

definition parse_heartbeat_packet :: "bytes \<Rightarrow> terminal_status result" where
  "parse_heartbeat_packet packet = parse_terminal_status packet"

section \<open>Alarm\<close>

record alarm =
  al_timestamp :: datetime
  al_latitude :: pyfloat
  al_longitude :: pyfloat
  al_speed :: nat
  al_satellites :: nat
  al_gps_length :: nat
  al_heading :: nat
  al_gps_fixed :: bool
  al_course_status :: nat
  al_mcc :: nat
  al_mnc :: nat
  al_lac :: nat
  al_cell_id :: nat
  al_terminal_info :: nat
  al_battery_level :: nat
  al_gsm_signal :: nat
  al_alarm_type :: nat
  al_language :: string
  al_ignition_status :: bool
  al_power_cut :: bool
  al_gps_tracking :: bool
  al_charging :: bool
  al_activated :: bool

definition parse_alarm_packet :: "bytes \<Rightarrow> alarm result" where
  "parse_alarm_packet packet =
     bindR (parse_timestamp packet) (\<lambda>ts.
     bindR (get_at packet 10) (\<lambda>info.
     (let latitude_raw = be_val (slice packet 11 15);
          longitude_raw = be_val (slice packet 15 19)
      in bindR (get_at packet 19) (\<lambda>spd.
         (let course_status = be_val (slice packet 20 22);
              is_north = flag course_status 0x0400;
              is_west = flag course_status 0x0800;
              mcc = be_val (slice packet 22 24)
          in bindR (get_at packet 24) (\<lambda>mnc.
             bindR (get_at packet 30) (\<lambda>terminal_info.
             bindR (get_at packet 31) (\<lambda>battery.
             bindR (get_at packet 32) (\<lambda>gsm.
             bindR (get_at packet 33) (\<lambda>alarm_language.
               Inr \<lparr> al_timestamp = ts,
                     al_latitude = degrees latitude_raw (\<not> is_north),
                     al_longitude = degrees longitude_raw is_west,
                     al_speed = unat spd,
                     al_satellites = unat info AND 0x0F,
                     al_gps_length = unat info div 16,
                     al_heading = course_status AND 0x03FF,
                     al_gps_fixed = flag course_status 0x1000,
                     al_course_status = course_status,
                     al_mcc = mcc,
                     al_mnc = unat mnc,
                     al_lac = be_val (slice packet 25 27),
                     al_cell_id = be_val (slice packet 27 30),
                     al_terminal_info = unat terminal_info,
                     al_battery_level = unat battery,
                     al_gsm_signal = unat gsm,
                     al_alarm_type = unat alarm_language div 16,
                     al_language = (if flag (unat alarm_language) 0x01
                                    then ''English'' else ''Chinese''),
                     al_ignition_status = flag (unat terminal_info) 0x02,
                     al_power_cut = flag (unat terminal_info) 0x80,
                     al_gps_tracking = flag (unat terminal_info) 0x40,
                     al_charging = flag (unat terminal_info) 0x04,
                     al_activated = flag (unat terminal_info) 0x01 \<rparr>))))))))))"

text \<open>\<^verbatim>\<open>f"{n:02X}"\<close> for a value below 256.\<close>

definition upper_hex2 :: "nat \<Rightarrow> string" where
  "upper_hex2 n = upper [hex_digit (n div 16 mod 16), hex_digit (n mod 16)]"

definition get_alarm_name :: "nat \<Rightarrow> string" where
  "get_alarm_name alarm_type =
     (let alarms = [''NORMAL'', ''SOS'', ''POWER_CUT'', ''SHOCK'', ''FENCE_IN'', ''FENCE_OUT'',
                    ''OVERSPEED'', ''LOW_BATTERY'', ''VIBRATION'', ''MOVE'', ''ACC_ON'', ''ACC_OFF'',
                    ''TOW'', ''GPS_ANTENNA'', ''EXTERNAL_POWER'']
      in if alarm_type < length alarms then alarms ! alarm_type
         else ''UNKNOWN (0x'' @ upper_hex2 alarm_type @ '')'')"

section \<open>Information and configuration\<close>

type_synonym dict = "(string \<times> string) list"

record information =
  info_is_ascii :: bool
  info_raw_hex :: string
  info_values :: dict
  info_text :: "string option"

text \<open>\<^verbatim>\<open>values[key] = value\<close> for each item with an equals sign; a later key overwrites.\<close>

fun collect_values :: "dict \<Rightarrow> string list \<Rightarrow> dict" where
  "collect_values vs [] = vs"
| "collect_values vs (item # items) =
     (case partition_on (CHR ''='') item of
        (key, found, val) \<Rightarrow>
          collect_values (if found then AList.update (strip key) (strip val) vs else vs) items)"

definition printable :: "char \<Rightarrow> bool" where
  "printable c \<longleftrightarrow> 32 \<le> char_code c \<and> char_code c \<le> 126"

definition information_payload :: "bytes \<Rightarrow> bytes" where
  "information_payload packet =
     (if take 2 packet = [0x79, 0x79] then py_slice packet 5 (- 6) else py_slice packet 4 (- 6))"

definition parse_information_packet :: "bytes \<Rightarrow> information" where
  "parse_information_packet packet =
     (let payload = information_payload packet;
          result = \<lparr> info_is_ascii = False, info_raw_hex = hex_of payload,
                     info_values = [], info_text = None \<rparr>
      in case decode_ascii payload of
           Inl _ \<Rightarrow> result
         | Inr decoded \<Rightarrow>
             (let text = strip_by (\<lambda>c. char_code c = 0) decoded
              in if list_all printable text
                 then result \<lparr> info_is_ascii := True, info_text := Some text,
                               info_values := collect_values [] (split_on (CHR '';'') text) \<rparr>
                 else result))"

section \<open>Facts: what the frames look like\<close>

text \<open>
  A sealed frame carries the X.25 checksum of the bytes between the start marker and the checksum,
  and the stop marker. \<open>build_ack\<close> and \<open>build_command\<close> both produce such frames.
\<close>

definition gt06_sealed :: "bytes \<Rightarrow> bool" where
  "gt06_sealed f \<longleftrightarrow> (\<exists>body. f = GT06_START @ body @ be_bytes 2 (crc16_x25 body) @ GT06_STOP)"

lemma gt06_sealed_frame:
  assumes "f = GT06_START @ (n # rest) @ c @ GT06_STOP" and "length c = 2" and "unat n = length rest + 2"
  shows "gt06_frame f"
  using assms by (auto simp: gt06_frame_def GT06_START_def GT06_STOP_def)

lemma gt06_frame_length: "gt06_frame f \<Longrightarrow> 5 \<le> length f"
  by (auto simp: gt06_frame_def)

lemma py_slice_serial: "6 \<le> length f \<Longrightarrow> length (py_slice f (- 6) (- 4)) = 2"
  by (simp add: py_slice_def clamp_index_def)

lemma build_ack_total: "gt06_frame f \<Longrightarrow> \<exists>a. build_ack f = Inr a"
  by (auto simp: gt06_frame_def build_ack_def Let_def starts_with_def GT06_START_def)

lemma build_ack_shape:
  assumes "gt06_frame f" and "6 \<le> length f" and "build_ack f = Inr a"
  shows "gt06_frame a \<and> gt06_sealed a \<and> length a = 10"
proof -
  from assms(3) obtain p where a:
    "a = GT06_START @ (0x05 # p # py_slice f (- 6) (- 4)) @
         be_bytes 2 (crc16_x25 (0x05 # p # py_slice f (- 6) (- 4))) @ GT06_STOP"
    by (auto simp: build_ack_def Let_def result_simps split: if_splits)
  have l: "length (py_slice f (- 6) (- 4)) = 2" using assms(2) by (rule py_slice_serial)
  have "gt06_frame a" by (rule gt06_sealed_frame [OF a]) (simp_all add: l)
  moreover have "gt06_sealed a" by (unfold gt06_sealed_def, rule exI, rule a)
  moreover have "length a = 10" using l by (simp add: a GT06_START_def GT06_STOP_def)
  ultimately show ?thesis by blast
qed

section \<open>Properties\<close>

lemma py_slice_serial_eq: "6 \<le> length f \<Longrightarrow> py_slice f (- 6) (- 4) = slice f (length f - 6) (length f - 4)"
  by (simp add: py_slice_def clamp_index_def slice_def nat_diff_distrib')

text \<open>
  C21. Every GT06 frame long enough to hold a serial number can be acknowledged, and the
  acknowledgement is what the device waits for: a complete frame of ten bytes with a correct
  checksum that echoes the frame's protocol number and serial number.
\<close>

theorem ack_echoes:
  assumes "gt06_frame f" and "6 \<le> length f"
  shows "\<exists>a. build_ack f = Inr a \<and> gt06_frame a \<and> gt06_sealed a \<and> length a = 10 \<and>
    a ! 3 = (if take 2 f = [0x79, 0x79] then f ! 4 else f ! 3) \<and>
    slice a 4 6 = slice f (length f - 6) (length f - 4)"
proof -
  obtain a where a: "build_ack f = Inr a" using build_ack_total [OF assms(1)] by blast
  then obtain p where sh:
    "a = GT06_START @ (0x05 # p # py_slice f (- 6) (- 4)) @
         be_bytes 2 (crc16_x25 (0x05 # p # py_slice f (- 6) (- 4))) @ GT06_STOP"
    and p: "p = (if take 2 f = [0x79, 0x79] then f ! 4 else f ! 3)"
    using assms(2) by (auto simp: build_ack_def Let_def result_simps split: if_splits)
  have l: "length (py_slice f (- 6) (- 4)) = 2" using assms(2) by (rule py_slice_serial)
  have "slice a 4 6 = py_slice f (- 6) (- 4)" by (simp add: sh slice_def GT06_START_def l)
  moreover have "a ! 3 = p" by (simp add: sh GT06_START_def)
  ultimately show ?thesis
    using a build_ack_shape [OF assms a] p py_slice_serial_eq [OF assms(2)] by auto
qed

theorem ack_echoes_witness:
  "\<exists>a. build_ack [0x78, 0x78, 0x05, 0x13, 0xAB, 0xCD, 0, 0, 0x0D, 0x0A] = Inr a \<and> gt06_sealed a \<and>
     a ! 3 = 0x13 \<and> slice a 4 6 = [0xAB, 0xCD]"
proof -
  have "gt06_frame [0x78, 0x78, 0x05, 0x13, 0xAB, 0xCD, 0, 0, 0x0D, 0x0A]" by (simp add: gt06_frame_def)
  from ack_echoes [OF this] show ?thesis by (auto simp: slice_def)
qed

text \<open>A raw coordinate as a float, with its error.\<close>

lemma raw_degrees:
  assumes "c < 2 ^ 32"
  shows "int_div (int c) 1800000 = Fin (rnd64 (of_nat c / 1800000))"
    "\<bar>rnd64 (of_nat c / 1800000) - of_nat c / 1800000\<bar> \<le> 2 powi (- 42)"
proof -
  have c: "(of_nat c :: rat) < 4294967296"
    using assms of_nat_less_iff [of c 4294967296, where ?'a = rat] by simp
  then have lt: "\<bar>(of_nat c :: rat) / 1800000\<bar> < 2 powi 12" by simp
  then show "\<bar>rnd64 (of_nat c / 1800000) - of_nat c / 1800000\<bar> \<le> 2 powi (- 42)"
    using rnd64_error_below [of "of_nat c / 1800000" 12] by simp
  have "\<bar>(of_nat c :: rat) / 1800000\<bar> \<le> of_int 4096" using c by simp
  from to_float_small [OF this] show "int_div (int c) 1800000 = Fin (rnd64 (of_nat c / 1800000))"
    by (simp add: int_div_def)
qed

lemma degrees_near:
  assumes "c < 2 ^ 32"
  shows "\<exists>x. degrees c negative = Fin x \<and>
    \<bar>x - (if negative then - (of_nat c / 1800000) else of_nat c / 1800000)\<bar> \<le> 2 powi (- 42)"
proof -
  let ?r = "rnd64 (of_nat c / 1800000)"
  have "degrees c negative = Fin (if negative then - ?r else ?r)"
    using raw_degrees(1) [OF assms] by (simp add: degrees_def Let_def)
  moreover have "\<bar>(if negative then - ?r else ?r) - (if negative then - (of_nat c / 1800000) else of_nat c / 1800000)\<bar>
      = \<bar>?r - of_nat c / 1800000\<bar>"
    by (simp only: if_split abs_minus_commute minus_diff_minus abs_minus_cancel split: if_split) simp
  ultimately show ?thesis using raw_degrees(2) [OF assms] by metis
qed

lemma be_val_four: "be_val (slice raw i (i + 4)) < 2 ^ 32"
proof -
  have "length (slice raw i (i + 4)) \<le> 4" by (simp add: slice_def)
  then have "(256 :: nat) ^ length (slice raw i (i + 4)) \<le> 256 ^ 4" by (rule power_increasing) simp
  then show ?thesis using be_val_bound [of "slice raw i (i + 4)"] by simp
qed

text \<open>
  C29. A decoded GT06 position has the sign of its hemisphere (bit 10 of the course word set: north;
  bit 11 set: west), and its coordinates are the raw integers divided by 1800000 to within
  2 to the power -42 of a degree. This is the polarity of the code and of the comment at its test;
  the comment above (line 79) and \<^verbatim>\<open>docs/protocols.md\<close> call bit 10 south, and the README says that
  no sign is applied.
\<close>

theorem gt06_position_exact:
  assumes "parse_location_packet raw = Inr loc"
  shows "\<exists>x y. loc_latitude loc = Fin x \<and> loc_longitude loc = Fin y \<and>
    (let course = be_val (slice raw 20 22);
         lat = of_nat (be_val (slice raw 11 15)) / 1800000;
         lon = of_nat (be_val (slice raw 15 19)) / 1800000
     in \<bar>x - (if course AND 0x0400 = 0 then - lat else lat)\<bar> \<le> 2 powi (- 42) \<and>
        \<bar>y - (if course AND 0x0800 \<noteq> 0 then - lon else lon)\<bar> \<le> 2 powi (- 42))"
proof -
  from assms have l: "loc_latitude loc = degrees (be_val (slice raw 11 15)) (\<not> flag (be_val (slice raw 20 22)) 0x0400)"
    "loc_longitude loc = degrees (be_val (slice raw 15 19)) (flag (be_val (slice raw 20 22)) 0x0800)"
    by (auto simp: parse_location_packet_def Let_def result_simps)
  have b: "be_val (slice raw 11 15) < 2 ^ 32" "be_val (slice raw 15 19) < 2 ^ 32"
    using be_val_four [of raw 11] be_val_four [of raw 15] by simp_all
  let ?c = "be_val (slice raw 20 22)"
  obtain x where "loc_latitude loc = Fin x" "\<bar>x - (if \<not> flag ?c 0x0400 then - (of_nat (be_val (slice raw 11 15)) / 1800000)
      else of_nat (be_val (slice raw 11 15)) / 1800000)\<bar> \<le> 2 powi (- 42)"
    using degrees_near [OF b(1)] l(1) by metis
  moreover obtain y where "loc_longitude loc = Fin y" "\<bar>y - (if flag ?c 0x0800 then - (of_nat (be_val (slice raw 15 19)) / 1800000)
      else of_nat (be_val (slice raw 15 19)) / 1800000)\<bar> \<le> 2 powi (- 42)"
    using degrees_near [OF b(2)] l(2) by metis
  ultimately show ?thesis by (simp only: flag_def Let_def not_not) blast
qed

theorem gt06_position_exact_witness:
  "let raw = [0x78, 0x78, 0x1F, 0x12, 23, 10, 5, 12, 30, 15, 0xC8, 0x00, 0xC0, 0x42, 0xC0,
              0x08, 0x95, 0x44, 0x00, 50, 0x14, 0x00]
   in \<exists>loc x y. parse_location_packet raw = Inr loc \<and> loc_latitude loc = Fin x \<and> loc_longitude loc = Fin y \<and>
        \<bar>x - 7\<bar> \<le> 2 powi (- 42) \<and> \<bar>y - 80\<bar> \<le> 2 powi (- 42)"
proof -
  let ?raw = "[0x78, 0x78, 0x1F, 0x12, 23, 10, 5, 12, 30, 15, 0xC8, 0x00, 0xC0, 0x42, 0xC0,
              0x08, 0x95, 0x44, 0x00, 50, 0x14, 0x00] :: bytes"
  have "parse_timestamp ?raw = mk_datetime 2023 10 5 12 30 15" by (simp add: parse_timestamp_def)
  moreover have "valid_date 2023 10 5" "valid_time 12 30 15" by code_simp+
  then have "\<exists>t. mk_datetime 2023 10 5 12 30 15 = Inr t" by (simp add: mk_datetime_def)
  ultimately obtain loc where loc: "parse_location_packet ?raw = Inr loc"
    by (auto simp: parse_location_packet_def Let_def)
  have v: "be_val (slice ?raw 11 15) = 12600000" "be_val (slice ?raw 15 19) = 144000000"
    "be_val (slice ?raw 20 22) = 5120"
    by (simp_all add: slice_def be_val_def)
  have a: "((5120 :: nat) AND 0x0400 = 0) = False" "((5120 :: nat) AND 0x0800 \<noteq> 0) = False" by simp_all
  have n: "(of_nat 12600000 :: rat) / 1800000 = 7" "(of_nat 144000000 :: rat) / 1800000 = 80" by simp_all
  from gt06_position_exact [OF loc] obtain x y where
    "loc_latitude loc = Fin x" "loc_longitude loc = Fin y"
    "\<bar>x - 7\<bar> \<le> 2 powi (- 42)" "\<bar>y - 80\<bar> \<le> 2 powi (- 42)"
    unfolding Let_def v a n if_False by blast
  with loc show ?thesis unfolding Let_def by blast
qed

end
