(* ===== verification/Decoders.thy ===== *)
theory Decoders
  imports World Py_Number V5_Parser
begin

text \<open>
  What the gateway makes of the text a GT06 device sends: the configuration decoders (decoders/*.py
  and parsers/information_interpreter.py) and the parser of command replies
  (parsers/command_response_parser.py). A decoded dictionary is a JSON object in key order.
\<close>

section \<open>Reading a dictionary of strings\<close>

definition json_opt :: "string option \<Rightarrow> json" where
  "json_opt v = (case v of None \<Rightarrow> JNull | Some s \<Rightarrow> JStr s)"

text \<open>\<^verbatim>\<open>values.get(key)\<close>.\<close>

definition vget :: "dict \<Rightarrow> string \<Rightarrow> json" where
  "vget vs key = json_opt (map_of vs key)"

text \<open>\<^verbatim>\<open>values.get(key, default)\<close>.\<close>

definition vget_or :: "dict \<Rightarrow> string \<Rightarrow> string \<Rightarrow> string" where
  "vget_or vs key dflt = (case map_of vs key of None \<Rightarrow> dflt | Some s \<Rightarrow> s)"

section \<open>decoders/*.py\<close>

text \<open>\<^verbatim>\<open>bool(value & mask)\<close> on a Python integer, which has no width.\<close>

definition int_flag :: "int \<Rightarrow> nat \<Rightarrow> json" where
  "int_flag v m = JBool (v AND int m \<noteq> 0)"

definition decode_alarm_group_1 :: "int \<Rightarrow> json" where
  "decode_alarm_group_1 v = JObj
     [(''sos_alarm'', int_flag v 0x01), (''power_cut_alarm'', int_flag v 0x02),
      (''shock_alarm'', int_flag v 0x04), (''low_battery_alarm'', int_flag v 0x08),
      (''overspeed_alarm'', int_flag v 0x10), (''geofence_alarm'', int_flag v 0x20),
      (''move_alarm'', int_flag v 0x40), (''acc_alarm'', int_flag v 0x80)]"

definition decode_bits :: "int \<Rightarrow> json" where
  "decode_bits v = JObj
     [(''bit0'', int_flag v 0x01), (''bit1'', int_flag v 0x02), (''bit2'', int_flag v 0x04),
      (''bit3'', int_flag v 0x08), (''bit4'', int_flag v 0x10), (''bit5'', int_flag v 0x20),
      (''bit6'', int_flag v 0x40), (''bit7'', int_flag v 0x80)]"

definition decode_alarm_group_2 :: "int \<Rightarrow> json" where
  "decode_alarm_group_2 v = decode_bits v"

definition decode_alarm_group_3 :: "int \<Rightarrow> json" where
  "decode_alarm_group_3 v = decode_bits v"

definition decode_alarm_configuration :: "dict \<Rightarrow> json result" where
  "decode_alarm_configuration vs =
     bindR (py_int 16 (vget_or vs ''ALM1'' ''00'')) (\<lambda>alm1.
     bindR (py_int 16 (vget_or vs ''ALM2'' ''00'')) (\<lambda>alm2.
     bindR (py_int 16 (vget_or vs ''ALM3'' ''00'')) (\<lambda>alm3.
       Inr (JObj [(''alarm_group_1'', decode_alarm_group_1 alm1),
                  (''alarm_group_2'', decode_alarm_group_2 alm2),
                  (''alarm_group_3'', decode_alarm_group_3 alm3)]))))"

definition decode_device_settings :: "dict \<Rightarrow> json" where
  "decode_device_settings vs = JObj
     [(''timezone'', vget vs ''GMT''), (''language'', vget vs ''LANG''),
      (''work_mode'', vget vs ''MODE''), (''acc_mode'', vget vs ''ACC''),
      (''sleep_mode'', vget vs ''SLEEP''), (''led_mode'', vget vs ''LED''),
      (''heartbeat_interval'', vget vs ''HEART''), (''upload_interval'', vget vs ''UPLOAD'')]"

definition decode_geofence :: "string option \<Rightarrow> json result" where
  "decode_geofence value =
     (case value of
        None \<Rightarrow> Inr JNull
      | Some v \<Rightarrow>
          (if v = [] then Inr JNull
           else (let parts = split_on (CHR '','') v
                 in if length parts < 8 then Inr (JStr v)
                    else bindR (py_int 10 (parts ! 2)) (\<lambda>radius.
                         bindR (py_float (parts ! 3)) (\<lambda>lat.
                         bindR (py_float (parts ! 4)) (\<lambda>lon.
                         bindR (py_int 10 (parts ! 7)) (\<lambda>index.
                           Inr (JObj [(''enabled'', JBool (parts ! 1 = ''ON'')),
                                      (''radius'', JInt radius), (''latitude'', JFloat lat),
                                      (''longitude'', JFloat lon), (''trigger'', JStr (parts ! 6)),
                                      (''index'', JInt index)]))))))))"

definition decode_gps_configuration :: "dict \<Rightarrow> json" where
  "decode_gps_configuration vs = JObj
     [(''filter'', vget vs ''FILTER''), (''accuracy'', vget vs ''GPSACC''),
      (''interval'', vget vs ''INTERVAL'')]"

definition decode_network_configuration :: "dict \<Rightarrow> json" where
  "decode_network_configuration vs = JObj
     [(''apn'', vget vs ''APN''), (''apn_username'', vget vs ''APNUSER''),
      (''apn_password'', vget vs ''APNPWD''), (''server_ip'', vget vs ''IP''),
      (''server_domain'', vget vs ''DOMAIN''), (''server_port'', vget vs ''PORT''),
      (''dns'', vget vs ''DNS''), (''protocol'', vget vs ''PROTOCOL'')]"

definition decode_phone_numbers :: "dict \<Rightarrow> (string \<times> json) list" where
  "decode_phone_numbers vs =
     [(''sos_number'', vget vs ''SOS''), (''center_number'', vget vs ''CENTER'')]"

definition decode_sim_information :: "dict \<Rightarrow> json" where
  "decode_sim_information vs = JObj
     [(''iccid'', vget vs ''ICCID''), (''imsi'', vget vs ''IMSI''), (''operator'', vget vs ''OP''),
      (''phone_number'', vget vs ''PHONE'')]"

definition decode_upload_mode :: "string option \<Rightarrow> json" where
  "decode_upload_mode value =
     (case value of
        None \<Rightarrow> JNull
      | Some v \<Rightarrow> JStr (if v = ''00'' then ''Always Upload'' else if v = ''01'' then ''Smart Upload''
                       else if v = ''02'' then ''Sleep Upload''
                       else if v = ''03'' then ''ACC Trigger Upload'' else v))"

definition decode_information :: "dict \<Rightarrow> (string \<times> json) list result" where
  "decode_information vs =
     bindR (decode_geofence (map_of vs ''FENCE'')) (\<lambda>geofence.
     bindR (decode_alarm_configuration vs) (\<lambda>alarms.
       Inr ([(''upload_mode'', decode_upload_mode (map_of vs ''DYD'')), (''geofence'', geofence)]
            @ decode_phone_numbers vs
            @ [(''network'', decode_network_configuration vs),
               (''device_settings'', decode_device_settings vs),
               (''sim'', decode_sim_information vs), (''gps'', decode_gps_configuration vs),
               (''alarm_configuration'', alarms)])))"

definition interpret_information :: "dict \<Rightarrow> (string \<times> json) list" where
  "interpret_information vs =
     [(''alarm_1'', vget vs ''ALM1''), (''alarm_2'', vget vs ''ALM2''), (''alarm_3'', vget vs ''ALM3''),
      (''status'', vget vs ''STA1''), (''upload_mode'', vget vs ''DYD''),
      (''sos_number'', vget vs ''SOS''), (''center_number'', vget vs ''CENTER''),
      (''geofence'', vget vs ''FENCE'')]"

text \<open>A malformed value is the only failure: ValueError, never another exception.\<close>

lemma decode_information_error: "decode_information vs = Inl e \<Longrightarrow> e = ValueError"
  by (auto simp: decode_information_def decode_geofence_def decode_alarm_configuration_def
      result_simps Let_def dest: py_int_value_error py_float_value_error
      split: option.splits if_splits)

text \<open>Without FENCE and alarm masks nothing can fail.\<close>

lemma decode_information_total:
  assumes "map_of vs ''FENCE'' = None" and "\<forall>k \<in> {''ALM1'', ''ALM2'', ''ALM3''}. map_of vs k = None"
  shows "\<exists>cfg. decode_information vs = Inr cfg"
proof -
  have "py_int 16 ''00'' = Inr 0" by code_simp
  with assms show ?thesis
    by (simp add: decode_information_def decode_geofence_def decode_alarm_configuration_def vget_or_def)
qed

section \<open>Regular expressions of the reply parser\<close>

text \<open>
  \<^verbatim>\<open>re.search\<close> for a literal followed by a pattern: the first place where both match.
\<close>

fun search_after :: "string \<Rightarrow> (string \<Rightarrow> 'a option) \<Rightarrow> string \<Rightarrow> 'a option" where
  "search_after lit f [] = (if lit = [] then f [] else None)"
| "search_after lit f (c # cs) =
     (case (if starts_with lit (c # cs) then f (drop (length lit) (c # cs)) else None) of
        Some x \<Rightarrow> Some x
      | None \<Rightarrow> search_after lit f cs)"

definition nonempty_span :: "(char \<Rightarrow> bool) \<Rightarrow> string \<Rightarrow> string option" where
  "nonempty_span p s = (let w = takeWhile p s in if w = [] then None else Some w)"

text \<open>\<^verbatim>\<open>([NS])([\\d.]+)\<close> for the letters \<open>ls\<close>.\<close>

definition hemi_number :: "string \<Rightarrow> string \<Rightarrow> (char \<times> string) option" where
  "hemi_number ls s =
     (case s of
        [] \<Rightarrow> None
      | c # cs \<Rightarrow> (if c \<in> set ls
                   then map_option (\<lambda>w. (c, w)) (nonempty_span (\<lambda>d. is_digit_char d \<or> d = CHR ''.'') cs)
                   else None))"

text \<open>\<^verbatim>\<open>datetime.strptime(s, "%Y-%m-%d %H:%M:%S")\<close>, and \<^verbatim>\<open>str\<close> of what it returns.\<close>

definition two_digit_field :: "nat \<Rightarrow> nat \<Rightarrow> string \<Rightarrow> nat option" where
  "two_digit_field lo hi s =
     (if is_digits s \<and> length s \<le> 2 \<and> lo \<le> int_of_digits s \<and> int_of_digits s \<le> hi
      then Some (int_of_digits s) else None)"

definition day_field :: "string \<Rightarrow> nat option \<times> string" where
  "day_field s =
     (case s of
        c # d # cs \<Rightarrow> (if c = CHR '' '' \<and> is_digit_char d then (two_digit_field 1 9 [d], cs)
                       else (two_digit_field 1 31 (fst (span_digits s)), snd (span_digits s)))
      | _ \<Rightarrow> (None, []))"

definition strptime_str :: "string \<Rightarrow> string option" where
  "strptime_str s =
     (let (y, f1, r1) = partition_on (CHR ''-'') s;
          (mo, f2, r2) = partition_on (CHR ''-'') r1;
          (day, r3) = day_field r2;
          r4 = dropWhile is_space_char r3;
          (h, f3, r5) = partition_on (CHR '':'') r4;
          (mi, f4, sec) = partition_on (CHR '':'') r5
      in if \<not> (f1 \<and> f2 \<and> f3 \<and> f4 \<and> is_digits y \<and> length y = 4 \<and> r4 \<noteq> r3) then None
         else case (two_digit_field 1 12 mo, day, two_digit_field 0 23 h, two_digit_field 0 59 mi,
                    two_digit_field 0 61 sec) of
                (Some m, Some d, Some hh, Some mm, Some ss) \<Rightarrow>
                  (case mk_datetime (int_of_digits y) m d hh mm ss of
                     Inl _ \<Rightarrow> None
                   | Inr _ \<Rightarrow> Some (pad 4 (int_of_digits y) @ ''-'' @ pad 2 m @ ''-'' @ pad 2 d @ '' ''
                                  @ pad 2 hh @ '':'' @ pad 2 mm @ '':'' @ pad 2 ss))
              | _ \<Rightarrow> None)"

section \<open>parsers/command_response_parser.py\<close>

record command_response =
  resp_command :: string
  resp_success :: bool
  resp_raw_text :: string
  resp_data :: json

definition is_control :: "char \<Rightarrow> bool" where
  "is_control c \<longleftrightarrow> (let n = char_code c in n \<le> 8 \<or> n = 11 \<or> n = 12 \<or> 14 \<le> n \<and> n \<le> 31)"

definition response_text :: "bytes \<Rightarrow> string" where
  "response_text packet =
     (let payload = (if take 2 packet = [0x79, 0x79] then py_slice packet 5 (- 6)
                     else py_slice packet 4 (- 6))
      in strip (filter (\<lambda>c. \<not> is_control c) (strip (decode_ascii_ignore payload))))"

definition signed_float :: "char \<Rightarrow> (char \<times> string) option \<Rightarrow> json result" where
  "signed_float negative m =
     (case m of
        None \<Rightarrow> Inr JNull
      | Some (c, w) \<Rightarrow> bindR (py_float w) (\<lambda>v. Inr (JFloat (if c = negative then f_neg v else v))))"

definition opt_int :: "string option \<Rightarrow> json result" where
  "opt_int m = (case m of None \<Rightarrow> Inr JNull | Some w \<Rightarrow> bindR (py_int 10 w) (\<lambda>v. Inr (JInt v)))"

definition parse_where :: "string \<Rightarrow> json result" where
  "parse_where text =
     bindR (signed_float (CHR ''S'') (search_after ''Lat:'' (hemi_number ''NS'') text)) (\<lambda>lat.
     bindR (signed_float (CHR ''W'') (search_after ''Lon:'' (hemi_number ''EW'') text)) (\<lambda>lon.
     bindR (opt_int (search_after ''Course:'' (nonempty_span is_digit_char) text)) (\<lambda>course.
     bindR (opt_int (search_after ''Speed:'' (nonempty_span is_digit_char) text)) (\<lambda>speed.
     (let timestamp =
            (case search_after ''DateTime:'' (nonempty_span (\<lambda>c. char_code c \<noteq> 10)) text of
               None \<Rightarrow> JNull | Some w \<Rightarrow> json_opt (strptime_str (strip w)))
      in Inr (JObj [(''latitude'', lat), (''longitude'', lon), (''course'', course),
                    (''speed'', speed), (''timestamp'', timestamp)]))))))"

text \<open>\<^verbatim>\<open>re.split(r'[;\\n]', text)\<close>, \<^verbatim>\<open>text.splitlines()\<close>, \<^verbatim>\<open>text.replace(sub, "")\<close>.\<close>

fun split_by :: "(char \<Rightarrow> bool) \<Rightarrow> string \<Rightarrow> string list" where
  "split_by p [] = [ [] ]"
| "split_by p (c # cs) =
     (if p c then [] # split_by p cs
      else (case split_by p cs of [] \<Rightarrow> [ [c] ] | w # ws \<Rightarrow> (c # w) # ws))"

definition skip_newline :: "string \<Rightarrow> string" where
  "skip_newline s = (case s of [] \<Rightarrow> [] | c # cs \<Rightarrow> (if char_code c = 10 then cs else s))"

lemma length_skip_newline: "length (skip_newline s) \<le> length s"
  by (cases s) (auto simp: skip_newline_def)

function splitlines :: "string \<Rightarrow> string list" where
  "splitlines [] = []"
| "splitlines (c # cs) =
     (if char_code c = 10 then [] # splitlines cs
      else if char_code c = 13 then [] # splitlines (skip_newline cs)
      else (case splitlines cs of [] \<Rightarrow> [ [c] ] | w # ws \<Rightarrow> (c # w) # ws))"
  by pat_completeness auto
termination by (relation "measure length") (auto simp: less_Suc_eq_le length_skip_newline)

function remove_all :: "string \<Rightarrow> string \<Rightarrow> string" where
  "remove_all sub [] = []"
| "remove_all sub (c # cs) =
     (if sub \<noteq> [] \<and> starts_with sub (c # cs) then remove_all sub (drop (length sub) (c # cs))
      else c # remove_all sub cs)"
  by pat_completeness auto
termination by (relation "measure (length \<circ> snd)") auto

text \<open>\<^verbatim>\<open>key:value\<close> pairs; a later key overwrites.\<close>

fun collect_pairs :: "dict \<Rightarrow> string list \<Rightarrow> dict" where
  "collect_pairs vs [] = vs"
| "collect_pairs vs (part # parts) =
     (case partition_on (CHR '':'') part of
        (key, found, val) \<Rightarrow>
          collect_pairs (if found then AList.update (strip key) (strip val) vs else vs) parts)"

definition json_dict :: "dict \<Rightarrow> json" where
  "json_dict vs = JObj (map (\<lambda>(k, v). (k, JStr v)) vs)"

definition parse_command_response :: "bytes \<Rightarrow> command_response result" where
  "parse_command_response packet =
     (let text = response_text packet;
          reply = (\<lambda>command data. \<lparr> resp_command = command, resp_success = True,
                                  resp_raw_text = text, resp_data = data \<rparr>)
      in if contains ''position!'' (lower text)
         then bindR (parse_where text) (\<lambda>data. Inr (reply ''WHERE'' data))
         else if contains ''[STATUS]'' text \<or> contains ''Volt:'' text \<or> contains ''GPRS:'' text
                 \<or> contains ''Battery:'' text
         then Inr (reply ''STATUS'' (json_dict (collect_pairs []
                (map strip (split_by (\<lambda>c. c = CHR '';'' \<or> char_code c = 10) text)))))
         else if contains ''[VERSION]'' text
         then Inr (reply ''VERSION''
                (JObj [(''firmware'', JStr (strip (remove_all ''[VERSION]'' text)))]))
         else if contains ''[PARAM]'' text
         then Inr (reply ''PARAM'' (json_dict (collect_pairs [] (splitlines text))))
         else Inr (reply ''UNKNOWN'' (JObj [])))"

text \<open>Only a malformed number in a position reply can fail, with ValueError.\<close>

lemma parse_command_response_error: "parse_command_response p = Inl e \<Longrightarrow> e = ValueError"
  by (auto simp: parse_command_response_def parse_where_def signed_float_def opt_int_def
      result_simps Let_def dest: py_int_value_error py_float_value_error
      split: option.splits if_splits)

end
