(* ===== verification/Gps103_Parser.thy ===== *)
theory Gps103_Parser
  imports Prelude Py_Text Py_Number Py_Time Framing Decoders
begin

text \<open>
  parsers/gps103_parser.py: classification and parsing of the text messages of the GPS103 family.
  The framer of the same file is in the theory Framing. A message has been decoded as ASCII and
  stripped before any of the parsers sees it.
\<close>

section \<open>Classification\<close>

datatype kind = KLogin | KHeartbeat | KTracker | KUnknown

text \<open>\<^verbatim>\<open>^\d{10,17}$\<close> on stripped text.\<close>

definition is_imei :: "string \<Rightarrow> bool" where
  "is_imei s \<longleftrightarrow> is_digits s \<and> 10 \<le> length s \<and> length s \<le> 17"

definition gps103_classify :: "bytes \<Rightarrow> kind \<times> string" where
  "gps103_classify raw =
     (case decode_ascii raw of
        Inl _ \<Rightarrow> (KUnknown, [])
      | Inr decoded \<Rightarrow>
          (let text = strip decoded
           in if starts_with ''##'' text \<and> contains ''imei:'' text then (KLogin, text)
              else if is_imei text then (KHeartbeat, text)
              else if starts_with ''imei:'' text then (KTracker, text)
              else (KUnknown, text)))"

text \<open>\<^verbatim>\<open>(\d{10,17})\<close>, greedy, right after the literal.\<close>

definition imei_run :: "string \<Rightarrow> string option" where
  "imei_run s = (let w = take 17 (takeWhile is_digit_char s) in if 10 \<le> length w then Some w else None)"

definition gps103_parse_login :: "string \<Rightarrow> string result" where
  "gps103_parse_login text =
     (case search_after ''imei:'' imei_run text of
        None \<Rightarrow> Inl Gps103ParseError | Some imei \<Rightarrow> Inr imei)"

definition gps103_parse_heartbeat :: "string \<Rightarrow> string result" where
  "gps103_parse_heartbeat text = (if is_imei text then Inr text else Inl Gps103ParseError)"

section \<open>Fields\<close>

definition field :: "string list \<Rightarrow> nat \<Rightarrow> string" where
  "field fs i = (if i < length fs then strip (fs ! i) else [])"

definition opt_float :: "string \<Rightarrow> pyfloat option" where
  "opt_float s = (case py_float s of Inl _ \<Rightarrow> None | Inr v \<Rightarrow> Some v)"

text \<open>
  \<^verbatim>\<open>degrees + minutes / 60.0\<close>: the conversion of the minutes, the division and the sum each round;
  an integer too large for a float is OverflowError.
\<close>

definition int_to_float :: "int \<Rightarrow> pyfloat result" where
  "int_to_float n = (case to_float (of_int n) of Fin x \<Rightarrow> Inr (Fin x) | _ \<Rightarrow> Inl OverflowError)"

definition f_div60 :: "pyfloat \<Rightarrow> pyfloat" where
  "f_div60 v = (case v of Fin x \<Rightarrow> to_float (x / 60) | w \<Rightarrow> w)"

definition nmea_to_degrees :: "string \<Rightarrow> string \<Rightarrow> pyfloat option result" where
  "nmea_to_degrees val hemisphere =
     (if val = [] \<or> hemisphere \<notin> {''N'', ''S'', ''E'', ''W''} then Inr None
      else (let (head, dot, fraction) = partition_on (CHR ''.'') val
            in if \<not> is_digits head \<or> length head < 3 \<or> (fraction \<noteq> [] \<and> \<not> is_digits fraction)
               then Inr None
               else bindR (py_int 10 (take (length head - 2) head)) (\<lambda>degs.
                    bindR (py_float (drop (length head - 2) head @
                             (if fraction \<noteq> [] then ''.'' @ fraction else []))) (\<lambda>minutes.
                      if f_le (Fin 60) minutes then Inr None
                      else bindR (int_to_float degs) (\<lambda>whole.
                           (let res = f_add whole (f_div60 minutes)
                            in Inr (Some (if hemisphere \<in> {''S'', ''W''} then f_neg res else res))))))))"

definition parse_local_datetime :: "string \<Rightarrow> datetime option" where
  "parse_local_datetime val =
     (if \<not> is_digits val \<or> length val \<notin> {10, 12} then None
      else (let n = (\<lambda>i. int_of_digits (slice val i (i + 2)))
            in case mk_datetime (2000 + n 0) (n 2) (n 4) (n 6) (n 8)
                      (if length val = 12 then n 10 else 0) of
                 Inl _ \<Rightarrow> None | Inr t \<Rightarrow> Some t))"

definition parse_utc_time :: "string \<Rightarrow> (nat \<times> nat \<times> nat) option" where
  "parse_utc_time val =
     (let head = hd (split_on (CHR ''.'') val)
      in if \<not> is_digits head \<or> length head \<noteq> 6 then None
         else (let h = int_of_digits (slice head 0 2); m = int_of_digits (slice head 2 4);
                   s = int_of_digits (slice head 4 6)
               in if h > 23 \<or> m > 59 \<or> s > 59 then None else Some (h, m, s)))"

text \<open>The two while loops that wrap the offset into \<open>(-720, 720]\<close>.\<close>

function wrap_down :: "int \<Rightarrow> int" where
  "wrap_down offset = (if offset > 720 then wrap_down (offset - 1440) else offset)"
  by pat_completeness auto
termination by (relation "measure nat") auto

function wrap_up :: "int \<Rightarrow> int" where
  "wrap_up offset = (if offset \<le> - 720 then wrap_up (offset + 1440) else offset)"
  by pat_completeness auto
termination by (relation "measure (\<lambda>i. nat (721 - i))") auto

declare wrap_down.simps [simp del] wrap_up.simps [simp del]

definition resolve_utc_timestamp :: "string \<Rightarrow> string \<Rightarrow> datetime option result" where
  "resolve_utc_timestamp local_value utc_value =
     (case (parse_local_datetime local_value, parse_utc_time utc_value) of
        (Some loc, Some (h, m, s)) \<Rightarrow>
          (let local_minutes = dt_hour loc * 60 + dt_minute loc;
               utc_minutes = int h * 60 + int m;
               offset = wrap_up (wrap_down (local_minutes - utc_minutes))
           in bindR (sub_minutes (replace_second loc 0) offset) (\<lambda>shifted.
                Inr (Some (replace_second shifted (int s)))))
      | _ \<Rightarrow> Inr None)"

section \<open>Position and alarm reports\<close>

text \<open>The known keywords; a plain position report has no alarm.\<close>

definition ALARM_NAMES :: "(string \<times> string option) list" where
  "ALARM_NAMES =
     [(''tracker'', None), ([], None), (''help me'', Some ''SOS''),
      (''low battery'', Some ''LOW_BATTERY''), (''stockade'', Some ''GEOFENCE''),
      (''move'', Some ''MOVE''), (''speed'', Some ''OVERSPEED''), (''ac alarm'', Some ''POWER_CUT''),
      (''door alarm'', Some ''DOOR_OPEN''), (''sensor alarm'', Some ''SENSOR''),
      (''acc on'', Some ''ACC_ON''), (''acc off'', Some ''ACC_OFF'')]"

definition alarm_name_of :: "string \<Rightarrow> string option" where
  "alarm_name_of keyword = (case map_of ALARM_NAMES keyword of None \<Rightarrow> None | Some a \<Rightarrow> a)"

record tracker =
  tk_imei :: string
  tk_keyword :: string
  tk_alarm_name :: "string option"
  tk_known_keyword :: bool
  tk_fix_type :: "string option"
  tk_valid_fix :: bool
  tk_timestamp :: "datetime option"
  tk_latitude :: "pyfloat option"
  tk_longitude :: "pyfloat option"
  tk_speed :: "pyfloat option"
  tk_heading :: "pyfloat option"
  tk_ignition :: "bool option"

definition KNOTS_TO_KMH :: rat where
  "KNOTS_TO_KMH = rnd64 1.852"

definition keyword_ignition :: "string \<Rightarrow> bool option" where
  "keyword_ignition keyword =
     (if keyword = ''acc on'' then Some True else if keyword = ''acc off'' then Some False else None)"

definition tracker_speed :: "bool \<Rightarrow> string \<Rightarrow> pyfloat" where
  "tracker_speed in_kmh val =
     (case opt_float val of
        None \<Rightarrow> Fin 0
      | Some v \<Rightarrow> py_round 2 (if in_kmh then v else f_scale KNOTS_TO_KMH v))"

definition tracker_ignition :: "string list \<Rightarrow> string \<Rightarrow> bool option" where
  "tracker_ignition fs keyword =
     (let acc_flag = field fs 14
      in if acc_flag \<in> {''0'', ''1''} \<and> keyword_ignition keyword = None then Some (acc_flag = ''1'')
         else keyword_ignition keyword)"

definition parse_tracker :: "bool \<Rightarrow> string \<Rightarrow> tracker result" where
  "parse_tracker in_kmh text =
     (if \<not> starts_with ''imei:'' text then Inl Gps103ParseError
      else (let fs = split_on (CHR '','') text;
                imei = strip (drop 5 (hd fs))
            in if \<not> is_imei imei then Inl Gps103ParseError
               else (let keyword = lower (field fs 1);
                         fix_type = upper (field fs 4);
                         result = \<lparr> tk_imei = imei, tk_keyword = keyword,
                                    tk_alarm_name = alarm_name_of keyword,
                                    tk_known_keyword = (map_of ALARM_NAMES keyword \<noteq> None),
                                    tk_fix_type = (if fix_type = [] then None else Some fix_type),
                                    tk_valid_fix = False, tk_timestamp = None,
                                    tk_latitude = None, tk_longitude = None,
                                    tk_speed = None, tk_heading = None,
                                    tk_ignition = keyword_ignition keyword \<rparr>
                     in if fix_type \<noteq> ''F'' then Inr result
                        else bindR (nmea_to_degrees (field fs 7) (upper (field fs 8))) (\<lambda>latitude.
                             bindR (nmea_to_degrees (field fs 9) (upper (field fs 10))) (\<lambda>longitude.
                               if upper (field fs 6) \<noteq> ''A'' \<or> latitude = None \<or> longitude = None
                               then Inr result
                               else bindR (resolve_utc_timestamp (field fs 2) (field fs 5)) (\<lambda>ts.
                                 Inr (result \<lparr> tk_valid_fix := True, tk_timestamp := ts,
                                        tk_latitude := latitude, tk_longitude := longitude,
                                        tk_speed := Some (tracker_speed in_kmh (field fs 11)),
                                        tk_heading := Some (case opt_float (field fs 12) of
                                                              None \<Rightarrow> Fin 0 | Some v \<Rightarrow> v),
                                        tk_ignition := tracker_ignition fs keyword \<rparr>)))))))"

definition build_help_me_ack :: "string \<Rightarrow> bytes result" where
  "build_help_me_ack imei = encode_ascii (''**,imei:'' @ imei @ '',E;'')"

definition LOGIN_REPLY :: bytes where
  "LOGIN_REPLY = [0x4C, 0x4F, 0x41, 0x44]"

definition HEARTBEAT_REPLY :: bytes where
  "HEARTBEAT_REPLY = [0x4F, 0x4E]"

section \<open>The timestamp\<close>

lemma wrap_down_spec: "wrap_down x \<le> 720 \<and> (\<exists>k. wrap_down x = x - 1440 * k) \<and> (x \<le> 720 \<or> - 720 < wrap_down x)"
proof (induction x rule: wrap_down.induct)
  case (1 x)
  show ?case
  proof (cases "x > 720")
    case True
    then have e: "wrap_down x = wrap_down (x - 1440)" by (subst wrap_down.simps) simp
    from 1 [OF True] obtain k where "wrap_down (x - 1440) = x - 1440 * (k + 1)"
      by (auto simp: algebra_simps)
    moreover have "- 720 < wrap_down (x - 1440)"
    proof (cases "x - 1440 \<le> 720")
      case True2: True
      then have "wrap_down (x - 1440) = x - 1440" by (subst wrap_down.simps) simp
      with True show ?thesis by simp
    next
      case False
      with 1 [OF True] show ?thesis by auto
    qed
    ultimately show ?thesis using 1 [OF True] e by metis
  next
    case False
    then have "wrap_down x = x" by (subst wrap_down.simps) simp
    with False show ?thesis by (auto intro: exI [of _ 0])
  qed
qed

lemma wrap_up_spec: "x \<le> 720 \<Longrightarrow> - 720 < wrap_up x \<and> wrap_up x \<le> 720 \<and> (\<exists>k. wrap_up x = x + 1440 * k)"
proof (induction x rule: wrap_up.induct)
  case (1 x)
  show ?case
  proof (cases "x \<le> - 720")
    case True
    then have e: "wrap_up x = wrap_up (x + 1440)" by (subst wrap_up.simps) simp
    from True have "x + 1440 \<le> 720" by simp
    note IH = 1(1) [OF True this]
    then obtain k where "wrap_up (x + 1440) = x + 1440 * (k + 1)" by (auto simp: algebra_simps)
    with IH show ?thesis by (metis e)
  next
    case False
    then have "wrap_up x = x" by (subst wrap_up.simps) simp
    with False 1 show ?thesis by (auto intro: exI [of _ 0])
  qed
qed

lemma wrap_spec:
  "- 720 < wrap_up (wrap_down x) \<and> wrap_up (wrap_down x) \<le> 720 \<and> (\<exists>k. wrap_up (wrap_down x) = x + 1440 * k)"
proof -
  obtain k where "wrap_down x = x - 1440 * k" using wrap_down_spec [of x] by blast
  moreover obtain l where "wrap_up (wrap_down x) = wrap_down x + 1440 * l"
    using wrap_up_spec [of "wrap_down x"] wrap_down_spec [of x] by blast
  ultimately have "wrap_up (wrap_down x) = x + 1440 * (l - k)" by (simp add: algebra_simps)
  then show ?thesis using wrap_up_spec [of "wrap_down x"] wrap_down_spec [of x] by blast
qed

text \<open>The offset that survives the wrapping is the only one in range.\<close>

lemma wrap_unique:
  assumes "- 720 < k" "k \<le> 720" "x = k + 1440 * q"
  shows "wrap_up (wrap_down x) = k"
proof -
  obtain l where l: "wrap_up (wrap_down x) = x + 1440 * l" and b: "- 720 < wrap_up (wrap_down x)"
    "wrap_up (wrap_down x) \<le> 720" using wrap_spec [of x] by blast
  define z where "z = q + l"
  from l assms(3) have z: "wrap_up (wrap_down x) = k + 1440 * z" by (simp add: z_def algebra_simps)
  with b assms(1,2) have "- 1440 < 1440 * z" "1440 * z < 1440" by simp_all
  then have "z = 0" by simp
  with z show ?thesis by simp
qed

lemma two_digits_le: "int_of_digits [a, b] \<le> 99" if "is_digit_char a" "is_digit_char b"
  using that by (auto simp: int_of_digits_def digit_val_def is_digit_char_def)

lemma parse_local_bounds:
  assumes "parse_local_datetime val = Some t"
  shows "t mod usec = 0 \<and> 721 * (60 * usec) \<le> t \<and> t + 721 * (60 * usec) < int day_count_max * 86400 * usec"
proof -
  let ?n = "\<lambda>i. int_of_digits (slice val i (i + 2))"
  from assms have d: "is_digits val" "length val = 10 \<or> length val = 12"
    by (auto simp: parse_local_datetime_def split: if_splits)
  from assms obtain s where t: "mk_datetime (2000 + ?n 0) (?n 2) (?n 4) (?n 6) (?n 8) s = Inr t"
    by (auto simp: parse_local_datetime_def Let_def split: if_splits sum.splits)
  have "slice val 0 (0 + 2) = [val ! 0, val ! 1]"
    using d(2) by (auto simp: slice_def numeral_2_eq_2 take_Suc_conv_app_nth)
  moreover have "is_digit_char (val ! 0)" "is_digit_char (val ! 1)"
    using d by (auto simp: is_digits_def list_all_iff)
  ultimately have y: "?n 0 \<le> 99" by (simp only: two_digits_le)
  let ?y = "2000 + ?n 0"
  from t have v: "valid_date ?y (?n 2) (?n 4)" and vt: "valid_time (?n 6) (?n 8) s"
    and te: "t = int (seconds_of ?y (?n 2) (?n 4) (?n 6) (?n 8) s) * usec"
    by (simp_all add: mk_datetime_Inr_iff)
  have lo: "1999 * 365 \<le> days_before_year ?y" by (simp add: days_before_year_def Let_def)
  have hi: "days_before_year ?y \<le> 2098 * 365 + 530" using y by (simp add: days_before_year_def Let_def)
  have mb: "days_before_month Y m \<le> m * 31" for Y m
    by (induction m) (auto simp: days_in_month_def)
  have "?n 2 \<le> 12" "?n 4 \<le> 31" using v by (auto simp: valid_date_def days_in_month_def split: if_splits)
  with hi mb [of ?y "?n 2"] lo have
    "1999 * 365 \<le> day_number ?y (?n 2) (?n 4)" "day_number ?y (?n 2) (?n 4) \<le> 2098 * 365 + 530 + 372 + 30"
    by (auto simp: day_number_def)
  with valid_time_seconds [OF vt]
  have "1999 * 365 * 86400 \<le> seconds_of ?y (?n 2) (?n 4) (?n 6) (?n 8) s"
    and "seconds_of ?y (?n 2) (?n 4) (?n 6) (?n 8) s < (2098 * 365 + 530 + 372 + 31) * 86400"
    by (auto simp: seconds_of_def)
  then show ?thesis unfolding te day_count_max_def by auto
qed

lemma parse_utc_bounds: "parse_utc_time val = Some (h, m, s) \<Longrightarrow> h \<le> 23 \<and> m \<le> 59 \<and> s \<le> 59"
  by (auto simp: parse_utc_time_def Let_def split: if_splits)

text \<open>
  The minutes of the local clock and the UTC time of day determine the UTC instant, for every
  offset of at most half a day and across midnight: whatever instant \<open>t\<close> the device meant, that
  is the instant stored.
\<close>

lemma resolve_recovers:
  assumes loc: "parse_local_datetime lv = Some l" and utc: "parse_utc_time uv = Some (h, m, s)"
    and t: "dt_hour t = int h" "dt_minute t = int m" "dt_second t = int s" "t mod usec = 0"
    and o: "l div (60 * usec) = t div (60 * usec) + k" "- 720 < k" "k \<le> 720"
  shows "resolve_utc_timestamp lv uv = Inr (Some t)"
proof -
  let ?M = "l div (60 * usec)" and ?T = "t div (60 * usec)"
  have "dt_hour l * 60 + dt_minute l - (int h * 60 + int m) = ?M mod 1440 - ?T mod 1440"
    using dt_clock [of l] dt_clock [of t] t by simp
  also have "\<dots> = k + 1440 * (?T div 1440 - ?M div 1440)"
    using o(1) div_mult_mod_eq [of ?M 1440] div_mult_mod_eq [of ?T 1440] by (simp add: algebra_simps)
  finally have off: "wrap_up (wrap_down (dt_hour l * 60 + dt_minute l - (int h * 60 + int m))) = k"
    using wrap_unique [OF o(2,3)] by metis
  from parse_local_bounds [OF loc] have l: "l mod usec = 0" "721 * (60 * usec) \<le> l"
    "l + 721 * (60 * usec) < int day_count_max * 86400 * usec" by blast+
  have rl: "replace_second l 0 = ?M * (60 * usec)" by (simp add: replace_second_def l(1))
  have "?M * (60 * usec) \<le> l" "l < ?M * (60 * usec) + 60 * usec"
    using div_mult_mod_eq [of l "60 * usec"] pos_mod_bound [of "60 * usec" l]
      pos_mod_sign [of "60 * usec" l] by linarith+
  with l o have "0 \<le> ?M * (60 * usec) - k * (60 * usec)"
    and "?M * (60 * usec) - k * (60 * usec) < int day_count_max * 86400 * usec"
    by linarith+
  then have sub: "sub_minutes (replace_second l 0) k = Inr (?T * (60 * usec))"
    using o(1) by (simp add: sub_minutes_def rl dt_in_range_def Let_def algebra_simps)
  have "replace_second (?T * (60 * usec)) (int s) = ?T * (60 * usec) + dt_second t * usec"
    by (simp add: replace_second_def t(3))
  also have "\<dots> = (?T * 60 + dt_second t) * usec" by (simp add: algebra_simps)
  also have "\<dots> = t" by (rule dt_decompose [OF t(4), symmetric])
  finally show ?thesis
    using sub off by (simp add: resolve_utc_timestamp_def loc utc Let_def)
qed

text \<open>It never fails, and the result has the device's UTC time of day.\<close>

lemma resolve_total:
  assumes loc: "parse_local_datetime lv = Some l" and utc: "parse_utc_time uv = Some (h, m, s)"
  shows "\<exists>t. resolve_utc_timestamp lv uv = Inr (Some t) \<and>
    dt_hour t = int h \<and> dt_minute t = int m \<and> dt_second t = int s"
proof -
  let ?M = "l div (60 * usec)"
  define q where "q = wrap_up (wrap_down (?M - (int h * 60 + int m)))"
  obtain k where k: "q = ?M - (int h * 60 + int m) + 1440 * k" and b: "- 720 < q" "q \<le> 720"
    using wrap_spec [of "?M - (int h * 60 + int m)"] by (auto simp: q_def)
  define T where "T = int h * 60 + int m - 1440 * k"
  define t where "t = (T * 60 + int s) * usec"
  note u = parse_utc_bounds [OF utc]
  have s: "0 \<le> int s" "int s < 60" using u by auto
  note c = dt_compose [OF t_def s]
  have T: "T = int m + (int h - 24 * k) * 60" by (simp add: T_def)
  have "T div 60 = int h + (- k) * 24"
    using u unfolding T by (subst div_mult_self1) simp_all
  then have "T div 60 mod 24 = int h" using u by (simp only: mod_mult_self1) simp
  moreover have "T mod 60 = int m" using u unfolding T by (simp only: mod_mult_self1) simp
  ultimately have f: "dt_hour t = int h" "dt_minute t = int m" "dt_second t = int s" "t mod usec = 0"
    using c by (simp_all only: dt_hour_minutes dt_minute_def)
  have "?M = t div (60 * usec) + q" unfolding c(1) T_def k by simp
  from resolve_recovers [OF loc utc f this b] f show ?thesis by blast
qed

section \<open>Properties\<close>

text \<open>
  C27. The UTC instant of a GPS103 report is recovered from the local date and minute and the UTC time
  of day: whatever instant \<open>t\<close> the device meant, for every offset of its clock in (-12h, 12h] and
  across midnight, that instant is the one stored, to the second.
\<close>

theorem gps103_instant_recovered:
  assumes "parse_local_datetime lv = Some l" and "parse_utc_time uv = Some (h, m, s)"
    and "dt_hour t = int h" "dt_minute t = int m" "dt_second t = int s" "t mod usec = 0"
    and "l div (60 * usec) = t div (60 * usec) + k" "- 720 < k" "k \<le> 720"
  shows "resolve_utc_timestamp lv uv = Inr (Some t)"
  using assms by (rule resolve_recovers)

text \<open>The 5th of September 2023, 00:10 in Colombo, is 18:40 UTC on the 4th.\<close>

theorem gps103_instant_recovered_witness:
  "\<exists>t. mk_datetime 2023 9 4 18 40 7 = Inr t \<and>
     resolve_utc_timestamp ''2309050010'' ''184007.000'' = Inr (Some t)"
proof -
  let ?l = "63829469400 * usec" and ?t = "63829449607 * usec"
  have m: "days_before_month 2023 9 = 243" by code_simp
  have n: "seconds_of 2023 9 4 18 40 7 = 63829449607" "seconds_of 2023 9 5 0 10 0 = 63829469400"
    by (simp_all add: seconds_of_def day_number_def days_before_year_def m)
  have v: "valid_date 2023 9 4" "valid_time 18 40 7" "valid_date 2023 9 5" "valid_time 0 10 0" by code_simp+
  have d: "is_digits ''2309050010''" "int_of_digits (slice ''2309050010'' 0 (Suc (Suc 0))) = 23"
    "int_of_digits (slice ''2309050010'' 2 4) = 9" "int_of_digits (slice ''2309050010'' 4 6) = 5"
    "int_of_digits (slice ''2309050010'' 6 8) = 0" "int_of_digits (slice ''2309050010'' 8 10) = 10"
    by code_simp+
  have "mk_datetime 2023 9 5 0 10 0 = Inr ?l" by (simp add: mk_datetime_def v n)
  then have l: "parse_local_datetime ''2309050010'' = Some ?l" by (simp add: parse_local_datetime_def d)
  have u: "parse_utc_time ''184007.000'' = Some (18, 40, 7)" by code_simp
  have "resolve_utc_timestamp ''2309050010'' ''184007.000'' = Inr (Some ?t)"
    by (rule gps103_instant_recovered [OF l u, where k = 330])
      (simp_all add: dt_hour_def dt_minute_def dt_second_def)
  moreover have "mk_datetime 2023 9 4 18 40 7 = Inr ?t" by (simp add: mk_datetime_def v n)
  ultimately show ?thesis by blast
qed

end
