(* ===== verification/Teltonika_Parser.thy ===== *)
theory Teltonika_Parser
  imports Prelude Py_Float Py_Text Py_Time Crc Framing "HOL-Library.AList"
begin

text \<open>
  parsers/teltonika_parser.py after framing: the login, and the decoder of Codec 8 and Codec 8
  Extended packets. The bounds-checked reader of the code (\<^verbatim>\<open>_Reader\<close>: data and position) is a
  function on the bytes not read yet. The wire format of the module's documentation is written
  out as an encoder, and the decoder is shown to be its inverse.
\<close>

section \<open>Login\<close>

definition teltonika_parse_login :: "bytes \<Rightarrow> string result" where
  "teltonika_parse_login frame =
     (if \<not> is_login_frame frame then Inl TeltonikaParseError
      else bindR (decode_ascii (drop 2 frame)) (\<lambda>imei.
           if \<not> is_digits imei then Inl TeltonikaParseError else Inr imei))"

definition LOGIN_ACCEPT :: bytes where
  "LOGIN_ACCEPT = [0x01]"

section \<open>The reader\<close>

type_synonym 'a reader = "bytes \<Rightarrow> ('a \<times> bytes) result"

definition rd_take :: "nat \<Rightarrow> bytes reader" where
  "rd_take n bs = (if n \<le> length bs then Inr (take n bs, drop n bs) else Inl TeltonikaParseError)"

definition rd_bind :: "'a reader \<Rightarrow> ('a \<Rightarrow> 'b reader) \<Rightarrow> 'b reader" where
  "rd_bind r f bs = bindR (r bs) (\<lambda>(x, rest). f x rest)"

definition rd_ret :: "'a \<Rightarrow> 'a reader" where
  "rd_ret x bs = Inr (x, bs)"

definition rd_lift :: "'a result \<Rightarrow> 'a reader" where
  "rd_lift r bs = bindR r (\<lambda>x. Inr (x, bs))"

definition rd_uint :: "nat \<Rightarrow> nat reader" where
  "rd_uint n = rd_bind (rd_take n) (\<lambda>c. rd_ret (be_val c))"

definition rd_sint :: "nat \<Rightarrow> int reader" where
  "rd_sint n = rd_bind (rd_take n) (\<lambda>c. rd_ret (be_sval c))"

section \<open>Records\<close>

text \<open>An IO value: an integer, or the bytes of a variable-length element of Codec 8E.\<close>

datatype io_value = IoInt nat | IoBytes bytes

type_synonym io_map = "(nat \<times> io_value) list"

record avl_record =
  avl_timestamp :: datetime
  avl_priority :: nat
  avl_latitude :: pyfloat
  avl_longitude :: pyfloat
  avl_altitude :: int
  avl_angle :: nat
  avl_satellites :: nat
  avl_speed :: nat
  avl_event_io_id :: nat
  avl_io :: io_map

text \<open>\<^verbatim>\<open>for _ in range(n): io_id = r.uint(id_len); io[io_id] = ...\<close>.\<close>

fun read_elements :: "nat \<Rightarrow> io_value reader \<Rightarrow> nat \<Rightarrow> io_map \<Rightarrow> io_map reader" where
  "read_elements id_len rd 0 io = rd_ret io"
| "read_elements id_len rd (Suc k) io =
     rd_bind (rd_uint id_len) (\<lambda>io_id.
     rd_bind rd (\<lambda>v. read_elements id_len rd k (AList.update io_id v io)))"

definition read_group :: "nat \<Rightarrow> io_value reader \<Rightarrow> io_map \<Rightarrow> io_map reader" where
  "read_group id_len rd io = rd_bind (rd_uint id_len) (\<lambda>n. read_elements id_len rd n io)"

definition read_int_value :: "nat \<Rightarrow> io_value reader" where
  "read_int_value n = rd_bind (rd_uint n) (\<lambda>v. rd_ret (IoInt v))"

definition read_bytes_value :: "io_value reader" where
  "read_bytes_value = rd_bind (rd_uint 2) (\<lambda>n. rd_bind (rd_take n) (\<lambda>c. rd_ret (IoBytes c)))"

definition read_io :: "bool \<Rightarrow> (nat \<times> io_map) reader" where
  "read_io extended =
     (let id_len = (if extended then 2 else 1)
      in rd_bind (rd_uint id_len) (\<lambda>event_io_id.
         rd_bind (rd_uint id_len) (\<lambda>total.
         rd_bind (read_group id_len (read_int_value 1) []) (\<lambda>io1.
         rd_bind (read_group id_len (read_int_value 2) io1) (\<lambda>io2.
         rd_bind (read_group id_len (read_int_value 4) io2) (\<lambda>io4.
         rd_bind (read_group id_len (read_int_value 8) io4) (\<lambda>io8.
         rd_bind (if extended then read_group 2 read_bytes_value io8 else rd_ret io8) (\<lambda>io.
           rd_ret (event_io_id, io)))))))))"

definition avl_time :: "nat \<Rightarrow> datetime result" where
  "avl_time millis =
     (case from_timestamp (int_div (int millis) 1000) of
        Inl _ \<Rightarrow> Inl TeltonikaParseError | Inr t \<Rightarrow> Inr t)"

definition read_record :: "bool \<Rightarrow> avl_record reader" where
  "read_record extended =
     rd_bind (rd_uint 8) (\<lambda>millis.
     rd_bind (rd_lift (avl_time millis)) (\<lambda>timestamp.
     rd_bind (rd_uint 1) (\<lambda>priority.
     rd_bind (rd_sint 4) (\<lambda>longitude.
     rd_bind (rd_sint 4) (\<lambda>latitude.
     rd_bind (rd_sint 2) (\<lambda>altitude.
     rd_bind (rd_uint 2) (\<lambda>angle.
     rd_bind (rd_uint 1) (\<lambda>satellites.
     rd_bind (rd_uint 2) (\<lambda>speed.
     rd_bind (read_io extended) (\<lambda>(event_io_id, io).
       rd_ret \<lparr> avl_timestamp = timestamp, avl_priority = priority,
                avl_latitude = int_div latitude 10000000,
                avl_longitude = int_div longitude 10000000,
                avl_altitude = altitude, avl_angle = angle, avl_satellites = satellites,
                avl_speed = speed, avl_event_io_id = event_io_id, avl_io = io \<rparr>))))))))))"

fun read_records :: "bool \<Rightarrow> nat \<Rightarrow> avl_record list reader" where
  "read_records extended 0 = rd_ret []"
| "read_records extended (Suc k) =
     rd_bind (read_record extended) (\<lambda>r. rd_bind (read_records extended k) (\<lambda>rs. rd_ret (r # rs)))"

definition has_fix :: "avl_record \<Rightarrow> bool" where
  "has_fix r \<longleftrightarrow> 0 < avl_satellites r \<and> \<not> (avl_latitude r = Fin 0 \<and> avl_longitude r = Fin 0)"

definition io_flag :: "avl_record \<Rightarrow> nat \<Rightarrow> bool option" where
  "io_flag r io_id = (case map_of (avl_io r) io_id of Some (IoInt v) \<Rightarrow> Some (v \<noteq> 0) | _ \<Rightarrow> None)"

definition avl_ignition :: "avl_record \<Rightarrow> bool option" where
  "avl_ignition r = io_flag r 239"

definition avl_movement :: "avl_record \<Rightarrow> bool option" where
  "avl_movement r = io_flag r 240"

section \<open>Packets\<close>

record avl_packet =
  pkt_codec :: nat
  pkt_records :: "avl_record list"

definition CODEC_8 :: nat where
  "CODEC_8 = 0x08"

definition CODEC_8E :: nat where
  "CODEC_8E = 0x8E"

definition parse_avl_data :: "bytes \<Rightarrow> avl_packet result" where
  "parse_avl_data data =
     bindR (get_at data 0) (\<lambda>c0.
     (let codec = unat c0; extended = (codec = CODEC_8E)
      in if codec \<noteq> CODEC_8 \<and> codec \<noteq> CODEC_8E then Inl (UnsupportedCodecError codec)
         else bindR (rd_bind (rd_take 1) (\<lambda>_.
                     rd_bind (rd_uint 1) (\<lambda>count.
                     rd_bind (read_records extended count) (\<lambda>records.
                     rd_bind (rd_uint 1) (\<lambda>trailing. rd_ret (count, records, trailing))))) data)
                (\<lambda>((count, records, trailing), rest).
                  if trailing \<noteq> count then Inl TeltonikaParseError
                  else if rest \<noteq> [] then Inl TeltonikaParseError
                  else Inr \<lparr> pkt_codec = codec, pkt_records = records \<rparr>)))"

definition parse_avl_packet :: "bytes \<Rightarrow> avl_packet result" where
  "parse_avl_packet frame =
     (if length frame < 8 + 3 + 4 \<or> \<not> starts_with PREAMBLE frame then Inl TeltonikaParseError
      else (let len = be_val (slice frame 4 8)
            in if length frame \<noteq> 8 + len + 4 then Inl TeltonikaParseError
               else (let data = slice frame 8 (8 + len);
                         received_crc = be_val (drop (8 + len) frame)
                     in if received_crc \<noteq> crc16_ibm data then Inl TeltonikaCrcError
                        else parse_avl_data data)))"

text \<open>
  \<^verbatim>\<open>struct.pack(">I", n)\<close>; its error, which no caller distinguishes, cannot occur for the count
  of a packet.
\<close>

definition avl_ack :: "nat \<Rightarrow> bytes result" where
  "avl_ack n = (if n < 2 ^ 32 then Inr (be_bytes 4 n) else Inl StructError)"

section \<open>The reader runs\<close>

lemma rd_bind_Inr: "r bs = Inr (x, rest) \<Longrightarrow> rd_bind r f bs = f x rest"
  by (simp add: rd_bind_def)

lemma rd_take_append [simp]: "n = length c \<Longrightarrow> rd_take n (c @ rest) = Inr (c, rest)"
  by (simp add: rd_take_def)

lemma rd_uint_bytes: "v < 256 ^ n \<Longrightarrow> rd_uint n (be_bytes n v @ rest) = Inr (v, rest)"
  by (simp add: rd_uint_def rd_bind_def rd_ret_def be_val_be_bytes)

text \<open>Two's complement of \<open>n\<close> bytes.\<close>

definition signed_bytes :: "nat \<Rightarrow> int \<Rightarrow> bytes" where
  "signed_bytes n i = be_bytes n (nat (i mod 256 ^ n))"

lemma length_signed_bytes [simp]: "length (signed_bytes n i) = n"
  by (simp add: signed_bytes_def)

lemma be_sval_signed:
  assumes "0 < n" "- (256 ^ n div 2) \<le> i" "i < 256 ^ n div 2"
  shows "be_sval (signed_bytes n i) = i"
proof -
  obtain k where n: "n = Suc k" using assms(1) by (cases n) auto
  let ?N = "256 ^ n :: int"
  have N: "2 * (?N div 2) = ?N" by (simp add: n)
  have pos: "0 < ?N" by simp
  have v: "int (be_val (signed_bytes n i)) = i mod ?N"
    by (simp add: signed_bytes_def be_val_be_bytes zmod_int)
  have lt: "2 * be_val (signed_bytes n i) < 256 ^ n \<longleftrightarrow> 2 * (i mod ?N) < ?N"
    by (metis (no_types) v of_nat_less_iff of_nat_mult of_nat_numeral of_nat_power)
  show ?thesis
  proof (cases "0 \<le> i")
    case True
    then have "i mod ?N = i" using assms(3) N by (intro mod_pos_pos_trivial) linarith+
    then show ?thesis using assms(3) N by (simp add: be_sval_def lt v)
  next
    case False
    have "i mod ?N = (i + ?N) mod ?N" by simp
    also have "\<dots> = i + ?N" using False assms(2) N by (intro mod_pos_pos_trivial) linarith+
    finally show ?thesis using assms(2) N by (simp add: be_sval_def lt v)
  qed
qed

lemma rd_sint_bytes:
  "0 < n \<Longrightarrow> - (256 ^ n div 2) \<le> i \<Longrightarrow> i < 256 ^ n div 2 \<Longrightarrow>
   rd_sint n (signed_bytes n i @ rest) = Inr (i, rest)"
  by (simp add: rd_sint_def rd_bind_def rd_ret_def be_sval_signed)

section \<open>The wire format\<close>

text \<open>
  What a device puts on the wire, field by field, as the documentation of the module lists it: the
  specification the decoder is checked against.
\<close>

record wire_record =
  w_millis :: nat
  w_priority :: nat
  w_longitude :: int
  w_latitude :: int
  w_altitude :: int
  w_angle :: nat
  w_satellites :: nat
  w_speed :: nat
  w_event :: nat
  w_total :: nat
  w_io1 :: "(nat \<times> nat) list"
  w_io2 :: "(nat \<times> nat) list"
  w_io4 :: "(nat \<times> nat) list"
  w_io8 :: "(nat \<times> nat) list"
  w_iox :: "(nat \<times> bytes) list"

definition encode_int_element :: "nat \<Rightarrow> nat \<Rightarrow> nat \<times> nat \<Rightarrow> bytes" where
  "encode_int_element id_len n e = be_bytes id_len (fst e) @ be_bytes n (snd e)"

definition encode_bytes_element :: "nat \<times> bytes \<Rightarrow> bytes" where
  "encode_bytes_element e = be_bytes 2 (fst e) @ be_bytes 2 (length (snd e)) @ snd e"

definition encode_group :: "nat \<Rightarrow> ('a \<Rightarrow> bytes) \<Rightarrow> 'a list \<Rightarrow> bytes" where
  "encode_group id_len enc es = be_bytes id_len (length es) @ concat (map enc es)"

definition encode_io :: "bool \<Rightarrow> wire_record \<Rightarrow> bytes" where
  "encode_io extended w =
     (let id_len = (if extended then 2 else 1)
      in be_bytes id_len (w_event w) @ be_bytes id_len (w_total w) @
         encode_group id_len (encode_int_element id_len 1) (w_io1 w) @
         encode_group id_len (encode_int_element id_len 2) (w_io2 w) @
         encode_group id_len (encode_int_element id_len 4) (w_io4 w) @
         encode_group id_len (encode_int_element id_len 8) (w_io8 w) @
         (if extended then encode_group 2 encode_bytes_element (w_iox w) else []))"

definition encode_record :: "bool \<Rightarrow> wire_record \<Rightarrow> bytes" where
  "encode_record extended w =
     be_bytes 8 (w_millis w) @ be_bytes 1 (w_priority w) @
     signed_bytes 4 (w_longitude w) @ signed_bytes 4 (w_latitude w) @ signed_bytes 2 (w_altitude w) @
     be_bytes 2 (w_angle w) @ be_bytes 1 (w_satellites w) @ be_bytes 2 (w_speed w) @
     encode_io extended w"

definition encode_data :: "bool \<Rightarrow> wire_record list \<Rightarrow> bytes" where
  "encode_data extended ws =
     be_bytes 1 (if extended then CODEC_8E else CODEC_8) @ be_bytes 1 (length ws) @
     concat (map (encode_record extended) ws) @ be_bytes 1 (length ws)"

definition encode_packet :: "bytes \<Rightarrow> bytes" where
  "encode_packet data = PREAMBLE @ be_bytes 4 (length data) @ data @ be_bytes 4 (crc16_ibm data)"

text \<open>The values a field of that width can carry, and a time the calendar can hold.\<close>

definition elements_ok :: "nat \<Rightarrow> nat \<Rightarrow> (nat \<times> nat) list \<Rightarrow> bool" where
  "elements_ok id_len n es \<longleftrightarrow> length es < 256 ^ id_len \<and>
     list_all (\<lambda>e. fst e < 256 ^ id_len \<and> snd e < 256 ^ n) es"

definition wire_ok :: "bool \<Rightarrow> wire_record \<Rightarrow> bool" where
  "wire_ok extended w \<longleftrightarrow>
     (let id_len = (if extended then 2 else 1)
      in w_millis w < 256 ^ 8 \<and> avl_time (w_millis w) \<noteq> Inl TeltonikaParseError \<and> w_priority w < 256 \<and>
         - (2 ^ 31) \<le> w_longitude w \<and> w_longitude w < 2 ^ 31 \<and>
         - (2 ^ 31) \<le> w_latitude w \<and> w_latitude w < 2 ^ 31 \<and>
         - (2 ^ 15) \<le> w_altitude w \<and> w_altitude w < 2 ^ 15 \<and>
         w_angle w < 65536 \<and> w_satellites w < 256 \<and> w_speed w < 65536 \<and>
         w_event w < 256 ^ id_len \<and> w_total w < 256 ^ id_len \<and>
         elements_ok id_len 1 (w_io1 w) \<and> elements_ok id_len 2 (w_io2 w) \<and>
         elements_ok id_len 4 (w_io4 w) \<and> elements_ok id_len 8 (w_io8 w) \<and>
         (extended \<longrightarrow> length (w_iox w) < 65536 \<and>
            list_all (\<lambda>e. fst e < 65536 \<and> length (snd e) < 65536) (w_iox w)))"

text \<open>What the decoder must make of it: later elements with the same id win.\<close>

definition put_all :: "('v \<Rightarrow> io_value) \<Rightarrow> (nat \<times> 'v) list \<Rightarrow> io_map \<Rightarrow> io_map" where
  "put_all f es io = fold (\<lambda>(i, v) m. AList.update i (f v) m) es io"

definition record_io :: "bool \<Rightarrow> wire_record \<Rightarrow> io_map" where
  "record_io extended w =
     (let io = put_all IoInt (w_io8 w) (put_all IoInt (w_io4 w)
                 (put_all IoInt (w_io2 w) (put_all IoInt (w_io1 w) [])))
      in if extended then put_all IoBytes (w_iox w) io else io)"

definition decoded :: "bool \<Rightarrow> wire_record \<Rightarrow> avl_record" where
  "decoded extended w =
     \<lparr> avl_timestamp = (case avl_time (w_millis w) of Inr t \<Rightarrow> t | Inl _ \<Rightarrow> 0),
       avl_priority = w_priority w,
       avl_latitude = int_div (w_latitude w) 10000000,
       avl_longitude = int_div (w_longitude w) 10000000,
       avl_altitude = w_altitude w, avl_angle = w_angle w, avl_satellites = w_satellites w,
       avl_speed = w_speed w, avl_event_io_id = w_event w, avl_io = record_io extended w \<rparr>"

section \<open>The decoder inverts it\<close>

text \<open>A reader reads back the bytes \<open>c\<close> as \<open>x\<close>, whatever follows.\<close>

definition reads :: "'a reader \<Rightarrow> bytes \<Rightarrow> 'a \<Rightarrow> bool" where
  "reads r c x \<longleftrightarrow> (\<forall>rest. r (c @ rest) = Inr (x, rest))"

named_theorems reads_intros \<open>a reader reads back what was encoded\<close>

lemma reads_whole: "reads r c x \<Longrightarrow> r c = Inr (x, [])"
  unfolding reads_def by (erule allE [of _ "[]"]) simp

lemma reads_ret [reads_intros]: "reads (rd_ret x) [] x"
  by (simp add: reads_def rd_ret_def)

lemma reads_bind [reads_intros]: "reads r c x \<Longrightarrow> reads (f x) d y \<Longrightarrow> reads (rd_bind r f) (c @ d) y"
  by (simp add: reads_def rd_bind_def)

lemma reads_bind_pair:
  "reads r c (a, b) \<Longrightarrow> reads (f a b) d y \<Longrightarrow> reads (rd_bind r (\<lambda>(a, b). f a b)) (c @ d) y"
  by (simp add: reads_def rd_bind_def)

lemma reads_bind_last: "reads r c x \<Longrightarrow> reads (f x) [] y \<Longrightarrow> reads (rd_bind r f) c y"
  using reads_bind [of r c x f "[]" y] by simp

lemma reads_lift: "r = Inr x \<Longrightarrow> reads (rd_lift r) [] x"
  by (simp add: reads_def rd_lift_def)

lemma reads_bind_lift: "r = Inr x \<Longrightarrow> reads (f x) d y \<Longrightarrow> reads (rd_bind (rd_lift r) f) d y"
  using reads_bind [OF reads_lift, of r x f d y] by simp

lemma reads_uint [reads_intros]: "v < 256 ^ n \<Longrightarrow> reads (rd_uint n) (be_bytes n v) v"
  by (simp add: reads_def rd_uint_bytes)

lemma reads_sint [reads_intros]:
  "0 < n \<Longrightarrow> - (256 ^ n div 2) \<le> i \<Longrightarrow> i < 256 ^ n div 2 \<Longrightarrow> reads (rd_sint n) (signed_bytes n i) i"
  by (simp add: reads_def rd_sint_bytes)

lemma reads_take: "n = length c \<Longrightarrow> reads (rd_take n) c c"
  by (simp add: reads_def)

lemma reads_int_value [reads_intros]: "v < 256 ^ n \<Longrightarrow> reads (read_int_value n) (be_bytes n v) (IoInt v)"
  unfolding read_int_value_def by (rule reads_bind_last [OF reads_uint reads_ret])

lemma reads_bytes_value:
  "length c < 65536 \<Longrightarrow> reads read_bytes_value (be_bytes 2 (length c) @ c) (IoBytes c)"
  unfolding read_bytes_value_def
  by (rule reads_bind [OF reads_uint reads_bind_last [OF reads_take reads_ret]]) simp_all

lemma reads_elements:
  assumes "\<And>e. e \<in> set es \<Longrightarrow> fst e < 256 ^ id_len \<and> reads rd (val e) (f (snd e))"
  shows "reads (read_elements id_len rd (length es) io)
           (concat (map (\<lambda>e. be_bytes id_len (fst e) @ val e) es)) (put_all f es io)"
  using assms
proof (induction es arbitrary: io)
  case Nil
  then show ?case by (simp add: put_all_def reads_ret)
next
  case (Cons e es)
  have "reads (read_elements id_len rd (length es) (AList.update (fst e) (f (snd e)) io))
      (concat (map (\<lambda>e. be_bytes id_len (fst e) @ val e) es))
      (put_all f es (AList.update (fst e) (f (snd e)) io))"
    using Cons by simp
  moreover have "fst e < 256 ^ id_len" "reads rd (val e) (f (snd e))" using Cons.prems [of e] by simp_all
  ultimately have "reads (read_elements id_len rd (Suc (length es)) io)
      (be_bytes id_len (fst e) @ val e @ concat (map (\<lambda>e. be_bytes id_len (fst e) @ val e) es))
      (put_all f es (AList.update (fst e) (f (snd e)) io))"
    unfolding read_elements.simps by - (rule reads_bind reads_uint | assumption)+
  then show ?case by (simp add: put_all_def split_beta)
qed

lemma reads_int_group:
  "elements_ok id_len n es \<Longrightarrow>
   reads (read_group id_len (read_int_value n) io) (encode_group id_len (encode_int_element id_len n) es)
     (put_all IoInt es io)"
  unfolding read_group_def encode_group_def elements_ok_def encode_int_element_def
  by (rule reads_bind, rule reads_uint, simp, rule reads_elements)
    (auto simp: list_all_iff intro: reads_int_value)

lemma reads_bytes_group:
  "length es < 65536 \<Longrightarrow> list_all (\<lambda>e. fst e < 65536 \<and> length (snd e) < 65536) es \<Longrightarrow>
   reads (read_group 2 read_bytes_value io) (encode_group 2 encode_bytes_element es) (put_all IoBytes es io)"
  unfolding read_group_def encode_group_def encode_bytes_element_def
  by (rule reads_bind, rule reads_uint, simp, rule reads_elements)
    (auto simp: list_all_iff intro: reads_bytes_value)

lemma reads_io:
  assumes "wire_ok extended w"
  shows "reads (read_io extended) (encode_io extended w) (w_event w, record_io extended w)"
proof (cases extended)
  case True
  then have e: "extended = True" by simp
  from assms show ?thesis
    unfolding read_io_def encode_io_def record_io_def Let_def wire_ok_def e if_True
    by - (rule reads_bind_last [OF reads_bytes_group reads_ret] reads_bind reads_uint
        reads_int_group | (simp; fail))+
next
  case False
  then have e: "extended = False" by simp
  have none: "reads (rd_bind (rd_ret io) (\<lambda>io. rd_ret (e, io))) [] (e, io)" for io e
    by (simp add: reads_def rd_bind_def rd_ret_def)
  from assms show ?thesis
    unfolding read_io_def encode_io_def record_io_def Let_def wire_ok_def e if_False
    by - (rule none reads_bind reads_uint reads_int_group | (simp; fail))+
qed

lemma avl_time_error: "avl_time m = Inl e \<Longrightarrow> e = TeltonikaParseError"
  by (auto simp: avl_time_def split: sum.splits)

lemma reads_record:
  assumes w: "wire_ok extended w"
  shows "reads (read_record extended) (encode_record extended w) (decoded extended w)"
proof -
  from w have "avl_time (w_millis w) \<noteq> Inl TeltonikaParseError" by (simp add: wire_ok_def Let_def)
  then obtain t where t: "avl_time (w_millis w) = Inr t"
    using avl_time_error by (cases "avl_time (w_millis w)") auto
  have last: "reads (rd_bind (read_io extended) (\<lambda>(e, io). f e io)) (encode_io extended w) y"
    if "reads (f (w_event w) (record_io extended w)) [] y" for f and y :: avl_record
    using reads_io [OF w] that by (simp add: reads_def rd_bind_def)
  from w show ?thesis
    unfolding read_record_def encode_record_def wire_ok_def decoded_def t sum.case
    by - (rule reads_bind_lift [OF t] last reads_bind reads_uint reads_sint
        | (simp add: Let_def t reads_ret; fail))+
qed

lemma reads_records:
  "list_all (wire_ok extended) ws \<Longrightarrow>
   reads (read_records extended (length ws)) (concat (map (encode_record extended) ws))
     (map (decoded extended) ws)"
proof (induction ws)
  case (Cons w ws)
  then show ?case
    by simp (rule reads_bind reads_record reads_bind_last [OF _ reads_ret] | (simp; fail))+
qed (simp add: reads_ret)

section \<open>Whole packets\<close>

lemma parse_avl_data_encoded:
  assumes "list_all (wire_ok extended) ws" and "length ws < 256"
  shows "parse_avl_data (encode_data extended ws) =
    Inr \<lparr> pkt_codec = (if extended then CODEC_8E else CODEC_8), pkt_records = map (decoded extended) ws \<rparr>"
proof -
  let ?codec = "if extended then CODEC_8E else CODEC_8"
  have c: "get_at (encode_data extended ws) 0 = Inr (of_nat ?codec)" "unat (of_nat ?codec :: byte) = ?codec"
    by (auto simp: encode_data_def CODEC_8_def CODEC_8E_def)
  have one: "reads (rd_take 1) (be_bytes 1 ?codec) (be_bytes 1 ?codec)"
    by (rule reads_take) (simp only: length_be_bytes)
  have tail: "reads (rd_bind (rd_uint 1) (\<lambda>t. rd_ret (a, b, t))) (be_bytes 1 (length ws)) (a, b, length ws)"
    for a and b :: "avl_record list"
    by (rule reads_bind_last [OF reads_uint [of "length ws" 1] reads_ret]) (simp add: assms(2))
  have "reads (rd_bind (rd_uint 1) (\<lambda>count. rd_bind (read_records extended count) (\<lambda>records.
      rd_bind (rd_uint 1) (\<lambda>trailing. rd_ret (count, records, trailing)))))
    (be_bytes 1 (length ws) @ concat (map (encode_record extended) ws) @ be_bytes 1 (length ws))
    (length ws, map (decoded extended) ws, length ws)"
    using reads_uint [of "length ws" 1] assms(2) reads_records [OF assms(1)] tail
    by (simp only: reads_def rd_bind_def append_assoc) simp
  then have "reads (rd_bind (rd_take 1) (\<lambda>_. rd_bind (rd_uint 1) (\<lambda>count.
      rd_bind (read_records extended count) (\<lambda>records.
      rd_bind (rd_uint 1) (\<lambda>trailing. rd_ret (count, records, trailing))))))
    (encode_data extended ws) (length ws, map (decoded extended) ws, length ws)"
    unfolding encode_data_def by (rule reads_bind [OF one])
  then have "rd_bind (rd_take 1) (\<lambda>_. rd_bind (rd_uint 1) (\<lambda>count.
      rd_bind (read_records extended count) (\<lambda>records.
      rd_bind (rd_uint 1) (\<lambda>trailing. rd_ret (count, records, trailing))))) (encode_data extended ws)
    = Inr ((length ws, map (decoded extended) ws, length ws), [])"
    by (rule reads_whole)
  moreover have "(?codec = CODEC_8E) = extended" by (simp add: CODEC_8_def CODEC_8E_def)
  ultimately show ?thesis
    unfolding parse_avl_data_def c bindR_Inr Let_def c(2) by simp
qed

text \<open>Cutting a packet into its fields.\<close>

lemma packet_fields:
  assumes "frame = PREAMBLE @ be_bytes 4 n @ data @ be_bytes 4 crc" "length data = n" "n < 2 ^ 32"
    "crc < 2 ^ 32"
  shows "starts_with PREAMBLE frame" "be_val (slice frame 4 8) = n" "length frame = 8 + n + 4"
    "slice frame 8 (8 + n) = data" "be_val (drop (8 + n) frame) = crc"
proof -
  have p: "length PREAMBLE = 4" by (simp add: PREAMBLE_def)
  show "starts_with PREAMBLE frame" unfolding assms(1) by simp
  show "length frame = 8 + n + 4" by (simp add: assms(1,2) p)
  have "slice frame 4 8 = be_bytes 4 n" unfolding assms(1) by (rule slice_append_mid) (simp_all add: p)
  then show "be_val (slice frame 4 8) = n" using assms(3) by (simp add: be_val_be_bytes)
  have e: "frame = (PREAMBLE @ be_bytes 4 n) @ data @ be_bytes 4 crc" by (simp add: assms(1))
  show "slice frame 8 (8 + n) = data" unfolding e by (rule slice_append_mid) (simp_all add: p assms(2))
  have "drop (8 + n) frame = be_bytes 4 crc" unfolding e using assms(2) by (simp add: p)
  then show "be_val (drop (8 + n) frame) = crc" using assms(4) by (simp add: be_val_be_bytes)
qed

lemma parse_packet_of_data:
  assumes "3 \<le> length data" "length data < 2 ^ 32" "crc < 2 ^ 32"
  shows "parse_avl_packet (PREAMBLE @ be_bytes 4 (length data) @ data @ be_bytes 4 crc) =
    (if crc \<noteq> crc16_ibm data then Inl TeltonikaCrcError else parse_avl_data data)"
proof -
  let ?frame = "PREAMBLE @ be_bytes 4 (length data) @ data @ be_bytes 4 crc"
  note f = packet_fields [OF refl refl assms(2,3)]
  from assms(1) have "\<not> length ?frame < 8 + 3 + 4" by (simp add: PREAMBLE_def)
  then show ?thesis unfolding parse_avl_packet_def f Let_def using f(1,3) by simp
qed

lemma crc16_ibm_fits: "crc16_ibm data < 2 ^ 32"
  by (rule less_trans [OF crc16_ibm_bound]) simp

lemma length_encode_data: "3 \<le> length (encode_data extended ws)"
  by (simp add: encode_data_def)

text \<open>What a device encodes the gateway decodes, for both codecs and any records.\<close>

text \<open>
  C20. The Teltonika decoder reads back every packet the protocol can express, in both codecs: any
  number of records with any IO elements, encoded with its lengths and checksum, decodes to
  exactly those records (coordinates as the floats nearest to the degrees, later IO elements of
  an id winning over earlier ones).
\<close>

theorem avl_decode_encode:
  assumes "list_all (wire_ok extended) ws" and "length ws < 256"
    and "length (encode_data extended ws) < 2 ^ 32"
  shows "parse_avl_packet (encode_packet (encode_data extended ws)) =
    Inr \<lparr> pkt_codec = (if extended then CODEC_8E else CODEC_8), pkt_records = map (decoded extended) ws \<rparr>"
  unfolding encode_packet_def
  by (subst parse_packet_of_data [OF length_encode_data assms(3) crc16_ibm_fits])
    (simp add: parse_avl_data_encoded assms)

text \<open>Any damage confined to two neighbouring bytes of the data field is detected.\<close>

text \<open>
  C35. A packet with a damaged pair of bytes anywhere in its data field is refused with the CRC error,
  the one that is not acknowledged, before anything of it is interpreted.
\<close>

theorem avl_corruption:
  assumes "(x, y) \<noteq> (x', y')" and "1 \<le> length xs + length ys"
    and "length (xs @ [x, y] @ ys) < 2 ^ 32"
  shows "parse_avl_packet (PREAMBLE @ be_bytes 4 (length (xs @ [x, y] @ ys)) @
           (xs @ [x', y'] @ ys) @ be_bytes 4 (crc16_ibm (xs @ [x, y] @ ys))) = Inl TeltonikaCrcError"
proof -
  have "crc16_ibm (xs @ [x, y] @ ys) \<noteq> crc16_ibm (xs @ [x', y'] @ ys)"
    unfolding crc16_ibm_def by (rule ibm.two_bytes_detected [OF _ assms(1)]) simp
  moreover have "length (xs @ [x, y] @ ys) = length (xs @ [x', y'] @ ys)" by simp
  moreover have "3 \<le> length (xs @ [x', y'] @ ys)" using assms(2) by simp
  moreover have "length (xs @ [x', y'] @ ys) < 2 ^ 32" using assms(3) by simp
  ultimately show ?thesis by (simp only: parse_packet_of_data crc16_ibm_fits if_True not_False_eq_True)
qed

section \<open>Time stamps\<close>

text \<open>
  Milliseconds go through a binary float; until the year 2106 the result is still exact to the
  microsecond.
\<close>

lemma rhe_near: "\<bar>x - of_int n\<bar> < 1 / 2 \<Longrightarrow> rhe x = n"
proof -
  assume "\<bar>x - of_int n\<bar> < 1 / 2"
  with rhe_error [of x] have "\<bar>of_int (rhe x) - of_int n :: rat\<bar> < 1"
    unfolding abs_le_iff abs_less_iff by linarith
  then have "\<bar>rhe x - n\<bar> < 1" by (metis of_int_abs of_int_diff of_int_less_1_iff)
  then show ?thesis by simp
qed

lemma from_timestamp_millis:
  assumes "m < 1000 * 2 ^ 32"
  shows "from_timestamp (int_div (int m) 1000) = Inr (epoch + int m * 1000)"
proof -
  define s where "s = m div 1000"
  define r where "r = m mod 1000"
  have m: "m = 1000 * s + r" "r < 1000" by (simp_all add: s_def r_def)
  have s: "s < 2 ^ 32" using assms by (simp add: s_def less_mult_imp_div_less)
  let ?q = "of_int (int m) / 1000 :: rat"
  define x where "x = rnd64 ?q"
  have q: "?q = of_nat s + of_nat r / 1000" by (simp add: m(1) add_divide_distrib)
  have r: "(of_nat r :: rat) / 1000 \<le> 999 / 1000" using m(2) by simp
  have qb: "\<bar>?q\<bar> < 2 powi 32"
  proof -
    have "(of_nat m :: rat) < of_nat (1000 * 2 ^ 32)" using assms by (simp only: of_nat_less_iff)
    then show ?thesis by simp
  qed
  have err: "\<bar>x - ?q\<bar> \<le> 1 / 4194304"
    using rnd64_error_below [OF qb] by (simp add: x_def power_int_def field_simps)
  have fx: "int_div (int m) 1000 = Fin x"
  proof -
    have "\<bar>?q\<bar> \<le> of_int (2 ^ 33)" using qb by simp
    from to_float_small [OF this] show ?thesis by (simp add: int_div_def x_def)
  qed
  have fl: "\<lfloor>x\<rfloor> = int s"
  proof (cases "r = 0")
    case True
    then have "?q = of_int (int s)" unfolding q by simp
    then have "x = of_int (int s)" using s by (simp only: x_def) (rule rnd64_of_int, simp)
    then show ?thesis by simp
  next
    case False
    then have "(1 :: rat) / 1000 \<le> of_nat r / 1000" by simp
    with abs_le_D1 [OF err] abs_le_D2 [OF err] r have "of_nat s \<le> x" "x < of_nat s + 1"
      unfolding q by linarith+
    then show ?thesis by (intro floor_unique) simp_all
  qed
  let ?p = "(x - of_int (int s)) * 1000000"
  have p: "\<bar>?p - of_int (int r * 1000)\<bar> \<le> 1 / 4"
  proof -
    have "?p - of_int (int r * 1000) = (x - ?q) * 1000000" unfolding q by (simp add: algebra_simps)
    then have "\<bar>?p - of_int (int r * 1000)\<bar> = \<bar>x - ?q\<bar> * 1000000" by (simp only: abs_mult)
    also have "\<dots> \<le> 1 / 4194304 * 1000000" by (rule mult_right_mono [OF err]) simp
    also have "\<dots> \<le> 1 / 4" by simp
    finally show ?thesis .
  qed
  have "\<bar>?p\<bar> < 2 powi 20"
  proof -
    have "(of_int (int r * 1000) :: rat) \<le> 999000" using m(2) by simp
    moreover have "0 \<le> (of_int (int r * 1000) :: rat)" by simp
    ultimately have "\<bar>?p\<bar> < 1048576"
      using abs_le_D1 [OF p] abs_le_D2 [OF p] unfolding abs_less_iff by linarith
    then show ?thesis by simp
  qed
  from rnd64_error_below [OF this] have e: "\<bar>rnd64 ?p - ?p\<bar> \<le> 1 / 17179869184"
    by (simp add: power_int_def field_simps)
  have "\<bar>rnd64 ?p - of_int (int r * 1000)\<bar> < 1 / 2"
    using abs_le_D1 [OF p] abs_le_D2 [OF p] abs_le_D1 [OF e] abs_le_D2 [OF e]
    unfolding abs_less_iff by linarith
  then have us: "rhe (rnd64 ?p) = int r * 1000" by (rule rhe_near)
  have t: "epoch + int s * usec + int r * 1000 = epoch + int m * 1000" by (simp add: m(1))
  have "dt_in_range (epoch + int m * 1000)"
    using assms by (simp add: dt_in_range_def day_count_max_def)
  with t show ?thesis by (simp only: from_timestamp_def fx pyfloat.case fl us Let_def) simp
qed

lemma avl_time_exact: "m < 1000 * 2 ^ 32 \<Longrightarrow> avl_time m = Inr (epoch + int m * 1000)"
  by (simp add: avl_time_def from_timestamp_millis)

text \<open>A record of a device in Vilnius, 2019-06-10, with ignition on.\<close>

definition sample_wire :: wire_record where
  "sample_wire =
     \<lparr> w_millis = 1560161086000, w_priority = 1, w_longitude = 252830000, w_latitude = - 546670000,
       w_altitude = - 5, w_angle = 90, w_satellites = 9, w_speed = 42, w_event = 239, w_total = 2,
       w_io1 = [(239, 1)], w_io2 = [(66, 24079)], w_io4 = [], w_io8 = [], w_iox = [] \<rparr>"

lemma sample_wire_ok: "wire_ok False sample_wire"
  using avl_time_exact [of 1560161086000]
  by (simp add: wire_ok_def sample_wire_def elements_ok_def)

lemma sample_data_length: "length (encode_data False [sample_wire]) < 2 ^ 32"
  by (simp add: encode_data_def encode_record_def encode_io_def encode_group_def encode_int_element_def
      sample_wire_def)

theorem avl_decode_encode_witness:
  "parse_avl_packet (encode_packet (encode_data False [sample_wire])) =
     Inr \<lparr> pkt_codec = CODEC_8, pkt_records = [decoded False sample_wire] \<rparr>"
  using avl_decode_encode [of False "[sample_wire]"] sample_wire_ok sample_data_length by simp

theorem avl_corruption_witness:
  "parse_avl_packet (PREAMBLE @ be_bytes 4 (length ([8 :: byte] @ [1, 2] @ [3])) @
     ([8] @ [1, 7] @ [3]) @ be_bytes 4 (crc16_ibm ([8] @ [1, 2] @ [3]))) = Inl TeltonikaCrcError"
  by (rule avl_corruption) simp_all

end
