(* ===== verification/Config.thy ===== *)
theory Config
  imports World Py_Number
begin

text \<open>
  config.py: the configuration read from the environment when the process starts. A malformed
  number raises ValueError at import, and the process does not start; three settings are parsed
  defensively instead. The thresholds the handlers use end up in the record \<open>config\<close>; the ports,
  the probe timeout, the pool sizes and the two alarm thresholds are converted (they can stop the
  start) but not used by the modelled code.
\<close>

type_synonym environ = "string \<Rightarrow> string option"

text \<open>\<^verbatim>\<open>os.getenv(name, default)\<close>, and the same through \<^verbatim>\<open>int(...)\<close>.\<close>

definition getenv :: "environ \<Rightarrow> string \<Rightarrow> string \<Rightarrow> string" where
  "getenv env name dflt = (case env name of None \<Rightarrow> dflt | Some v \<Rightarrow> v)"

definition getenv_int :: "environ \<Rightarrow> string \<Rightarrow> string \<Rightarrow> int result" where
  "getenv_int env name dflt = py_int 10 (getenv env name dflt)"

section \<open>Device families\<close>

definition ALL_PROTOCOLS :: "(string \<times> family) list" where
  "ALL_PROTOCOLS = [(''GT06'', GT06), (''GPS103'', GPS103), (''TELTONIKA'', TELTONIKA)]"

definition protocols_requested :: "environ \<Rightarrow> string list" where
  "protocols_requested env =
     map (\<lambda>n. upper (strip n))
       (filter (\<lambda>n. strip n \<noteq> []) (split_on (CHR '','') (getenv env ''ENABLED_PROTOCOLS'' ''GT06,GPS103'')))"

definition protocols_enabled :: "environ \<Rightarrow> family set" where
  "protocols_enabled env = set (List.map_filter (map_of ALL_PROTOCOLS) (protocols_requested env))"

section \<open>The poller's intervals\<close>

definition int_env :: "environ \<Rightarrow> string \<Rightarrow> int \<Rightarrow> int" where
  "int_env env name dflt =
     (case env name of
        None \<Rightarrow> dflt
      | Some v \<Rightarrow> (case py_int 10 v of Inl _ \<Rightarrow> dflt | Inr n \<Rightarrow> n))"

definition poll_seconds :: "environ \<Rightarrow> int" where
  "poll_seconds env = (let p = int_env env ''GPS103_POLL_SECONDS'' 0 in if p \<le> 0 then 0 else max 10 p)"

definition poll_idle_seconds :: "environ \<Rightarrow> int" where
  "poll_idle_seconds env = max (poll_seconds env) (int_env env ''GPS103_POLL_IDLE_SECONDS'' 300)"

section \<open>Raw packets\<close>

definition raw_packet_mode :: "environ \<Rightarrow> raw_mode" where
  "raw_packet_mode env =
     (let m = lower (strip (getenv env ''RAW_PACKET_MODE'' ''selective''))
      in if m = ''off'' then RawOff else if m = ''all'' then RawAll else RawSelective)"

text \<open>
  \<^verbatim>\<open>min(1.0, max(0.0, v))\<close>: \<^verbatim>\<open>max\<close> keeps its first argument unless the second is greater, so a NaN
  becomes 0.
\<close>

definition clamp_rate :: "pyfloat \<Rightarrow> rat" where
  "clamp_rate v =
     (case v of
        Fin x \<Rightarrow> (let m = (if x > 0 then x else 0) in if m < 1 then m else 1)
      | PInf \<Rightarrow> 1
      | NInf \<Rightarrow> 0
      | NaN \<Rightarrow> 0)"

definition raw_sample_rate :: "environ \<Rightarrow> rat" where
  "raw_sample_rate env =
     (case py_float (getenv env ''RAW_PACKET_SAMPLE_RATE'' ''0.02'') of
        Inl _ \<Rightarrow> rnd64 (1 / 50)
      | Inr v \<Rightarrow> clamp_rate v)"

section \<open>The module\<close>

definition load_config :: "environ \<Rightarrow> config result" where
  "load_config env =
     bindR (getenv_int env ''PORT'' ''9000'') (\<lambda>port.
     bindR (getenv_int env ''CONNECTION_TIMEOUT'' ''300'') (\<lambda>connection_timeout.
     bindR (getenv_int env ''MAX_CONNECTIONS'' ''500'') (\<lambda>max_connections.
     bindR (py_float (getenv env ''PROBE_TIMEOUT'' ''1.0'')) (\<lambda>probe_timeout.
     bindR (getenv_int env ''GPS103_MAX_UNFRAMED_BYTES'' ''2048'') (\<lambda>max_unframed.
     bindR (getenv_int env ''TELTONIKA_MAX_PACKET_BYTES'' ''4096'') (\<lambda>max_packet.
     bindR (getenv_int env ''TELTONIKA_MAX_FUTURE_SECONDS'' ''600'') (\<lambda>max_future.
     bindR (getenv_int env ''DB_POOL_MIN'' ''5'') (\<lambda>pool_min.
     bindR (getenv_int env ''DB_POOL_MAX'' ''150'') (\<lambda>pool_max.
     bindR (getenv_int env ''LOW_BATTERY_THRESHOLD'' ''2'') (\<lambda>low_battery.
     bindR (getenv_int env ''OVERSPEED_THRESHOLD'' ''80'') (\<lambda>overspeed.
       Inr \<lparr> cfg_connection_timeout = connection_timeout,
             cfg_max_connections = max_connections,
             cfg_enabled_protocols = protocols_enabled env,
             cfg_speed_in_kmh = (lower (getenv env ''GPS103_SPEED_IN_KMH'' ''false'') = ''true''),
             cfg_max_unframed_bytes = max_unframed,
             cfg_poll_seconds = poll_seconds env,
             cfg_poll_idle_seconds = poll_idle_seconds env,
             cfg_max_packet_bytes = max_packet,
             cfg_max_future_seconds = max_future,
             cfg_raw_packet_mode = raw_packet_mode env,
             cfg_raw_sample_rate = raw_sample_rate env,
             cfg_gps_idempotent =
               (lower (strip (getenv env ''GPS_TRACKING_IDEMPOTENT'' ''false'')) = ''true'') \<rparr>)))))))))))"

text \<open>What the process runs with when nothing is set.\<close>

definition default_config :: config where
  "default_config =
     \<lparr> cfg_connection_timeout = 300, cfg_max_connections = 500,
       cfg_enabled_protocols = {GT06, GPS103}, cfg_speed_in_kmh = False,
       cfg_max_unframed_bytes = 2048, cfg_poll_seconds = 0, cfg_poll_idle_seconds = 300,
       cfg_max_packet_bytes = 4096, cfg_max_future_seconds = 600,
       cfg_raw_packet_mode = RawSelective, cfg_raw_sample_rate = rnd64 (1 / 50),
       cfg_gps_idempotent = False \<rparr>"

section \<open>The thresholds of the health report\<close>

text \<open>\<^verbatim>\<open>_env_number\<close>: an override that cannot be read is ignored.\<close>

definition env_number :: "environ \<Rightarrow> string \<Rightarrow> 'a \<Rightarrow> (string \<Rightarrow> 'a result) \<Rightarrow> 'a" where
  "env_number env name dflt cast =
     (case env name of
        None \<Rightarrow> dflt
      | Some raw \<Rightarrow> (if strip raw = '''' then dflt
                    else case cast raw of Inl _ \<Rightarrow> dflt | Inr v \<Rightarrow> v))"

definition DB_CACHE_OK_SECONDS :: "environ \<Rightarrow> pyfloat" where
  "DB_CACHE_OK_SECONDS env = env_number env ''HEALTH_DB_CACHE_SECONDS'' (Fin 10) py_float"

definition SILENCE_SECONDS :: "environ \<Rightarrow> int" where
  "SILENCE_SECONDS env = env_number env ''HEALTH_SILENCE_SECONDS'' 600 (py_int 10)"

section \<open>Facts\<close>

lemma protocols_default: "protocols_enabled (\<lambda>_. None) = {GT06, GPS103}"
proof -
  have "protocols_requested (\<lambda>_. None) = [''GT06'', ''GPS103'']" by code_simp
  then show ?thesis by (simp add: protocols_enabled_def ALL_PROTOCOLS_def List.map_filter_def)
qed

lemma protocols_defaults_set: "getenv_int (\<lambda>_. None) n d = py_int 10 d"
  by (simp add: getenv_int_def getenv_def)

lemma default_numbers:
  "py_int 10 ''9000'' = Inr 9000" "py_int 10 ''300'' = Inr 300" "py_int 10 ''500'' = Inr 500"
  "py_int 10 ''2048'' = Inr 2048" "py_int 10 ''4096'' = Inr 4096" "py_int 10 ''600'' = Inr 600"
  "py_int 10 ''5'' = Inr 5" "py_int 10 ''150'' = Inr 150" "py_int 10 ''2'' = Inr 2"
  "py_int 10 ''80'' = Inr 80"
  by code_simp+

text \<open>Rounded to a float, 0.02 stays strictly between 0 and 1.\<close>

lemma default_rate_unit: "0 < rnd64 (1 / 50)" "rnd64 (1 / 50) < (1 :: rat)"
proof -
  have "\<bar>rnd64 (1 / 50 :: rat) - 1 / 50\<bar> \<le> 2 powi (0 - 54)"
    by (rule rnd64_error_below) simp_all
  also have "(2 :: rat) powi (0 - 54) \<le> 1 / 100" by (simp add: power_int_def power_one_over field_simps)
  finally have "\<bar>rnd64 (1 / 50 :: rat) - 1 / 50\<bar> \<le> 1 / 100" .
  then show "0 < rnd64 (1 / 50)" and "rnd64 (1 / 50) < (1 :: rat)" by linarith+
qed

lemma py_float_plain:
  assumes "drop_underscores False (strip s) = Some u" and "split_sign u = (False, u)"
    and "lower u \<noteq> ''inf''" "lower u \<noteq> ''infinity''" "lower u \<noteq> ''nan''"
    and "decimal_value u = Some q" "\<bar>q\<bar> \<le> 1"
  shows "py_float s = Inr (Fin (rnd64 q))"
proof -
  have "to_float q = Fin (rnd64 q)" using assms(7) to_float_small [of q 1] by simp
  then show ?thesis by (simp add: py_float_def assms(1-6))
qed

lemma default_probe: "py_float ''1.0'' = Inr (Fin 1)"
proof -
  have "py_float ''1.0'' = Inr (Fin (rnd64 1))"
  proof (rule py_float_plain [where u = "''1.0''"])
    show "drop_underscores False (strip ''1.0'') = Some ''1.0''" by code_simp
    show "split_sign ''1.0'' = (False, ''1.0'')" by code_simp
    show "decimal_value ''1.0'' = Some 1" by code_simp
  qed (simp_all add: lower_def lower_char_def char_code_def)
  then show ?thesis using rnd64_of_int [of 1] by simp
qed

lemma default_rate: "py_float ''0.02'' = Inr (Fin (rnd64 (1 / 50)))"
proof (rule py_float_plain [where u = "''0.02''"])
  show "drop_underscores False (strip ''0.02'') = Some ''0.02''" by code_simp
  show "split_sign ''0.02'' = (False, ''0.02'')" by code_simp
  show "decimal_value ''0.02'' = Some (1 / 50)" by code_simp
qed (simp_all add: lower_def lower_char_def char_code_def)

lemma default_texts: "lower ''false'' = ''false''" "lower (strip ''false'') = ''false''"
  "lower (strip ''selective'') = ''selective''"
  by code_simp+

lemma load_default: "load_config (\<lambda>_. None) = Inr default_config"
  by (simp add: load_config_def protocols_defaults_set default_numbers default_probe default_rate default_texts clamp_rate_def less_imp_le default_rate_unit getenv_def
      default_config_def protocols_default poll_seconds_def poll_idle_seconds_def int_env_def
      raw_packet_mode_def raw_sample_rate_def Let_def)

lemma clamp_rate_unit: "0 \<le> clamp_rate v \<and> clamp_rate v \<le> 1"
  by (cases v) (simp_all add: clamp_rate_def Let_def)

lemma raw_sample_rate_unit: "0 \<le> raw_sample_rate env \<and> raw_sample_rate env \<le> 1"
  by (simp add: raw_sample_rate_def clamp_rate_unit less_imp_le default_rate_unit split: sum.split)

lemma in_map_filter: "y \<in> set (List.map_filter f xs) \<longleftrightarrow> (\<exists>x \<in> set xs. f x = Some y)"
  by (induction xs) (auto simp: List.map_filter_simps split: option.split)

lemma bindR_result:
  "(\<And>x. \<forall>c. f x = Inr c \<longrightarrow> Q c) \<Longrightarrow> \<forall>c. bindR r f = Inr c \<longrightarrow> Q c"
  by (cases r) simp_all

lemma load_config_parts:
  "\<forall>cfg. load_config env = Inr cfg \<longrightarrow>
     cfg_poll_seconds cfg = poll_seconds env \<and> cfg_poll_idle_seconds cfg = poll_idle_seconds env \<and>
     cfg_raw_sample_rate cfg = raw_sample_rate env \<and> cfg_enabled_protocols cfg = protocols_enabled env"
  unfolding load_config_def
  by (intro bindR_result) simp

section \<open>Properties\<close>

text \<open>
  A process that starts runs with sane limits whatever the environment says: the poller is off
  or waits at least ten seconds, a parked vehicle is never polled more often than a moving one, the
  sampling rate is a probability, and the families are the known ones among those requested.
\<close>

lemma config_sane:
  assumes "load_config env = Inr cfg"
  shows "(cfg_poll_seconds cfg = 0 \<or> 10 \<le> cfg_poll_seconds cfg) \<and>
    cfg_poll_seconds cfg \<le> cfg_poll_idle_seconds cfg \<and>
    0 \<le> cfg_raw_sample_rate cfg \<and> cfg_raw_sample_rate cfg \<le> 1 \<and>
    (\<forall>fam. fam \<in> cfg_enabled_protocols cfg \<longleftrightarrow>
       (\<exists>name. (name, fam) \<in> set ALL_PROTOCOLS \<and> name \<in> set (protocols_requested env)))"
proof -
  have parts: "cfg_poll_seconds cfg = poll_seconds env \<and> cfg_poll_idle_seconds cfg = poll_idle_seconds env \<and>
    cfg_raw_sample_rate cfg = raw_sample_rate env \<and> cfg_enabled_protocols cfg = protocols_enabled env"
    using assms load_config_parts by blast
  have distinct_names: "distinct (map fst ALL_PROTOCOLS)" by (simp add: ALL_PROTOCOLS_def)
  have "poll_seconds env = 0 \<or> 10 \<le> poll_seconds env" by (simp add: poll_seconds_def Let_def)
  moreover have "fam \<in> protocols_enabled env \<longleftrightarrow>
      (\<exists>name. (name, fam) \<in> set ALL_PROTOCOLS \<and> name \<in> set (protocols_requested env))" for fam
    using map_of_eq_Some_iff [OF distinct_names] by (auto simp: protocols_enabled_def in_map_filter)
  ultimately show ?thesis
    using parts raw_sample_rate_unit [of env] by (simp add: poll_idle_seconds_def)
qed

end
