(* ===== verification/Persistence.thy ===== *)
theory Persistence
  imports World V5_Parser
begin

text \<open>
  Everything the gateway writes to and reads from PostgreSQL: repositories/device_repository.py,
  raw_packet_repository.py, command_response_repository.py, services/tracking_service.py,
  event_service.py, command_response_service.py and raw_packet_policy.py. Each SQL statement is a
  function on the tables it names; the coroutine around it borrows a connection, may fail at any
  statement, and always gives the connection back.
\<close>

section \<open>repositories/device_repository.py\<close>

definition activated :: "string option" where
  "activated = Some ''Activated''"

text \<open>
  Step 1: the row of GpsDevices joined with the setup row of the same IMEI; step 2: the setup row.
  The lookup ends with a verdict, or with the setup row of a device still to be registered.
\<close>

datatype verdict = Rejected | Known string | Register setup_row

definition lookup_device :: "string \<Rightarrow> verdict act" where
  "lookup_device imei =
     bindM (fetch (\<lambda>d. map_option (\<lambda>g. (gd_device_id g, setup_devices d imei)) (gps_devices d imei)))
       (\<lambda>row. case row of
          Some (device_id, setup) \<Rightarrow>
            (case setup of
               Some su \<Rightarrow> (if su_status su \<noteq> None \<and> su_status su \<noteq> activated
                          then ret Rejected else ret (Known device_id))
             | None \<Rightarrow> ret (Known device_id))
        | None \<Rightarrow>
            bindM (fetch (\<lambda>d. setup_devices d imei)) (\<lambda>setup.
              case setup of
                None \<Rightarrow> ret Rejected
              | Some su \<Rightarrow> (if su_status su \<noteq> activated then ret Rejected else ret (Register su))))"

text \<open>\<^verbatim>\<open>INSERT INTO "GpsDevices" ... ON CONFLICT ("ImeiNumber") DO NOTHING\<close>.\<close>

definition insert_gps_device :: "string \<Rightarrow> gps_device_row \<Rightarrow> database \<Rightarrow> database" where
  "insert_gps_device imei row d =
     (case gps_devices d imei of
        Some _ \<Rightarrow> d
      | None \<Rightarrow> d \<lparr> gps_devices := (gps_devices d)(imei \<mapsto> row) \<rparr>)"

definition auto_register :: "string \<Rightarrow> string \<Rightarrow> string \<Rightarrow> setup_row \<Rightarrow> string option act" where
  "auto_register imei protocol_type default_model setup =
     bindM uuid4 (\<lambda>device_id.
       tryM
         (managed_connection
           (thenM
             (execute (insert_gps_device imei
               \<lparr> gd_device_id = device_id,
                 gd_sim_number = su_sim_number setup,
                 gd_device_model = (case su_device_category setup of
                     Some c \<Rightarrow> (if c \<noteq> [] then c else default_model) | None \<Rightarrow> default_model),
                 gd_protocol_type = protocol_type,
                 gd_activation_status = 1 \<rparr>))
             (fetch (\<lambda>d. map_option gd_device_id (gps_devices d imei)))))
         (\<lambda>_. ret None))"

text \<open>
  The first connection is acquired outside the try: a pool that cannot give one raises to the
  caller. Errors inside are a rejection.
\<close>

definition get_device_by_imei :: "string \<Rightarrow> string \<Rightarrow> string \<Rightarrow> string option act" where
  "get_device_by_imei imei protocol_type default_model =
     bindM (thenM acquire (finallyM (tryM (lookup_device imei) (\<lambda>_. ret Rejected)) release))
       (\<lambda>v. case v of
          Rejected \<Rightarrow> ret None
        | Known device_id \<Rightarrow> ret (Some device_id)
        | Register setup \<Rightarrow> auto_register imei protocol_type default_model setup)"

definition active_vehicle :: "database \<Rightarrow> string \<Rightarrow> string option" where
  "active_vehicle d device_id =
     map_option as_vehicle_id
       (List.find (\<lambda>a. as_device_id a = device_id \<and> as_status a = 1) (assignments d))"

definition get_vehicle_by_device :: "string \<Rightarrow> string option act" where
  "get_vehicle_by_device device_id =
     thenM acquire
       (finallyM (tryM (fetch (\<lambda>d. active_vehicle d device_id)) (\<lambda>_. ret None)) release)"

definition get_device_status :: "string \<Rightarrow> status_row option act" where
  "get_device_status device_id =
     thenM acquire
       (finallyM (tryM (fetch (\<lambda>d. device_statuses d device_id)) (\<lambda>_. ret None)) release)"

section \<open>services/tracking_service.py\<close>

text \<open>
  The plain insert, and with \<^verbatim>\<open>GPS_TRACKING_IDEMPOTENT\<close> the one with
  \<^verbatim>\<open>ON CONFLICT ("DeviceId", "EventTime") DO NOTHING\<close>, which PostgreSQL runs only with the unique index
  of docs/gps-tracking-idempotency.md in place. The two mismatches of flag and index are errors of the
  database without effect, like any other: \<open>FailsClean\<close>.
\<close>

definition insert_tracking :: "bool \<Rightarrow> tracking_row \<Rightarrow> database \<Rightarrow> database" where
  "insert_tracking idempotent row d =
     (if idempotent \<and> list_ex (\<lambda>t. tr_device_id t = tr_device_id row
                                \<and> tr_event_time t = tr_event_time row) (gps_trackings d)
      then d else d \<lparr> gps_trackings := gps_trackings d @ [row] \<rparr>)"

definition stored_ignition :: "database \<Rightarrow> string \<Rightarrow> bool" where
  "stored_ignition d device_id =
     (case device_statuses d device_id of Some st \<Rightarrow> st_ignition st | None \<Rightarrow> False)"

text \<open>The single statement of \<^verbatim>\<open>save_location\<close>: history row, then the live row when a vehicle is assigned.\<close>

definition save_location_sql :: "bool \<Rightarrow> tracking_row \<Rightarrow> database \<Rightarrow> string option \<times> database" where
  "save_location_sql idempotent row d =
     (let d1 = insert_tracking idempotent row d; dev = tr_device_id row
      in case active_vehicle d dev of
           None \<Rightarrow> (None, d1)
         | Some vehicle \<Rightarrow>
             (Some dev, d1 \<lparr> current_locations := (current_locations d1)(dev \<mapsto>
                \<lparr> cl_vehicle_id = vehicle,
                  cl_latitude = tr_latitude row, cl_longitude = tr_longitude row,
                  cl_speed = tr_speed row, cl_heading = tr_heading row,
                  cl_ignition = stored_ignition d dev,
                  cl_movement = (case tr_speed row of Some v \<Rightarrow> 0 < v | None \<Rightarrow> False),
                  cl_last_update = tr_event_time row \<rparr>) \<rparr>))"

definition tracking_params ::
    "string \<Rightarrow> pyfloat \<Rightarrow> pyfloat \<Rightarrow> pyfloat \<Rightarrow> pyfloat \<Rightarrow> nat \<Rightarrow> datetime \<Rightarrow> tracking_row result" where
  "tracking_params device_id latitude longitude speed heading satellites event_time =
     bindR (clean_decimal 6 (Some latitude)) (\<lambda>lat.
     bindR (clean_decimal 6 (Some longitude)) (\<lambda>lon.
     bindR (clean_decimal 2 (Some speed)) (\<lambda>spd.
     bindR (clean_decimal 2 (Some heading)) (\<lambda>hdg.
       Inr \<lparr> tr_device_id = device_id, tr_latitude = lat, tr_longitude = lon, tr_speed = spd,
             tr_heading = hdg, tr_satellites = satellites, tr_event_time = event_time \<rparr>))))"

definition save_location ::
    "config \<Rightarrow> string \<Rightarrow> pyfloat \<Rightarrow> pyfloat \<Rightarrow> pyfloat \<Rightarrow> pyfloat \<Rightarrow> nat \<Rightarrow> datetime \<Rightarrow> bool act" where
  "save_location cfg device_id latitude longitude speed heading satellites event_time =
     managed_connection
       (bindM (liftR (tracking_params device_id latitude longitude speed heading satellites event_time))
         (\<lambda>row. bindM (statement (save_location_sql (cfg_gps_idempotent cfg) row))
           (\<lambda>updated. ret (updated \<noteq> None))))"

text \<open>The older pair of writers, no longer called by the handlers.\<close>

definition save_tracking ::
    "string \<Rightarrow> pyfloat \<Rightarrow> pyfloat \<Rightarrow> pyfloat \<Rightarrow> pyfloat \<Rightarrow> nat \<Rightarrow> datetime \<Rightarrow> unit act" where
  "save_tracking device_id latitude longitude speed heading satellites event_time =
     managed_connection
       (bindM (liftR (tracking_params device_id latitude longitude speed heading satellites event_time))
         (\<lambda>row. execute (insert_tracking False row)))"

definition update_current_location ::
    "string \<Rightarrow> string \<Rightarrow> pyfloat \<Rightarrow> pyfloat \<Rightarrow> pyfloat \<Rightarrow> pyfloat \<Rightarrow> datetime \<Rightarrow> unit act" where
  "update_current_location device_id vehicle_id latitude longitude speed heading event_time =
     managed_connection
       (bindM (fetch (\<lambda>d. stored_ignition d device_id)) (\<lambda>ignition.
        bindM (liftR (tracking_params device_id latitude longitude speed heading 0 event_time)) (\<lambda>row.
          execute (\<lambda>d. d \<lparr> current_locations := (current_locations d)(device_id \<mapsto>
            \<lparr> cl_vehicle_id = vehicle_id,
              cl_latitude = tr_latitude row, cl_longitude = tr_longitude row,
              cl_speed = tr_speed row, cl_heading = tr_heading row,
              cl_ignition = ignition, cl_movement = f_positive speed,
              cl_last_update = event_time \<rparr>) \<rparr>))))"

definition upsert_status :: "string \<Rightarrow> status_row \<Rightarrow> (status_row \<Rightarrow> status_row) \<Rightarrow> database \<Rightarrow> database" where
  "upsert_status dev new f d =
     d \<lparr> device_statuses := (device_statuses d)(dev \<mapsto>
           (case device_statuses d dev of None \<Rightarrow> new | Some old \<Rightarrow> f old)) \<rparr>"

text \<open>\<^verbatim>\<open>UPDATE "DeviceStatuses" SET ... WHERE "DeviceId" = ...\<close>: nothing without a row.\<close>

definition update_status :: "string \<Rightarrow> (status_row \<Rightarrow> status_row) \<Rightarrow> database \<Rightarrow> database" where
  "update_status dev f d =
     d \<lparr> device_statuses := (device_statuses d)(dev := map_option f (device_statuses d dev)) \<rparr>"

definition update_device_status ::
    "string \<Rightarrow> nat \<Rightarrow> nat \<Rightarrow> bool \<Rightarrow> bool \<Rightarrow> nat \<Rightarrow> unit act" where
  "update_device_status dev battery_level gps_signal ignition_status movement_status power_status =
     bindM now_utc (\<lambda>now.
       (let row = \<lparr> st_is_online = True, st_last_heartbeat = Some now, st_last_seen = now,
                    st_gps_signal = gps_signal, st_battery_level = battery_level,
                    st_ignition = ignition_status, st_movement = movement_status,
                    st_power = power_status, st_updated_at = now \<rparr>
        in managed_connection (execute (upsert_status dev row (\<lambda>_. row)))))"

definition default_status :: "datetime option \<Rightarrow> datetime \<Rightarrow> bool \<Rightarrow> status_row" where
  "default_status heartbeat now ignition =
     \<lparr> st_is_online = True, st_last_heartbeat = heartbeat, st_last_seen = now, st_gps_signal = 0,
       st_battery_level = 0, st_ignition = ignition, st_movement = False, st_power = 0,
       st_updated_at = now \<rparr>"

definition mark_device_alive :: "string \<Rightarrow> bool \<Rightarrow> unit act" where
  "mark_device_alive dev heartbeat =
     bindM now_utc (\<lambda>now.
       (let hb = (if heartbeat then Some now else None)
        in managed_connection (execute (upsert_status dev (default_status hb now False)
             (\<lambda>old. old \<lparr> st_is_online := True,
                          st_last_heartbeat := (case hb of Some t \<Rightarrow> Some t
                                                | None \<Rightarrow> st_last_heartbeat old),
                          st_last_seen := now, st_updated_at := now \<rparr>)))))"

definition set_ignition :: "string \<Rightarrow> bool \<Rightarrow> unit act" where
  "set_ignition dev ignition_status =
     bindM now_utc (\<lambda>now.
       managed_connection (execute (upsert_status dev (default_status None now ignition_status)
         (\<lambda>old. old \<lparr> st_ignition := ignition_status, st_last_seen := now, st_updated_at := now \<rparr>))))"

definition update_heartbeat :: "string \<Rightarrow> unit act" where
  "update_heartbeat dev =
     bindM now_utc (\<lambda>now.
       managed_connection (execute (update_status dev
         (\<lambda>old. old \<lparr> st_is_online := True, st_last_heartbeat := Some now,
                      st_last_seen := now, st_updated_at := now \<rparr>))))"

definition set_device_offline :: "string \<Rightarrow> unit act" where
  "set_device_offline dev =
     bindM now_utc (\<lambda>now.
       managed_connection (execute (update_status dev
         (\<lambda>old. old \<lparr> st_is_online := False, st_updated_at := now \<rparr>))))"

definition db_update_last_seen :: "string \<Rightarrow> unit act" where
  "db_update_last_seen dev =
     bindM now_utc (\<lambda>now.
       managed_connection (execute (update_status dev
         (\<lambda>old. old \<lparr> st_last_seen := now, st_updated_at := now \<rparr>))))"

definition set_device_online :: "string \<Rightarrow> unit act" where
  "set_device_online dev =
     bindM now_utc (\<lambda>now.
       managed_connection (execute (update_status dev
         (\<lambda>old. old \<lparr> st_is_online := True, st_last_seen := now, st_updated_at := now \<rparr>))))"

section \<open>services/event_service.py\<close>

datatype severity = LOW | MEDIUM | HIGH | CRITICAL

fun severity_value :: "severity \<Rightarrow> nat" where
  "severity_value LOW = 1"
| "severity_value MEDIUM = 2"
| "severity_value HIGH = 3"
| "severity_value CRITICAL = 4"

definition create_event ::
    "string \<Rightarrow> string option \<Rightarrow> string \<Rightarrow> severity \<Rightarrow> pyfloat option \<Rightarrow> pyfloat option
     \<Rightarrow> string \<Rightarrow> (string \<times> json) list \<Rightarrow> unit act" where
  "create_event device_id vehicle_id event_type severity latitude longitude description metadata =
     bindM (liftR (clean_coordinates latitude longitude)) (\<lambda>(lat, lon).
       managed_connection
         (bindM now_utc (\<lambda>now.
           execute (\<lambda>d. d \<lparr> device_events := device_events d @
             [\<lparr> ev_device_id = device_id, ev_vehicle_id = vehicle_id, ev_event_type = event_type,
                ev_severity = severity_value severity, ev_latitude = lat, ev_longitude = lon,
                ev_description = description,
                ev_metadata = (if metadata \<noteq> [] then Some (JObj metadata) else None),
                ev_created_at = now \<rparr>] \<rparr>))))"

section \<open>Raw packets and command responses\<close>

definition should_store_raw :: "config \<Rightarrow> bool \<Rightarrow> bool act" where
  "should_store_raw cfg always =
     (case cfg_raw_packet_mode cfg of
        RawOff \<Rightarrow> ret False
      | RawAll \<Rightarrow> ret True
      | RawSelective \<Rightarrow>
          (if always then ret True
           else bindM random_unit (\<lambda>x. ret (x < cfg_raw_sample_rate cfg))))"

definition raw_packet_save :: "string \<Rightarrow> string \<Rightarrow> string \<Rightarrow> bool \<Rightarrow> unit act" where
  "raw_packet_save device_id protocol_number raw_hex parsed =
     managed_connection
       (bindM now_utc (\<lambda>now.
         execute (\<lambda>d. d \<lparr> raw_packets := raw_packets d @
           [\<lparr> rp_device_id = device_id, rp_protocol_number = protocol_number,
              rp_raw_hex = raw_hex, rp_packet_length = length raw_hex div 2,
              rp_received_at = now, rp_parsed = parsed \<rparr>] \<rparr>)))"

text \<open>\<^verbatim>\<open>_save_raw\<close>: the same helper in the three handlers, with their protocol name.\<close>

definition save_raw :: "config \<Rightarrow> string \<Rightarrow> string \<Rightarrow> bytes \<Rightarrow> bool \<Rightarrow> bool \<Rightarrow> unit act" where
  "save_raw cfg device_id protocol raw always parsed =
     bindM (should_store_raw cfg always) (\<lambda>store.
       whenM store (raw_packet_save device_id protocol (hex_of raw) parsed))"

definition command_response_save :: "string \<Rightarrow> string \<Rightarrow> string \<Rightarrow> json \<Rightarrow> unit act" where
  "command_response_save device_id command raw_response parsed_data =
     managed_connection
       (execute (\<lambda>d. d \<lparr> command_responses := command_responses d @
         [\<lparr> cr_device_id = device_id, cr_command = command,
            cr_raw_response = filter (\<lambda>c. char_code c \<noteq> 0) raw_response,
            cr_parsed_data = parsed_data \<rparr>] \<rparr>))"


section \<open>What the coroutines keep\<close>

lemmas query_defs = get_device_by_imei_def lookup_device_def auto_register_def
  get_vehicle_by_device_def get_device_status_def
lemmas writer_defs = save_location_def save_tracking_def update_current_location_def
  update_device_status_def mark_device_alive_def set_ignition_def update_heartbeat_def
  set_device_offline_def db_update_last_seen_def set_device_online_def create_event_def
  should_store_raw_def raw_packet_save_def save_raw_def command_response_save_def

lemma acquire_release_eq: "thenM acquire (finallyM m release) = managed_connection m"
  by (simp add: managed_connection_def)

lemma keeps_case_verdict:
  "keeps I m \<Longrightarrow> (\<And>x. keeps I (f x)) \<Longrightarrow> (\<And>x. keeps I (g x)) \<Longrightarrow>
   keeps I (case v of Rejected \<Rightarrow> m | Known x \<Rightarrow> f x | Register x \<Rightarrow> g x)"
  by (cases v) auto

lemma keeps_case_raw_mode:
  "keeps I m \<Longrightarrow> keeps I k \<Longrightarrow> keeps I l \<Longrightarrow>
   keeps I (case v of RawAll \<Rightarrow> m | RawSelective \<Rightarrow> k | RawOff \<Rightarrow> l)"
  by (cases v) auto

text \<open>
  A computation that touches the tables and the oracle only: it keeps every session invariant and
  gives back the connections it borrows.
\<close>

definition tables_only :: "'a act \<Rightarrow> bool" where
  "tables_only m \<longleftrightarrow> (\<forall>I. session_inv I \<longrightarrow> keeps I m) \<and> (\<forall>n. keeps (pool_is n) m)"

lemma tables_onlyI:
  "(\<And>I. session_inv I \<Longrightarrow> keeps I m) \<Longrightarrow> (\<And>n. keeps (pool_is n) m) \<Longrightarrow> tables_only m"
  by (simp add: tables_only_def)

lemma tables_onlyD:
  "tables_only m \<Longrightarrow> session_inv I \<Longrightarrow> keeps I m" "tables_only m \<Longrightarrow> keeps (pool_is n) m"
  by (simp_all add: tables_only_def)

lemma tables_only_query:
  "tables_only (get_device_by_imei i p m)" "tables_only (get_vehicle_by_device d)"
  "tables_only (get_device_status d)"
  unfolding query_defs acquire_release_eq
  by ((rule tables_onlyI, (intro keeps_intros keeps_case_verdict; simp), (intro pool_intros keeps_case_verdict; simp))+)

lemma tables_only_location:
  "tables_only (save_location c d la lo sp hg sa t)" "tables_only (save_tracking d la lo sp hg sa t)"
  "tables_only (update_current_location d v la lo sp hg t)"
  unfolding writer_defs
  by ((rule tables_onlyI, (intro keeps_intros; simp), (intro pool_intros; simp))+)

lemma tables_only_status:
  "tables_only (update_device_status d b g i m pw)" "tables_only (mark_device_alive d h)"
  "tables_only (set_ignition d i)" "tables_only (update_heartbeat d)"
  "tables_only (set_device_offline d)" "tables_only (db_update_last_seen d)"
  "tables_only (set_device_online d)"
  unfolding writer_defs Let_def
  by ((rule tables_onlyI, (intro keeps_intros; simp), (intro pool_intros; simp))+)

lemma tables_only_records:
  "tables_only (create_event d v et sv la lo ds md)" "tables_only (should_store_raw c a)"
  "tables_only (raw_packet_save d p h ok)" "tables_only (save_raw c d p raw a ok)"
  "tables_only (command_response_save d cm r j)"
  unfolding writer_defs
  by ((rule tables_onlyI, (intro keeps_intros keeps_case_raw_mode; simp), (intro pool_intros keeps_case_raw_mode; simp))+)

lemmas tables_only_ops = tables_only_query tables_only_location tables_only_status tables_only_records
lemmas keeps_tables [keeps_intros] = tables_only_ops [THEN tables_onlyD(1)]
lemmas pool_tables [pool_intros] = tables_only_ops [THEN tables_onlyD(2)]

section \<open>Admission\<close>

text \<open>
  What the tables must say for a device to be let in: a known device whose setup row, if any, does
  not refuse it, or a device not known yet whose setup row is activated.
\<close>

definition admitted :: "database \<Rightarrow> string \<Rightarrow> bool" where
  "admitted d imei \<longleftrightarrow>
     (case gps_devices d imei of
        Some g \<Rightarrow> (case setup_devices d imei of
                     Some su \<Rightarrow> su_status su = None \<or> su_status su = activated
                   | None \<Rightarrow> True)
      | None \<Rightarrow> (case setup_devices d imei of
                    Some su \<Rightarrow> su_status su = activated | None \<Rightarrow> False))"

text \<open>The verdict the tables call for.\<close>

definition verdict_of :: "database \<Rightarrow> string \<Rightarrow> verdict" where
  "verdict_of d imei =
     (if \<not> admitted d imei then Rejected
      else case gps_devices d imei of Some g \<Rightarrow> Known (gd_device_id g)
           | None \<Rightarrow> Register (the (setup_devices d imei)))"

lemma lookup_device_Inr:
  "lookup_device imei w = (Inr v, w') \<Longrightarrow> v = verdict_of (db w) imei \<and> db w' = db w"
  by (cases "gps_devices (db w) imei"; cases "setup_devices (db w) imei")
    (auto simp: lookup_device_def bindM_eq_Inr_iff verdict_of_def admitted_def
      dest!: fetch_Inr split: if_splits)

lemma lookup_device_healthy:
  assumes "healthy w"
  shows "\<exists>w'. lookup_device imei w = (Inr (verdict_of (db w) imei), w') \<and> healthy w' \<and> db w' = db w"
  using assms
  by (cases "gps_devices (db w) imei"; cases "setup_devices (db w) imei")
    (auto simp: lookup_device_def bindM_def healthy_fetch verdict_of_def admitted_def)

lemma get_device_admitted:
  assumes "get_device_by_imei imei p m w = (Inr (Some dev), w')"
  shows "admitted (db w) imei"
proof -
  from assms obtain v w1 where
    m: "managed_connection (tryM (lookup_device imei) (\<lambda>_. ret Rejected)) w = (Inr v, w1)" and
    k: "(case v of Rejected \<Rightarrow> ret None | Known d \<Rightarrow> ret (Some d)
         | Register su \<Rightarrow> auto_register imei p m su) w1 = (Inr (Some dev), w')"
    unfolding get_device_by_imei_def acquire_release_eq bindM_eq_Inr_iff by blast
  from k have v: "v \<noteq> Rejected" by auto
  from m obtain w2 w3 where "tryM (lookup_device imei) (\<lambda>_. ret Rejected) w2 = (Inr v, w3)" "db w2 = db w"
    by (metis managed_Inr)
  with v have "v = verdict_of (db w) imei"
    by (auto simp: tryM_eq_Inr_iff dest: lookup_device_Inr)
  with v show ?thesis by (auto simp: verdict_of_def split: if_splits)
qed

lemma healthy_lookup_managed:
  assumes "healthy w"
  shows "\<exists>w'. managed_connection (tryM (lookup_device imei) (\<lambda>_. ret Rejected)) w =
               (Inr (verdict_of (db w) imei), w') \<and> healthy w' \<and> db w' = db w"
proof -
  let ?w = "(tick w) \<lparr> pool_in_use := Suc (pool_in_use w) \<rparr>"
  from assms obtain w1 where
    "lookup_device imei ?w = (Inr (verdict_of (db w) imei), w1)" "healthy w1" "db w1 = db w"
    using lookup_device_healthy [of ?w imei] by auto
  then show ?thesis
    using healthy_managed [OF assms, of "tryM (lookup_device imei) (\<lambda>_. ret Rejected)"]
    by (auto simp: tryM_def)
qed

text \<open>When the database answers, admission decides, and a known device keeps its identifier.\<close>

lemma get_device_healthy:
  assumes "healthy w"
  shows "\<exists>r w'. get_device_by_imei imei p m w = (Inr r, w') \<and> (r \<noteq> None \<longleftrightarrow> admitted (db w) imei) \<and>
    (\<forall>g. gps_devices (db w) imei = Some g \<and> r \<noteq> None \<longrightarrow> r = Some (gd_device_id g))"
proof -
  obtain w1 where m: "managed_connection (tryM (lookup_device imei) (\<lambda>_. ret Rejected)) w =
      (Inr (verdict_of (db w) imei), w1)" and w1: "healthy w1" "db w1 = db w"
    using healthy_lookup_managed [OF assms] by blast
  have reg: "\<exists>dev w'. auto_register imei p m su w1 = (Inr (Some dev), w')" for su
    using w1
    by (auto simp: auto_register_def bindM_def uuid4_def tryM_def managed_connection_def thenM_def
        finallyM_def healthy_acquire release_def execute_def fetch_def statement_def
        healthy_external insert_gps_device_def split: option.splits)
  show ?thesis
  proof (cases "verdict_of (db w) imei")
    case Rejected
    then have "\<not> admitted (db w) imei"
      by (auto simp: verdict_of_def admitted_def split: option.splits if_splits)
    with m Rejected show ?thesis
      by (auto simp: get_device_by_imei_def acquire_release_eq bindM_def)
  next
    case (Known dev)
    then have "admitted (db w) imei" "\<exists>g. gps_devices (db w) imei = Some g \<and> gd_device_id g = dev"
      by (auto simp: verdict_of_def split: option.splits if_splits)
    with m Known show ?thesis
      by (auto simp: get_device_by_imei_def acquire_release_eq bindM_def)
  next
    case (Register su)
    then have "admitted (db w) imei" "gps_devices (db w) imei = None"
      by (auto simp: verdict_of_def split: option.splits if_splits)
    with m Register reg [of su] show ?thesis
      by (auto simp: get_device_by_imei_def acquire_release_eq bindM_def)
  qed
qed

section \<open>Stored positions\<close>

text \<open>The physical bounds every family checks before it stores a position.\<close>

definition location_plausible :: "pyfloat \<Rightarrow> pyfloat \<Rightarrow> pyfloat \<Rightarrow> pyfloat \<Rightarrow> bool" where
  "location_plausible lat lon speed heading \<longleftrightarrow>
     f_between (- 90) lat 90 \<and> f_between (- 180) lon 180 \<and>
     f_between 0 speed 300 \<and> f_between 0 heading 360"

definition in_bounds :: "rat \<Rightarrow> rat \<Rightarrow> rat option \<Rightarrow> bool" where
  "in_bounds lo hi v \<longleftrightarrow> (case v of None \<Rightarrow> False | Some x \<Rightarrow> lo \<le> x \<and> x \<le> hi)"

definition stored_position_ok :: "rat option \<Rightarrow> rat option \<Rightarrow> rat option \<Rightarrow> rat option \<Rightarrow> bool" where
  "stored_position_ok lat lon speed heading \<longleftrightarrow>
     in_bounds (- 90) 90 lat \<and> in_bounds (- 180) 180 lon \<and> in_bounds 0 300 speed \<and> in_bounds 0 360 heading"

definition stored_event_ok :: "event_row \<Rightarrow> bool" where
  "stored_event_ok e \<longleftrightarrow> ev_severity e \<in> {1 .. 4} \<and>
     ((ev_latitude e = None \<and> ev_longitude e = None) \<or>
      (in_bounds (- 90) 90 (ev_latitude e) \<and> in_bounds (- 180) 180 (ev_longitude e)))"

text \<open>
  The columns other programs read with a type of their own: the API's \<^verbatim>\<open>PowerStatus\<close> has the values
  0 and 1, \<^verbatim>\<open>PacketLength\<close> counts the bytes of the hexadecimal text, and PostgreSQL refuses a
  null byte in a text column.
\<close>

definition stored_rows_ok :: "database \<Rightarrow> bool" where
  "stored_rows_ok d \<longleftrightarrow>
     (\<forall>dev st. device_statuses d dev = Some st \<longrightarrow> st_power st \<le> 1) \<and>
     (\<forall>r \<in> set (raw_packets d). length (rp_raw_hex r) = 2 * rp_packet_length r) \<and>
     (\<forall>r \<in> set (command_responses d). \<forall>c \<in> set (cr_raw_response r). char_code c \<noteq> 0)"

text \<open>
  The invariant of the tables: no history row, live position or event carries an impossible
  position, and every row is well typed.
\<close>

definition db_ok :: "database \<Rightarrow> bool" where
  "db_ok d \<longleftrightarrow>
     (\<forall>t \<in> set (gps_trackings d).
        stored_position_ok (tr_latitude t) (tr_longitude t) (tr_speed t) (tr_heading t)) \<and>
     (\<forall>v c. current_locations d v = Some c \<longrightarrow>
        stored_position_ok (cl_latitude c) (cl_longitude c) (cl_speed c) (cl_heading c)) \<and>
     (\<forall>e \<in> set (device_events d). stored_event_ok e) \<and> stored_rows_ok d"

lemma clean_in_bounds:
  assumes "f_between lo v hi" and "clean_decimal p (Some v) = Inr r"
  shows "in_bounds (of_int lo) (of_int hi) r"
proof -
  from f_between_finite [OF assms(1)] obtain x
    where x: "v = Fin x" "of_int lo \<le> x \<and> x \<le> of_int hi" by blast
  with assms(2) decimal_round_bounds [OF x(2), of p] show ?thesis by (auto simp: in_bounds_def)
qed

lemma tracking_params_ok:
  assumes "location_plausible lat lon speed heading"
    and "tracking_params dev lat lon speed heading sat t = Inr row"
  shows "stored_position_ok (tr_latitude row) (tr_longitude row) (tr_speed row) (tr_heading row)"
  using assms clean_in_bounds [of "- 90" lat 90 6] clean_in_bounds [of "- 180" lon 180 6]
    clean_in_bounds [of 0 speed 300 2] clean_in_bounds [of 0 heading 360 2]
  by (auto simp: location_plausible_def tracking_params_def result_simps stored_position_ok_def)

lemma insert_tracking_ok:
  "db_ok d \<Longrightarrow> stored_position_ok (tr_latitude row) (tr_longitude row) (tr_speed row) (tr_heading row)
   \<Longrightarrow> db_ok (insert_tracking i row d)"
  by (auto simp: insert_tracking_def db_ok_def stored_rows_ok_def)

lemma save_location_sql_ok:
  "db_ok d \<Longrightarrow> stored_position_ok (tr_latitude row) (tr_longitude row) (tr_speed row) (tr_heading row)
   \<Longrightarrow> db_ok (snd (save_location_sql i row d))"
  using insert_tracking_ok [of d row i]
  by (auto simp: save_location_sql_def Let_def db_ok_def stored_rows_ok_def split: option.split)

lemma bindM_liftR_Inr: "bindM (liftR (Inr x)) f = f x"
  by (rule ext) (simp add: bindM_def)

lemma save_location_db_ok:
  assumes "location_plausible lat lon speed heading"
  shows "keeps (on_db db_ok) (save_location cfg dev lat lon speed heading sat t)"
  unfolding save_location_def
  by (intro keeps_managed_db keeps_liftR_bind keeps_bindM keeps_ret keeps_statement_db
      save_location_sql_ok tracking_params_ok [OF assms])

lemma severity_range: "1 \<le> severity_value s" "Suc 0 \<le> severity_value s" "severity_value s \<le> 4"
  by (cases s; simp)+

lemma create_event_db_ok: "keeps (on_db db_ok) (create_event d v et sv lat lon ds md)"
proof -
  obtain a b where ab: "clean_coordinates lat lon = Inr (a, b)" using clean_coordinates_total by blast
  from clean_coordinates_bounds [OF this]
  have ok: "a = None \<and> b = None \<or> in_bounds (- 90) 90 a \<and> in_bounds (- 180) 180 b"
    by (auto simp: in_bounds_def)
  show ?thesis
    unfolding create_event_def ab
    by (simp only: bindM_liftR_Inr prod.case, intro keeps_managed_db keeps_bindM keeps_oracle_db
        keeps_execute_db) (use ok severity_range in \<open>auto simp: db_ok_def stored_event_ok_def stored_rows_ok_def\<close>)
qed

text \<open>No other statement writes a position.\<close>

lemma keeps_execute_other:
  assumes "\<And>d. gps_trackings (f d) = gps_trackings d"
    and "\<And>d. current_locations (f d) = current_locations d"
    and "\<And>d. device_events (f d) = device_events d"
    and "\<And>d. stored_rows_ok d \<Longrightarrow> stored_rows_ok (f d)"
  shows "keeps (on_db db_ok) (execute f)"
  by (rule keeps_execute_db) (simp add: db_ok_def assms)

lemma upsert_rows_ok:
  "stored_rows_ok d \<Longrightarrow> st_power new \<le> 1 \<Longrightarrow> (\<And>old. st_power old \<le> 1 \<Longrightarrow> st_power (f old) \<le> 1) \<Longrightarrow>
   stored_rows_ok (upsert_status dev new f d)"
  by (auto simp: stored_rows_ok_def upsert_status_def split: option.split)

lemma update_rows_ok:
  "stored_rows_ok d \<Longrightarrow> (\<And>old. st_power (f old) = st_power old) \<Longrightarrow> stored_rows_ok (update_status dev f d)"
  by (auto simp: stored_rows_ok_def update_status_def)

lemma status_db_ok [keeps_intros]:
  "pw \<le> 1 \<Longrightarrow> keeps (on_db db_ok) (update_device_status d b g i m pw)" "keeps (on_db db_ok) (mark_device_alive d h)"
  "keeps (on_db db_ok) (set_ignition d ig)" "keeps (on_db db_ok) (update_heartbeat d)"
  "keeps (on_db db_ok) (set_device_offline d)"
  unfolding writer_defs Let_def
  by (intro keeps_intros keeps_oracle_db keeps_execute_other upsert_rows_ok update_rows_ok;
      simp add: upsert_status_def update_status_def default_status_def)+

lemma records_db_ok [keeps_intros]:
  "keeps (on_db db_ok) (should_store_raw c a)" "keeps (on_db db_ok) (save_raw c d p raw a ok)"
  "keeps (on_db db_ok) (command_response_save d cm r j)"
  unfolding should_store_raw_def save_raw_def raw_packet_save_def command_response_save_def
  by (intro keeps_intros keeps_case_raw_mode keeps_oracle_db keeps_execute_other;
      auto simp: stored_rows_ok_def)+

lemma query_db_ok [keeps_intros]:
  "keeps (on_db db_ok) (get_device_by_imei i p m)" "keeps (on_db db_ok) (get_vehicle_by_device d)"
  unfolding query_defs acquire_release_eq
  by (intro keeps_intros keeps_case_verdict keeps_oracle_db keeps_execute_other;
      simp add: insert_gps_device_def stored_rows_ok_def split: option.split)+

lemmas [keeps_intros] = create_event_db_ok

section \<open>When no call fails\<close>

lemma reliable_status [reliable_intros]:
  "reliable (mark_device_alive d hb)" "reliable (set_ignition d ign)" "reliable (update_heartbeat d)"
  "reliable (update_device_status d b g i m pw)" "reliable (set_device_offline d)"
  unfolding mark_device_alive_def set_ignition_def update_heartbeat_def update_device_status_def
    set_device_offline_def Let_def
  by (intro reliable_bindM reliable_oracle reliable_managed reliable_execute)+

lemma reliable_vehicle [reliable_intros]: "reliable (get_vehicle_by_device d)"
  unfolding get_vehicle_by_device_def acquire_release_eq
  by (intro reliable_managed reliable_tryM reliable_execute)

lemma reliable_save_raw [reliable_intros]: "reliable (save_raw cfg d p raw a ok)"
proof -
  have "reliable (should_store_raw cfg a)"
    unfolding should_store_raw_def
    by (cases "cfg_raw_packet_mode cfg") (simp_all add: reliable_ret reliable_bindM reliable_oracle)
  then show ?thesis
    unfolding save_raw_def raw_packet_save_def
    by (intro reliable_bindM reliable_whenM reliable_managed reliable_oracle reliable_execute)
qed

lemma reliable_create_event [reliable_intros]: "reliable (create_event d v et sv la lo ds md)"
  unfolding create_event_def
proof (intro reliable_liftR)
  show "\<exists>x. clean_coordinates la lo = Inr x" using clean_coordinates_total [of la lo] by blast
qed (auto intro!: reliable_intros split: prod.split)

section \<open>Properties\<close>

text \<open>
  C15. Nobody is let in by accident: whatever the database does, a login gets a device id only for an
  IMEI the tables admit (known and not refused by its setup row, or activated and new); and when
  no call fails it gets one exactly then, the stored one for a known device.
\<close>

theorem admission:
  "(get_device_by_imei imei p m w = (Inr (Some dev), w') \<longrightarrow> admitted (db w) imei) \<and>
   (healthy w \<longrightarrow> (\<exists>r w''. get_device_by_imei imei p m w = (Inr r, w'') \<and>
      (r \<noteq> None \<longleftrightarrow> admitted (db w) imei) \<and>
      (\<forall>g. gps_devices (db w) imei = Some g \<and> r \<noteq> None \<longrightarrow> r = Some (gd_device_id g))))"
  by (intro conjI impI get_device_healthy) (rule get_device_admitted)

definition sample_database :: database where
  "sample_database = empty_database
     \<lparr> setup_devices := [''356'' \<mapsto> \<lparr> su_device_category = None, su_sim_number = None, su_status = activated \<rparr>],
       gps_devices := [''357'' \<mapsto> \<lparr> gd_device_id = ''d57'', gd_sim_number = None, gd_device_model = ''V5'',
                                    gd_protocol_type = ''GT06'', gd_activation_status = 1 \<rparr>] \<rparr>"

theorem admission_witness:
  "\<exists>r w'. get_device_by_imei ''356'' ''GT06'' ''V5'' (start_world sample_database) = (Inr r, w') \<and> r \<noteq> None"
  using admission [of "''356''" "''GT06''" "''V5''" "start_world sample_database"]
  by (simp add: admitted_def sample_database_def empty_database_def)

text \<open>
  A heartbeat that carries no telemetry destroys none: however the database behaves, marking a
  device alive leaves battery, signal, ignition, movement and power of its row, and the rows of all
  other devices, as they were.
\<close>

lemma alive_keeps_telemetry:
  assumes "device_statuses (db w) dev = Some old"
  shows "\<exists>new. device_statuses (db (snd (mark_device_alive dev hb w))) dev = Some new \<and>
    st_battery_level new = st_battery_level old \<and> st_gps_signal new = st_gps_signal old \<and>
    st_ignition new = st_ignition old \<and> st_movement new = st_movement old \<and> st_power new = st_power old \<and>
    (\<forall>other. other \<noteq> dev \<longrightarrow>
       device_statuses (db (snd (mark_device_alive dev hb w))) other = device_statuses (db w) other)"
proof -
  let ?D = "\<lambda>d. (\<exists>new. device_statuses d dev = Some new \<and>
    st_battery_level new = st_battery_level old \<and> st_gps_signal new = st_gps_signal old \<and>
    st_ignition new = st_ignition old \<and> st_movement new = st_movement old \<and> st_power new = st_power old) \<and>
    (\<forall>other. other \<noteq> dev \<longrightarrow> device_statuses d other = device_statuses (db w) other)"
  have "keeps (on_db ?D) (mark_device_alive dev hb)"
    unfolding mark_device_alive_def Let_def
    by (intro keeps_bindM keeps_oracle_db keeps_managed_db keeps_execute_db) (auto simp: upsert_status_def)
  from keepsD [OF this, of w] assms show ?thesis by (simp add: on_db_def)
qed

end
