(* ===== verification/Handler_Contract.thy ===== *)
theory Handler_Contract
  imports World Persistence "HOL-Library.Sublist"
begin

text \<open>
  What tcp_server.py relies on when it hands a frame to the handler of a device family: the handler
  returns, gives back every database connection, keeps the registry and the tables in order, writes
  to no other socket than its own, and authenticates its socket only as the IMEI of a login frame
  the tables admit. The contract is a locale; each handler's theory proves it for the handler's
  model, and the server's theory uses it once for all three.
\<close>

section \<open>The invariants of the contract\<close>

text \<open>Every authenticated socket is one \<open>A\<close> allows.\<close>

definition auth_within :: "(sock \<Rightarrow> string \<Rightarrow> bool) \<Rightarrow> registry \<Rightarrow> bool" where
  "auth_within A r \<longleftrightarrow> (\<forall>t i. get_imei_by_socket r t = Some i \<longrightarrow> A t i)"

text \<open>Nothing was written to a socket other than \<open>s\<close>, and what was written to \<open>s\<close> stays.\<close>

definition only_socket :: "sock \<Rightarrow> (sock \<Rightarrow> bytes list) \<Rightarrow> world \<Rightarrow> bool" where
  "only_socket s S w \<longleftrightarrow> (\<forall>t. t \<noteq> s \<longrightarrow> sent w t = S t) \<and> prefix (S s) (sent w s)"

lemma session_inv_only_socket [simp]: "session_inv (only_socket s S)"
  by (simp add: session_inv_def only_socket_def tick_def)

lemma reg_inv_only_socket [simp]: "reg_inv (only_socket s S)"
  by (simp add: reg_inv_def only_socket_def tick_def)

lemma only_socket_refl: "only_socket s (sent w) w"
  by (simp add: only_socket_def)

lemma write_drain_only_socket [keeps_intros]: "keeps (only_socket s S) (write_drain s b)"
  unfolding write_drain_def
  by (rule keeps_external) (auto simp: only_socket_def push_bytes_def tick_def)

lemma close_only_socket [keeps_intros]: "keeps (only_socket s S) (close_socket t)"
  by (auto simp: close_socket_def only_socket_def intro!: keeps_modifyM)

lemma send_reply_only_socket [keeps_intros]: "keeps (only_socket s S) (send_reply s b)"
  unfolding send_reply_def by (intro keeps_intros)

section \<open>The registry under the handlers' operations\<close>

lemma get_imei_put:
  "get_imei_by_socket (put_entry i e r) t = Some j \<Longrightarrow>
   (t = e_socket e \<and> j = i) \<or> get_imei_by_socket r t = Some j"
  by (auto simp: get_imei_by_socket_def by_socket_put split: if_splits option.splits)

lemma auth_within_register:
  "auth_within A r \<Longrightarrow> A s i \<Longrightarrow> auth_within A (register_device i ip dev s p t1 t2 r)"
  unfolding auth_within_def register_device_def new_entry_def
  by (metis get_imei_put entry.select_convs(4))

lemma reg_register_auth:
  "A s i \<Longrightarrow> keeps (on_reg (auth_within A)) (reg_register i ip dev s p)"
  unfolding reg_register_def
  by (intro keeps_bindM keeps_with_reg_reg auth_within_register keeps_oracle) simp_all

text \<open>A login registers the IMEI only when the tables admit it.\<close>

lemma login_at:
  assumes "I w" and "session_inv I" and "keeps I a"
    and "\<And>dev. admitted (db w) imei \<Longrightarrow> keeps I (b dev)"
  shows "I (snd (bindM (get_device_by_imei imei p md)
               (\<lambda>r. case r of None \<Rightarrow> a | Some dev \<Rightarrow> b dev) w))"
proof -
  obtain r w' where m: "get_device_by_imei imei p md w = (r, w')" by (cases "get_device_by_imei imei p md w")
  have "keeps I (get_device_by_imei imei p md)"
    using assms(2) by (rule tables_onlyD(1) [OF tables_only_query(1)])
  from keepsD2 [OF this m assms(1)] have I: "I w'" .
  show ?thesis
  proof (cases r)
    case (Inl e)
    with I m show ?thesis by (simp add: bindM_def)
  next
    case (Inr x)
    show ?thesis
    proof (cases x)
      case None
      with I m Inr assms(3) show ?thesis by (simp add: bindM_def keepsD)
    next
      case (Some dev)
      with Inr m have "admitted (db w) imei" by (auto dest: get_device_admitted)
      with assms(4) I m Inr Some show ?thesis by (simp add: bindM_def keepsD)
    qed
  qed
qed

text \<open>An invariant at one state through a composition.\<close>

lemma bindM_at:
  "I (snd (m w)) \<Longrightarrow> (\<And>x. keeps I (f x)) \<Longrightarrow> I (snd (bindM m f w))"
  by (cases "m w") (auto simp: bindM_def keepsD split: sum.split)

lemma tryM_at:
  "I (snd (m w)) \<Longrightarrow> (\<And>e. keeps I (h e)) \<Longrightarrow> I (snd (tryM m h w))"
  by (cases "m w") (auto simp: tryM_def keepsD split: sum.split)

lemma bindM_gets_at: "I (snd (f (g w) w)) \<Longrightarrow> I (snd (bindM (getsM g) f w))"
  by (simp add: bindM_def)

lemma bindM_lift_at: "I w \<Longrightarrow> (\<And>x. r = Inr x \<Longrightarrow> I (snd (f x w))) \<Longrightarrow> I (snd (bindM (liftR r) f w))"
  by (cases r) (auto simp: bindM_def)

section \<open>The contract\<close>

text \<open>Who may be authenticated after a frame on socket \<open>s\<close> whose login claims \<open>claim\<close>.\<close>

definition may_auth :: "world \<Rightarrow> sock \<Rightarrow> string option \<Rightarrow> sock \<Rightarrow> string \<Rightarrow> bool" where
  "may_auth w s claim t i \<longleftrightarrow>
     get_imei_by_socket (reg w) t = Some i \<or> (t = s \<and> claim = Some i \<and> admitted (db w) i)"

lemma may_auth_start: "on_reg (auth_within (may_auth w s claim)) w"
  by (simp add: on_reg_def auth_within_def may_auth_def)

locale frame_handler =
  fixes handle :: "config \<Rightarrow> bytes \<Rightarrow> sock \<Rightarrow> string \<Rightarrow> string option act"
    and good :: "bytes \<Rightarrow> bool"
    and claim :: "bytes \<Rightarrow> string option"
  assumes returns: "good raw \<Longrightarrow> \<exists>r w'. handle cfg raw s ip w = (Inr r, w')"
    and pool: "keeps (pool_is n) (handle cfg raw s ip)"
    and registry: "keeps (on_reg reg_ok) (handle cfg raw s ip)"
    and tables: "keeps (on_db db_ok) (handle cfg raw s ip)"
    and own_socket: "keeps (only_socket s S) (handle cfg raw s ip)"
    and auth: "auth_within (may_auth w s (claim raw)) (reg (snd (handle cfg raw s ip w)))"
begin

text \<open>Without a login in the frame nobody is authenticated who was not before.\<close>

lemma no_claim_no_auth:
  assumes "claim raw = None" and "get_imei_by_socket (reg (snd (handle cfg raw s ip w))) t = Some i"
  shows "get_imei_by_socket (reg w) t = Some i"
  using auth [of w s raw cfg ip] assms by (auto simp: auth_within_def may_auth_def)

text \<open>A device the tables do not admit is never authenticated by a frame.\<close>

lemma rejected_not_auth:
  assumes "\<not> admitted (db w) i" and "get_imei_by_socket (reg (snd (handle cfg raw s ip w))) t = Some i"
  shows "get_imei_by_socket (reg w) t = Some i"
  using auth [of w s raw cfg ip] assms by (auto simp: auth_within_def may_auth_def)

text \<open>All the parts of the gateway a frame cannot damage, in one step.\<close>

lemma frame_step:
  assumes "reg_ok (reg w)" and "db_ok (db w)" and "handle cfg raw s ip w = (r, w')"
  shows "reg_ok (reg w') \<and> db_ok (db w') \<and> pool_in_use w' = pool_in_use w \<and>
    (\<forall>t. t \<noteq> s \<longrightarrow> sent w' t = sent w t)"
  using assms keepsD [OF registry [of cfg raw s ip], of w] keepsD [OF tables [of cfg raw s ip], of w]
    keepsD [OF pool [of "pool_in_use w" cfg raw s ip], of w]
    keepsD [OF own_socket [of s "sent w" cfg raw ip], of w]
  by (simp add: part_defs only_socket_def)

end

end
