(* ===== verification/Gt06_Handler.thy ===== *)
theory Gt06_Handler
  imports World Persistence V5_Parser Decoders Handler_Contract Config
begin

text \<open>
  services/packet_handler.py: what the gateway does with one GT06/V5 frame. One definition per
  branch of \<^verbatim>\<open>process_packet\<close>; a branch returns \<^verbatim>\<open>current_imei\<close>, and an exception in it is logged
  and forgotten. Whatever the branch did, the acknowledgement is written last.
\<close>

section \<open>The branches\<close>

text \<open>\<^verbatim>\<open>_get_device(imei, writer)\<close>: no IMEI closes the socket, to force a new login.\<close>

definition gt06_device :: "string option \<Rightarrow> sock \<Rightarrow> entry option act" where
  "gt06_device imei s =
     (case imei of
        None \<Rightarrow> thenM (close_socket s) (ret None)
      | Some i \<Rightarrow> (if i = [] then thenM (close_socket s) (ret None) else reg_device i))"

text \<open>The work of a branch when the device is known; otherwise the branch ends without an IMEI.\<close>

definition for_device :: "string option \<Rightarrow> sock \<Rightarrow> (string \<Rightarrow> unit act) \<Rightarrow> string option act" where
  "for_device connection_imei s work =
     bindM (gt06_device connection_imei s) (\<lambda>device.
       case device of
         None \<Rightarrow> ret None
       | Some e \<Rightarrow> thenM (work (e_device_id e)) (ret connection_imei))"

definition gt06_model :: string where
  "gt06_model = ''V5''"

definition gt06_login :: "config \<Rightarrow> string \<Rightarrow> bytes \<Rightarrow> sock \<Rightarrow> string \<Rightarrow> string option act" where
  "gt06_login cfg protocol raw s ip =
     (let imei = login_imei (parse_login_packet raw)
      in bindM (get_device_by_imei imei ''GT06'' gt06_model) (\<lambda>device_id.
           case device_id of
             None \<Rightarrow> ret None
           | Some dev \<Rightarrow>
               (if dev = [] then ret None
                else thenM (reg_register imei ip dev s GT06)
                    (thenM (save_raw cfg dev protocol raw True True)
                    (bindM (get_vehicle_by_device dev) (\<lambda>vehicle_id.
                     thenM (create_event dev vehicle_id ''DEVICE_ONLINE'' LOW None None
                              ''Device connected to the gateway'' [])
                    (ret (Some imei))))))))"

definition gt06_location_valid :: "location \<Rightarrow> bool" where
  "gt06_location_valid loc \<longleftrightarrow>
     location_plausible (loc_latitude loc) (loc_longitude loc)
       (f_of_nat (loc_speed loc)) (f_of_nat (loc_heading loc))"

definition gt06_location ::
    "config \<Rightarrow> string \<Rightarrow> bytes \<Rightarrow> sock \<Rightarrow> string option \<Rightarrow> string option act" where
  "gt06_location cfg protocol raw s connection_imei =
     bindM (liftR (parse_location_packet raw)) (\<lambda>loc.
       if \<not> gt06_location_valid loc then ret connection_imei
       else for_device connection_imei s (\<lambda>dev.
              thenM (save_raw cfg dev protocol raw False True)
              (bindM (save_location cfg dev (loc_latitude loc) (loc_longitude loc)
                        (f_of_nat (loc_speed loc)) (f_of_nat (loc_heading loc))
                        (loc_satellites loc) (loc_timestamp loc)) (\<lambda>live_updated. ret ()))))"

definition POWER_CONNECTED :: nat where
  "POWER_CONNECTED = 0"

definition POWER_DISCONNECTED :: nat where
  "POWER_DISCONNECTED = 1"

definition store_terminal_status :: "string \<Rightarrow> terminal_status \<Rightarrow> unit act" where
  "store_terminal_status dev st =
     update_device_status dev (ts_battery_level st) (ts_gsm_signal st) (ts_ignition_status st)
       (ts_ignition_status st)
       (if ts_power_cut st then POWER_DISCONNECTED else POWER_CONNECTED)"

definition gt06_status ::
    "config \<Rightarrow> string \<Rightarrow> bytes \<Rightarrow> sock \<Rightarrow> string option \<Rightarrow> string option act" where
  "gt06_status cfg protocol raw s connection_imei =
     for_device connection_imei s (\<lambda>dev.
       bindM (liftR (parse_status_packet raw)) (\<lambda>st.
         thenM (save_raw cfg dev protocol raw False True) (store_terminal_status dev st)))"

definition gt06_heartbeat ::
    "config \<Rightarrow> string \<Rightarrow> bytes \<Rightarrow> sock \<Rightarrow> string option \<Rightarrow> string option act" where
  "gt06_heartbeat cfg protocol raw s connection_imei =
     for_device connection_imei s (\<lambda>dev.
       bindM (liftR (parse_heartbeat_packet raw)) (\<lambda>st.
         thenM (save_raw cfg dev protocol raw False True)
         (thenM (store_terminal_status dev st) (update_heartbeat dev))))"

definition gt06_alarm_severity :: "nat \<Rightarrow> severity" where
  "gt06_alarm_severity alarm_type = (if alarm_type \<in> {1, 2, 12, 13} then HIGH else MEDIUM)"

definition alarm_metadata :: "alarm \<Rightarrow> (string \<times> json) list" where
  "alarm_metadata al =
     [(''alarm_type'', JInt (int (al_alarm_type al))), (''speed'', JInt (int (al_speed al))),
      (''battery_level'', JInt (int (al_battery_level al))),
      (''gsm_signal'', JInt (int (al_gsm_signal al))),
      (''ignition_status'', JBool (al_ignition_status al)),
      (''power_cut'', JBool (al_power_cut al)), (''charging'', JBool (al_charging al)),
      (''mcc'', JInt (int (al_mcc al))), (''mnc'', JInt (int (al_mnc al))),
      (''lac'', JInt (int (al_lac al))), (''cell_id'', JInt (int (al_cell_id al)))]"

definition gt06_alarm ::
    "config \<Rightarrow> string \<Rightarrow> bytes \<Rightarrow> sock \<Rightarrow> string option \<Rightarrow> string option act" where
  "gt06_alarm cfg protocol raw s connection_imei =
     for_device connection_imei s (\<lambda>dev.
       bindM (liftR (parse_alarm_packet raw)) (\<lambda>al.
         thenM (save_raw cfg dev protocol raw True True)
         (let name = get_alarm_name (al_alarm_type al)
          in bindM (get_vehicle_by_device dev) (\<lambda>vehicle_id.
               create_event dev vehicle_id name (gt06_alarm_severity (al_alarm_type al))
                 (Some (al_latitude al)) (Some (al_longitude al))
                 (''Alarm: '' @ name @ '' at '' @ dt_str (al_timestamp al))
                 (alarm_metadata al)))))"

text \<open>0x94 and 0x6E differ in the event they record.\<close>

definition gt06_information ::
    "string \<Rightarrow> string \<Rightarrow> config \<Rightarrow> string \<Rightarrow> bytes \<Rightarrow> sock \<Rightarrow> string option \<Rightarrow> string option act" where
  "gt06_information event_type description cfg protocol raw s connection_imei =
     for_device connection_imei s (\<lambda>dev.
       thenM (save_raw cfg dev protocol raw True True)
       (let info = parse_information_packet raw
        in whenM (info_is_ascii info \<and> info_values info \<noteq> [])
             (bindM (liftR (decode_information (info_values info))) (\<lambda>decoded.
              bindM (get_vehicle_by_device dev) (\<lambda>vehicle_id.
                create_event dev vehicle_id event_type LOW None None description decoded)))))"

definition gt06_configuration ::
    "config \<Rightarrow> string \<Rightarrow> bytes \<Rightarrow> sock \<Rightarrow> string option \<Rightarrow> string option act" where
  "gt06_configuration =
     gt06_information ''DEVICE_CONFIGURATION'' ''Device configuration packet received on connect''"

definition gt06_command_ack ::
    "config \<Rightarrow> string \<Rightarrow> bytes \<Rightarrow> sock \<Rightarrow> string option \<Rightarrow> string option act" where
  "gt06_command_ack cfg protocol raw s connection_imei =
     for_device connection_imei s (\<lambda>dev.
       thenM (save_raw cfg dev protocol raw True True)
       (bindM (liftR (get_at raw (if take 2 raw = [0x79, 0x79] then 5 else 4))) (\<lambda>echoed. ret ())))"

definition handle_command_response :: "string \<Rightarrow> command_response \<Rightarrow> unit act" where
  "handle_command_response dev response =
     command_response_save dev (resp_command response) (resp_raw_text response) (resp_data response)"

definition gt06_command_response ::
    "config \<Rightarrow> string \<Rightarrow> bytes \<Rightarrow> sock \<Rightarrow> string option \<Rightarrow> string option act" where
  "gt06_command_response cfg protocol raw s connection_imei =
     for_device connection_imei s (\<lambda>dev.
       thenM (save_raw cfg dev protocol raw True True)
       (bindM (liftR (parse_command_response raw)) (\<lambda>response.
          handle_command_response dev response)))"

definition gt06_unknown ::
    "config \<Rightarrow> string \<Rightarrow> bytes \<Rightarrow> string option \<Rightarrow> string option act" where
  "gt06_unknown cfg protocol raw connection_imei =
     bindM (case connection_imei of
              Some i \<Rightarrow> (if i = [] then ret None else reg_device i) | None \<Rightarrow> ret None) (\<lambda>device.
       case device of
         None \<Rightarrow> ret None
       | Some e \<Rightarrow> thenM (save_raw cfg (e_device_id e) protocol raw True False) (ret None))"

section \<open>The handler\<close>

definition gt06_branch ::
    "config \<Rightarrow> string \<Rightarrow> bytes \<Rightarrow> sock \<Rightarrow> string \<Rightarrow> string option \<Rightarrow> string option act" where
  "gt06_branch cfg protocol raw s ip connection_imei =
     (if protocol = ''01'' then gt06_login cfg protocol raw s ip
      else if protocol = ''12'' \<or> protocol = ''22''
      then gt06_location cfg protocol raw s connection_imei
      else if protocol = ''13'' then gt06_status cfg protocol raw s connection_imei
      else if protocol = ''23'' then gt06_heartbeat cfg protocol raw s connection_imei
      else if protocol = ''26'' then gt06_alarm cfg protocol raw s connection_imei
      else if protocol = ''94''
      then gt06_information ''DEVICE_INFORMATION'' ''Device configuration received''
             cfg protocol raw s connection_imei
      else if protocol = ''8a'' then gt06_command_ack cfg protocol raw s connection_imei
      else if protocol = ''21'' then gt06_command_response cfg protocol raw s connection_imei
      else if protocol = ''6e''
      then gt06_configuration cfg protocol raw s connection_imei
      else gt06_unknown cfg protocol raw connection_imei)"

definition gt06_ack :: "bytes \<Rightarrow> sock \<Rightarrow> unit act" where
  "gt06_ack raw s = tryM (bindM (liftR (build_ack raw)) (\<lambda>ack. write_drain s ack)) (\<lambda>_. ret ())"

definition gt06_protocol :: "bytes \<Rightarrow> string option result" where
  "gt06_protocol raw =
     (if take 2 raw = [0x78, 0x78] then bindR (get_at raw 3) (\<lambda>b. Inr (Some (hex_byte b)))
      else if take 2 raw = [0x79, 0x79] then bindR (get_at raw 4) (\<lambda>b. Inr (Some (hex_byte b)))
      else Inr None)"

definition process_packet :: "config \<Rightarrow> bytes \<Rightarrow> sock \<Rightarrow> string \<Rightarrow> string option act" where
  "process_packet cfg raw s ip =
     bindM (liftR (gt06_protocol raw)) (\<lambda>p.
       case p of
         None \<Rightarrow> ret None
       | Some protocol \<Rightarrow>
           bindM (reg_imei_of s) (\<lambda>connection_imei.
           bindM (tryM (gt06_branch cfg protocol raw s ip connection_imei) (\<lambda>_. ret None)) (\<lambda>imei.
             thenM (gt06_ack raw s) (ret imei))))"

section \<open>The branches keep the gateway in order\<close>

lemmas gt06_branch_defs = gt06_location_def gt06_status_def gt06_heartbeat_def gt06_alarm_def
  gt06_information_def gt06_command_ack_def gt06_command_response_def gt06_unknown_def
  handle_command_response_def store_terminal_status_def

lemma for_device_keeps:
  assumes "keeps I (close_socket s)" and "\<And>dev. keeps I (work dev)"
  shows "keeps I (for_device c s work)"
  unfolding for_device_def gt06_device_def
  by (intro keeps_bindM keeps_case_option keeps_if keeps_thenM keeps_ret keeps_reg_read assms)

text \<open>Every branch but the login leaves the registry alone.\<close>

lemma gt06_branch_keeps:
  assumes s: "session_inv I" and c: "keeps I (close_socket s)"
    and r: "\<And>dev. protocol = ''01'' \<Longrightarrow> keeps I (reg_register (login_imei (parse_login_packet raw)) ip dev s GT06)"
  shows "keeps I (gt06_branch cfg protocol raw s ip conn)"
proof -
  note rules = for_device_keeps [OF c] keeps_bindM keeps_thenM keeps_liftR keeps_ret keeps_if
    keeps_case_option keeps_whenM keeps_reg_read keeps_Let s
  have "keeps I (gt06_login cfg protocol raw s ip)" if "protocol = ''01''"
    unfolding gt06_login_def Let_def
    by (intro rules r [OF that] keeps_tables)
  moreover have "keeps I (gt06_location cfg protocol raw s conn)"
    "keeps I (gt06_status cfg protocol raw s conn)" "keeps I (gt06_heartbeat cfg protocol raw s conn)"
    "keeps I (gt06_alarm cfg protocol raw s conn)" "keeps I (gt06_command_ack cfg protocol raw s conn)"
    "keeps I (gt06_command_response cfg protocol raw s conn)" "keeps I (gt06_unknown cfg protocol raw conn)"
    "keeps I (gt06_information t d cfg protocol raw s conn)" for t d
    unfolding gt06_branch_defs Let_def
    by (intro rules keeps_tables)+
  ultimately show ?thesis unfolding gt06_branch_def gt06_configuration_def by (intro keeps_if) auto
qed

lemma for_device_pool:
  assumes "\<And>dev. keeps (pool_is n) (work dev)"
  shows "keeps (pool_is n) (for_device c s work)"
  by (rule for_device_keeps) (intro pool_intros assms)+

lemma gt06_branch_pool: "keeps (pool_is n) (gt06_branch cfg protocol raw s ip conn)"
  unfolding gt06_branch_def gt06_configuration_def gt06_login_def gt06_branch_defs Let_def
  by (intro pool_intros for_device_pool)

lemma for_device_db:
  assumes "\<And>dev. keeps (on_db D) (work dev)"
  shows "keeps (on_db D) (for_device c s work)"
  by (rule for_device_keeps) (intro keeps_close net_inv_parts assms)+

lemma gt06_location_db_ok: "keeps (on_db db_ok) (gt06_location cfg protocol raw s conn)"
  unfolding gt06_location_def
  by (intro keeps_bindM keeps_liftR keeps_if keeps_ret for_device_db keeps_thenM records_db_ok
      save_location_db_ok) (simp add: gt06_location_valid_def)

lemma gt06_branch_db_ok: "keeps (on_db db_ok) (gt06_branch cfg protocol raw s ip conn)"
proof -
  have "keeps (on_db db_ok) (gt06_login cfg protocol raw s ip)"
    unfolding gt06_login_def Let_def
    by (intro keeps_bindM keeps_case_option keeps_if keeps_thenM keeps_ret query_db_ok records_db_ok
        create_event_db_ok keeps_reg_register reg_inv_parts)
  moreover have "keeps (on_db db_ok) (gt06_status cfg protocol raw s conn)"
    "keeps (on_db db_ok) (gt06_heartbeat cfg protocol raw s conn)"
    "keeps (on_db db_ok) (gt06_alarm cfg protocol raw s conn)"
    "keeps (on_db db_ok) (gt06_command_ack cfg protocol raw s conn)"
    "keeps (on_db db_ok) (gt06_command_response cfg protocol raw s conn)"
    "keeps (on_db db_ok) (gt06_unknown cfg protocol raw conn)"
    "keeps (on_db db_ok) (gt06_information t d cfg protocol raw s conn)" for t d
    unfolding gt06_branch_defs Let_def
    by (intro for_device_db keeps_bindM keeps_case_option keeps_if keeps_thenM keeps_ret keeps_liftR
        keeps_whenM keeps_reg_read query_db_ok records_db_ok create_event_db_ok status_db_ok;
        simp add: POWER_CONNECTED_def POWER_DISCONNECTED_def)+
  ultimately show ?thesis
    unfolding gt06_branch_def gt06_configuration_def by (intro keeps_if gt06_location_db_ok) auto
qed

section \<open>The contract\<close>

lemma gt06_ack_keeps:
  "(\<And>a. build_ack raw = Inr a \<Longrightarrow> keeps I (write_drain s a)) \<Longrightarrow> keeps I (gt06_ack raw s)"
  unfolding gt06_ack_def by (intro keeps_tryM keeps_liftR_bind keeps_ret)

text \<open>An invariant of the branch and of a write is one of the handler.\<close>

lemma process_packet_keeps:
  assumes "\<And>p conn. keeps I (gt06_branch cfg p raw s ip conn)" and "\<And>a. build_ack raw = Inr a \<Longrightarrow> keeps I (write_drain s a)"
  shows "keeps I (process_packet cfg raw s ip)"
  unfolding process_packet_def
  by (intro keeps_bindM keeps_case_option keeps_thenM keeps_tryM keeps_liftR keeps_ret
      keeps_reg_read gt06_ack_keeps assms)

definition gt06_claim :: "bytes \<Rightarrow> string option" where
  "gt06_claim raw =
     (if gt06_protocol raw = Inr (Some ''01'') then Some (login_imei (parse_login_packet raw)) else None)"

lemma gt06_frame_protocol: "gt06_frame raw \<Longrightarrow> \<exists>p. gt06_protocol raw = Inr (Some p)"
  by (auto simp: gt06_frame_def gt06_protocol_def starts_with_def numeral_2_eq_2)

lemma gt06_ack_returns: "\<exists>w'. gt06_ack raw s w = (Inr (), w')"
proof -
  have "never_raises (gt06_ack raw s)"
    unfolding gt06_ack_def by (intro never_raises_tryM never_raises_ret)
  then show ?thesis by (auto simp: never_raises_def)
qed

lemma tryM_ret_returns: "\<exists>x w'. tryM m (\<lambda>_. ret y) w = (Inr x, w')"
  by (cases "m w") (auto simp: tryM_def split: sum.split)

text \<open>How a frame is processed: the branch, then the acknowledgement, whatever the branch did.\<close>

lemma process_packet_unfold:
  assumes "gt06_protocol raw = Inr (Some p)"
  shows "\<exists>x w1 w2. tryM (gt06_branch cfg p raw s ip (get_imei_by_socket (reg w) s)) (\<lambda>_. ret None) w = (Inr x, w1) \<and>
    gt06_ack raw s w1 = (Inr (), w2) \<and> process_packet cfg raw s ip w = (Inr x, w2)"
proof -
  obtain x w1 where 1:
    "tryM (gt06_branch cfg p raw s ip (get_imei_by_socket (reg w) s)) (\<lambda>_. ret None) w = (Inr x, w1)"
    using tryM_ret_returns [of "gt06_branch cfg p raw s ip (get_imei_by_socket (reg w) s)" None w] by blast
  obtain w2 where 2: "gt06_ack raw s w1 = (Inr (), w2)" using gt06_ack_returns by blast
  from 1 2 assms have "process_packet cfg raw s ip w = (Inr x, w2)"
    by (simp add: process_packet_def bindM_def thenM_def reg_imei_of_def)
  with 1 2 show ?thesis by blast
qed

lemma process_packet_auth:
  "auth_within (may_auth w s (gt06_claim raw)) (reg (snd (process_packet cfg raw s ip w)))"
proof -
  let ?I = "on_reg (auth_within (may_auth w s (gt06_claim raw)))"
  have start: "?I w" by (rule may_auth_start)
  have ack: "keeps ?I (gt06_ack raw s)"
    by (intro gt06_ack_keeps keeps_write_drain net_inv_parts)
  have "?I (snd (gt06_branch cfg p raw s ip conn w))" if p: "gt06_protocol raw = Inr (Some p)" for p conn
  proof (cases "p = ''01''")
    case True
    let ?imei = "login_imei (parse_login_packet raw)"
    from True p have claim: "gt06_claim raw = Some ?imei" by (simp add: gt06_claim_def)
    have "?I (snd (gt06_login cfg p raw s ip w))"
      unfolding gt06_login_def Let_def
    proof (rule login_at [where I = ?I and w = w, OF start])
      fix dev assume "admitted (db w) ?imei"
      then have "may_auth w s (gt06_claim raw) s ?imei" by (simp add: may_auth_def claim)
      then show "keeps ?I (if dev = [] then ret None else thenM (reg_register ?imei ip dev s GT06)
          (thenM (save_raw cfg dev p raw True True) (bindM (get_vehicle_by_device dev) (\<lambda>vehicle_id.
            thenM (create_event dev vehicle_id ''DEVICE_ONLINE'' LOW None None
              ''Device connected to the gateway'' []) (ret (Some ?imei))))))"
        by (intro keeps_if keeps_ret keeps_thenM keeps_bindM reg_register_auth keeps_tables
            session_inv_parts)
    qed (simp_all add: keeps_ret)
    with True show ?thesis by (simp add: gt06_branch_def)
  next
    case False
    have "keeps ?I (gt06_branch cfg p raw s ip conn)"
      by (rule gt06_branch_keeps) (use False in \<open>auto intro: keeps_close\<close>)
    with start show ?thesis by (rule keepsD [rotated])
  qed
  then have branch: "?I (snd (gt06_branch cfg p raw s ip conn w))"
    if "gt06_protocol raw = Inr (Some p)" for p conn
    using that .
  have "?I (snd (process_packet cfg raw s ip w))"
  proof (cases "\<exists>p. gt06_protocol raw = Inr (Some p)")
    case True
    then obtain p where p: "gt06_protocol raw = Inr (Some p)" by blast
    let ?branch = "gt06_branch cfg p raw s ip (get_imei_by_socket (reg w) s)"
    obtain x w1 w2 where w1: "tryM ?branch (\<lambda>_. ret None) w = (Inr x, w1)"
      and w2: "gt06_ack raw s w1 = (Inr (), w2)" "process_packet cfg raw s ip w = (Inr x, w2)"
      using process_packet_unfold [OF p] by blast
    have "?I (snd (tryM ?branch (\<lambda>_. ret None) w))" 
      by (rule tryM_at [where I = ?I]) (rule branch [OF p], rule keeps_ret)
    then have "?I w1" by (simp add: w1)
    from keepsD2 [OF ack w2(1) this] show ?thesis by (simp add: w2)
  next
    case False
    then have "snd (process_packet cfg raw s ip w) = w"
      by (cases "gt06_protocol raw") (auto simp: process_packet_def bindM_def split: option.split)
    with start show ?thesis by simp
  qed
  then show ?thesis by (simp add: on_reg_def)
qed

interpretation gt06_handler: frame_handler process_packet gt06_frame gt06_claim
proof (unfold_locales, goal_cases)
  case (1 raw cfg s ip w)
  then show ?case using gt06_frame_protocol process_packet_unfold by metis
next
  case (2 n cfg raw s ip)
  show ?case by (intro process_packet_keeps gt06_branch_pool pool_intros)
next
  case (3 cfg raw s ip)
  show ?case
    by (intro process_packet_keeps gt06_branch_keeps keeps_close keeps_write_drain net_inv_parts
        session_inv_parts keeps_reg_register_ok)
next
  case (4 cfg raw s ip)
  show ?case by (intro process_packet_keeps gt06_branch_db_ok keeps_write_drain net_inv_parts)
next
  case (5 s S cfg raw ip)
  show ?case
    by (intro process_packet_keeps gt06_branch_keeps write_drain_only_socket close_only_socket
        session_inv_only_socket keeps_reg_register reg_inv_only_socket)
next
  case (6 w s raw cfg ip)
  show ?case by (rule process_packet_auth)
qed

section \<open>The acknowledgement comes last\<close>

lemma gt06_branch_sent: "keeps (on_sent S) (gt06_branch cfg p raw s ip conn)"
  by (intro gt06_branch_keeps keeps_close_sent session_inv_parts keeps_reg_register reg_inv_parts)

lemma gt06_branch_outcomes: "keeps (oracle_is f) (gt06_branch cfg p raw s ip conn)"
  by (intro gt06_branch_keeps keeps_close keeps_reg_register session_inv_parts net_inv_parts reg_inv_parts)

text \<open>
  C14. The acknowledgement of a complete GT06 frame is the last thing its handler does. The branch of
  the frame runs first, to its end or to its exception, and writes to no socket; then, with every
  table and registry entry as the branch left them, comes one write of the acknowledgement, and
  the handler returns the branch's IMEI (nothing after an exception). The write arrives unless it
  fails or the socket is closed by then. A refused login is no exception: the branch leaves the
  socket open and the refused device is acknowledged like any other, where the README announces
  that the connection is closed.
\<close>

theorem gt06_acknowledged_last:
  assumes "gt06_frame raw" and "build_ack raw = Inr a" and "gt06_protocol raw = Inr (Some p)"
    and "gt06_branch cfg p raw s ip (get_imei_by_socket (reg w) s) w = (r, w1)"
  shows "process_packet cfg raw s ip w = (Inr (case r of Inr imei \<Rightarrow> imei | Inl _ \<Rightarrow> None), snd (write_drain s a w1)) \<and>
    sent w1 = sent w \<and>
    (outcomes w (calls w1) \<noteq> FailsClean \<and> s \<notin> closing w1 \<longrightarrow> sent (snd (write_drain s a w1)) s = sent w s @ [a]) \<and>
    (p = ''01'' \<longrightarrow> closing w1 = closing w)"
proof -
  let ?branch = "gt06_branch cfg p raw s ip (get_imei_by_socket (reg w) s)"
  have w1: "sent w1 = sent w" "outcomes w1 = outcomes w"
    using keepsD2 [OF gt06_branch_sent assms(4), of "sent w"] keepsD2 [OF gt06_branch_outcomes assms(4), of "outcomes w"]
    by (simp_all add: part_defs)
  have "closing w1 = closing w" if "p = ''01''"
  proof -
    have "keeps (on_net (\<lambda>_ c. c = closing w)) (gt06_login cfg p raw s ip)"
      unfolding gt06_login_def Let_def
      by (intro keeps_bindM keeps_case_option keeps_if keeps_thenM keeps_ret keeps_tables
          keeps_reg_register session_inv_parts reg_inv_parts)
    then have "keeps (on_net (\<lambda>_ c. c = closing w)) ?branch" using that by (simp add: gt06_branch_def)
    from keepsD2 [OF this assms(4)] show ?thesis by (simp add: part_defs)
  qed
  moreover have "gt06_ack raw s w1 = (Inr (), snd (write_drain s a w1))"
    by (cases "write_drain s a w1") (auto simp: gt06_ack_def assms(2) bindM_def tryM_def split: sum.split)
  then have "process_packet cfg raw s ip w = (Inr (case r of Inr imei \<Rightarrow> imei | Inl _ \<Rightarrow> None), snd (write_drain s a w1))"
    using assms(3,4) by (cases r) (simp_all add: process_packet_def bindM_def thenM_def tryM_def reg_imei_of_def)
  moreover have "sent (snd (write_drain s a w1)) s = sent w s @ [a]"
    if "outcomes w (calls w1) \<noteq> FailsClean" "s \<notin> closing w1"
    using that w1 by (cases "outcomes w (calls w1)") (simp_all add: write_drain_def external_def push_bytes_def)
  ultimately show ?thesis using w1(1) by blast
qed

definition sample_login :: bytes where
  "sample_login = [0x78, 0x78, 0x0D, 0x01, 0x01, 0x23, 0x45, 0x67, 0x89, 0x01, 0x23, 0x45, 0x00, 0x01, 0x8C, 0xDD, 0x0D, 0x0A]"

lemma sample_login_frame: "gt06_frame sample_login"
  by (simp add: gt06_frame_def sample_login_def)

lemma sample_login_protocol: "gt06_protocol sample_login = Inr (Some ''01'')"
  by (simp add: gt06_protocol_def sample_login_def hex_byte_def hex_digit_def)

text \<open>A login the empty tables refuse.\<close>

theorem gt06_acknowledged_last_witness:
  "\<exists>a. build_ack sample_login = Inr a \<and>
     sent (snd (process_packet default_config sample_login 7 ''10.0.0.7'' (start_world empty_database))) 7 = [a] \<and>
     closing (snd (process_packet default_config sample_login 7 ''10.0.0.7'' (start_world empty_database))) = {}"
proof -
  let ?w = "start_world empty_database"
  obtain a where a: "build_ack sample_login = Inr a" using build_ack_total [OF sample_login_frame] by blast
  obtain r w1 where b: "gt06_branch default_config ''01'' sample_login 7 ''10.0.0.7'' (get_imei_by_socket (reg ?w) 7) ?w = (r, w1)"
    by fastforce
  note last = gt06_acknowledged_last [OF sample_login_frame a sample_login_protocol b]
  have c: "closing w1 = {}" using last by simp
  then have "sent (snd (write_drain 7 a w1)) 7 = [a]" using last by simp
  moreover have "closing (snd (write_drain 7 a w1)) = {}"
    using c by (simp add: write_drain_def external_def push_bytes_def split: outcome.split)
  ultimately show ?thesis using a last by simp
qed

section \<open>Which positions are stored\<close>

lemma degrees_between:
  assumes "c < 2 ^ 32" and "n \<le> 180"
  shows "f_between (- int n) (degrees c negative) (int n) \<longleftrightarrow> c \<le> n * 1800000"
proof -
  let ?q = "of_nat c / 1800000 :: rat" and ?r = "rnd64 (of_nat c / 1800000)"
  have nonneg: "0 \<le> ?r" by (rule rnd64_nonneg) simp
  have "degrees c negative = Fin (if negative then - ?r else ?r)"
    using raw_degrees(1) [OF assms(1)] by (simp add: degrees_def Let_def)
  then have "f_between (- int n) (degrees c negative) (int n) \<longleftrightarrow> ?r \<le> of_nat n"
    using nonneg by (auto simp: f_between_Fin)
  also have "\<dots> \<longleftrightarrow> c \<le> n * 1800000"
  proof
    assume c: "c \<le> n * 1800000"
    then have "(of_nat c :: rat) \<le> of_nat (n * 1800000)" by (rule of_nat_mono)
    then have "?q \<le> of_int (int n)" by simp
    then have "?r \<le> of_int (int n)" using assms(2) by (intro rnd64_le_int) simp_all
    then show "?r \<le> of_nat n" by simp
  next
    assume r: "?r \<le> of_nat n"
    show "c \<le> n * 1800000"
    proof (rule ccontr)
      assume "\<not> c \<le> n * 1800000"
      then have "n * 1800000 + 1 \<le> c" by simp
      then have "(of_nat (n * 1800000 + 1) :: rat) \<le> of_nat c" by (rule of_nat_mono)
      then have "of_nat n + 1 / 1800000 \<le> ?q" by simp
      moreover have "?q - ?r \<le> 2 powi (- 42)" using raw_degrees(2) [OF assms(1)] by linarith
      moreover have "(2 :: rat) powi (- 42) < 1 / 1800000" by (simp add: power_int_def power_one_over divide_simps)
      ultimately show False using r by linarith
    qed
  qed
  finally show ?thesis .
qed

lemma gt06_location_valid_iff:
  assumes "parse_location_packet raw = Inr loc"
  shows "gt06_location_valid loc \<longleftrightarrow>
      be_val (slice raw 11 15) \<le> 162000000 \<and> be_val (slice raw 15 19) \<le> 324000000 \<and>
      be_val (slice raw 20 22) AND 0x03FF \<le> 360"
proof -
  from assms obtain spd north west where l:
    "loc_latitude loc = degrees (be_val (slice raw 11 15)) north"
    "loc_longitude loc = degrees (be_val (slice raw 15 19)) west"
    "loc_speed loc = unat (spd :: byte)" "loc_heading loc = be_val (slice raw 20 22) AND 0x03FF"
    by (auto simp: parse_location_packet_def Let_def result_simps)
  have b: "be_val (slice raw 11 15) < 2 ^ 32" "be_val (slice raw 15 19) < 2 ^ 32"
    using be_val_four [of raw 11] be_val_four [of raw 15] by simp_all
  have nat: "f_between 0 (f_of_nat n) (int m) \<longleftrightarrow> n \<le> m" for n m
    by (simp add: f_of_nat_def f_between_Fin)
  have "unat spd \<le> 300" by (rule order_trans [OF less_imp_le [OF unat_byte_less]]) simp
  then show ?thesis
    using degrees_between [OF b(1), of 90 north] degrees_between [OF b(2), of 180 west]
      nat [of "unat spd" 300] nat [of "be_val (slice raw 20 22) AND 0x03FF" 360]
    by (simp add: gt06_location_valid_def location_plausible_def l)
qed

text \<open>
  C28. Which GT06 positions are stored is decided on the raw integers, unharmed by the floats in
  between: exactly those with at most 90 and 180 degrees (in units of 1/30000 of a minute) and a
  course of at most 360. Any other position changes nothing: no table, no registry entry, no reply
  of its own.
\<close>

theorem gt06_location_verdict:
  assumes "parse_location_packet raw = Inr loc"
  shows "(gt06_location_valid loc \<longleftrightarrow>
      be_val (slice raw 11 15) \<le> 162000000 \<and> be_val (slice raw 15 19) \<le> 324000000 \<and>
      be_val (slice raw 20 22) AND 0x03FF \<le> 360) \<and>
    (\<not> gt06_location_valid loc \<longrightarrow> gt06_location cfg protocol raw s conn w = (Inr conn, w))"
  using gt06_location_valid_iff [OF assms] by (simp add: gt06_location_def assms bindM_def)

definition sample_position :: bytes where
  "sample_position = [0x78, 0x78, 0x1F, 0x12, 23, 10, 5, 12, 30, 15, 0xC8, 0x00, 0xC0, 0x42, 0xC0,
     0x08, 0x95, 0x44, 0x00, 50, 0x14, 0x00]"

lemma sample_position_parses: "\<exists>loc. parse_location_packet sample_position = Inr loc"
proof -
  have "parse_timestamp sample_position = mk_datetime 2023 10 5 12 30 15"
    by (simp add: parse_timestamp_def sample_position_def)
  moreover have "valid_date 2023 10 5" "valid_time 12 30 15" by code_simp+
  then have "\<exists>t. mk_datetime 2023 10 5 12 30 15 = Inr t" by (simp add: mk_datetime_def)
  ultimately show ?thesis by (auto simp: parse_location_packet_def Let_def sample_position_def)
qed

lemma sample_position_raw:
  "be_val (slice sample_position 11 15) = 12600000" "be_val (slice sample_position 15 19) = 144000000"
  "be_val (slice sample_position 20 22) = 5120"
  by (simp_all add: slice_def be_val_def sample_position_def)

theorem gt06_location_verdict_witness:
  "\<exists>loc. parse_location_packet sample_position = Inr loc \<and> gt06_location_valid loc"
proof -
  obtain loc where loc: "parse_location_packet sample_position = Inr loc" using sample_position_parses by blast
  with gt06_location_verdict [OF loc] show ?thesis by (simp add: sample_position_raw)
qed

end
