(* ===== verification/Gps103_Handler.thy ===== *)
theory Gps103_Handler
  imports World Persistence Gps103_Parser Handler_Contract Config
begin

text \<open>
  services/gps103_handler.py: what the gateway does with one GPS103 message. Authentication is by
  login only and strict; a message that names another IMEI than the socket's closes the
  connection; every database write is independent of the others.
\<close>

section \<open>Replies and binding\<close>

definition gps103_model :: string where
  "gps103_model = ''TK103''"

definition gps103_location_valid :: "pyfloat \<Rightarrow> pyfloat \<Rightarrow> pyfloat \<Rightarrow> pyfloat \<Rightarrow> bool" where
  "gps103_location_valid lat lon speed heading \<longleftrightarrow>
     (if lat = Fin 0 \<and> lon = Fin 0 then False else location_plausible lat lon speed heading)"

text \<open>\<^verbatim>\<open>_authenticated_imei\<close>: the socket's IMEI when the message names it; else the socket is closed.\<close>

definition authenticated_imei :: "sock \<Rightarrow> string \<Rightarrow> string option act" where
  "authenticated_imei s message_imei =
     bindM (reg_imei_of s) (\<lambda>connection_imei.
       case connection_imei of
         None \<Rightarrow> thenM (close_socket s) (ret None)
       | Some i \<Rightarrow> (if i = [] \<or> message_imei \<noteq> i then thenM (close_socket s) (ret None)
                   else ret (Some i)))"

text \<open>\<^verbatim>\<open>get_device(imei)["device_id"]\<close>: TypeError when there is no entry.\<close>

definition device_id_of :: "string \<Rightarrow> string act" where
  "device_id_of imei =
     bindM (reg_device imei) (\<lambda>device.
       case device of None \<Rightarrow> raise TypeError | Some e \<Rightarrow> ret (e_device_id e))"

text \<open>The vehicle lookup of the handlers, whose failure is no vehicle.\<close>

definition vehicle_or_none :: "string \<Rightarrow> string option act" where
  "vehicle_or_none dev = tryM (get_vehicle_by_device dev) (\<lambda>_. ret None)"

section \<open>Login and heartbeat\<close>

definition announce_online :: "config \<Rightarrow> string \<Rightarrow> string \<Rightarrow> bytes \<Rightarrow> unit act" where
  "announce_online cfg protocol dev raw =
     thenM (safely (save_raw cfg dev protocol raw True True))
     (thenM (safely (mark_device_alive dev False))
     (bindM (vehicle_or_none dev) (\<lambda>vehicle_id.
        safely (create_event dev vehicle_id ''DEVICE_ONLINE'' LOW None None
                 ''Device connected to the gateway'' [(''protocol'', JStr protocol)]))))"

definition gps103_login :: "config \<Rightarrow> string \<Rightarrow> bytes \<Rightarrow> sock \<Rightarrow> string \<Rightarrow> string option act" where
  "gps103_login cfg text raw s ip =
     bindM (liftR (gps103_parse_login text)) (\<lambda>imei.
     bindM (get_device_by_imei imei ''GPS103'' gps103_model) (\<lambda>device_id.
       case device_id of
         None \<Rightarrow> thenM (close_socket s) (ret None)
       | Some dev \<Rightarrow>
           (if dev = [] then thenM (close_socket s) (ret None)
            else thenM (reg_register imei ip dev s GPS103)
                (thenM (send_reply s LOGIN_REPLY)
                (thenM (announce_online cfg ''GPS103'' dev raw) (ret (Some imei)))))))"

definition gps103_heartbeat :: "string \<Rightarrow> sock \<Rightarrow> string option act" where
  "gps103_heartbeat text s =
     bindM (liftR (gps103_parse_heartbeat text)) (\<lambda>imei.
     bindM (authenticated_imei s imei) (\<lambda>conn.
       case conn of
         None \<Rightarrow> ret None
       | Some i \<Rightarrow>
           thenM (send_reply s HEARTBEAT_REPLY)
           (bindM (device_id_of i) (\<lambda>dev.
            thenM (safely (mark_device_alive dev True)) (ret (Some i))))))"

section \<open>Position and alarm\<close>

definition tracker_position_ok :: "tracker \<Rightarrow> bool" where
  "tracker_position_ok data \<longleftrightarrow> tk_valid_fix data \<and>
     (case (tk_latitude data, tk_longitude data, tk_speed data, tk_heading data) of
        (Some lat, Some lon, Some speed, Some heading) \<Rightarrow> gps103_location_valid lat lon speed heading
      | _ \<Rightarrow> False)"

definition opt_json :: "('a \<Rightarrow> json) \<Rightarrow> 'a option \<Rightarrow> json" where
  "opt_json f v = (case v of None \<Rightarrow> JNull | Some x \<Rightarrow> f x)"

definition gps103_alarm_severity :: "string \<Rightarrow> severity" where
  "gps103_alarm_severity alarm = (if alarm \<in> {''SOS'', ''POWER_CUT''} then HIGH else MEDIUM)"

definition alarm_event :: "string \<Rightarrow> tracker \<Rightarrow> bool \<Rightarrow> string option \<Rightarrow> string \<Rightarrow> unit act" where
  "alarm_event dev data position_ok vehicle_id name =
     create_event dev vehicle_id name (gps103_alarm_severity name)
       (if position_ok then tk_latitude data else None)
       (if position_ok then tk_longitude data else None)
       (''Alarm: '' @ name)
       [(''protocol'', JStr ''GPS103''), (''keyword'', JStr (tk_keyword data)),
        (''speed'', opt_json JFloat (if position_ok then tk_speed data else None)),
        (''ignition'', opt_json JBool (tk_ignition data)), (''gps_fix'', JBool position_ok)]"

text \<open>The location write, then the note for the poller, which is made even when the write failed.\<close>

definition store_tracker_position :: "config \<Rightarrow> string \<Rightarrow> string \<Rightarrow> tracker \<Rightarrow> unit act" where
  "store_tracker_position cfg imei dev data =
     bindM (case tk_timestamp data of Some t \<Rightarrow> ret t | None \<Rightarrow> now_utc) (\<lambda>event_time.
     thenM (case (tk_latitude data, tk_longitude data, tk_speed data, tk_heading data) of
              (Some lat, Some lon, Some speed, Some heading) \<Rightarrow>
                safely (bindM (save_location cfg dev lat lon speed heading 0 event_time) (\<lambda>_. ret ()))
            | _ \<Rightarrow> ret ())
     (bindM now_utc (\<lambda>now. with_reg (note_position imei (tk_speed data) now))))"

definition gps103_tracker :: "config \<Rightarrow> string \<Rightarrow> bytes \<Rightarrow> sock \<Rightarrow> string option act" where
  "gps103_tracker cfg text raw s =
     bindM (liftR (parse_tracker (cfg_speed_in_kmh cfg) text)) (\<lambda>data.
     bindM (authenticated_imei s (tk_imei data)) (\<lambda>conn.
       case conn of
         None \<Rightarrow> ret None
       | Some imei \<Rightarrow>
           bindM (device_id_of imei) (\<lambda>dev.
           (let alarm = tk_alarm_name data; position_ok = tracker_position_ok data
            in thenM (whenM (alarm = Some ''SOS'')
                        (bindM (liftR (build_help_me_ack imei)) (\<lambda>reply. send_reply s reply)))
              (thenM (safely (save_raw cfg dev ''GPS103'' raw
                                (alarm \<noteq> None \<or> \<not> tk_known_keyword data) True))
              (thenM (case tk_ignition data of
                        None \<Rightarrow> ret () | Some ign \<Rightarrow> safely (set_ignition dev ign))
              (bindM (case alarm of None \<Rightarrow> ret None | Some _ \<Rightarrow> vehicle_or_none dev) (\<lambda>vehicle_id.
               thenM (whenM position_ok (store_tracker_position cfg imei dev data))
              (thenM (case alarm of
                        None \<Rightarrow> ret ()
                      | Some name \<Rightarrow> safely (alarm_event dev data position_ok vehicle_id name))
               (ret (Some imei)))))))))))"

section \<open>The handler\<close>

definition gps103_branch :: "config \<Rightarrow> bytes \<Rightarrow> sock \<Rightarrow> string \<Rightarrow> string option act" where
  "gps103_branch cfg raw s ip =
     (case gps103_classify raw of
        (KLogin, text) \<Rightarrow> gps103_login cfg text raw s ip
      | (KHeartbeat, text) \<Rightarrow> gps103_heartbeat text s
      | (KTracker, text) \<Rightarrow> gps103_tracker cfg text raw s
      | (KUnknown, text) \<Rightarrow> ret None)"

definition process_gps103_message :: "config \<Rightarrow> bytes \<Rightarrow> sock \<Rightarrow> string \<Rightarrow> string option act" where
  "process_gps103_message cfg raw s ip = tryM (gps103_branch cfg raw s ip) (\<lambda>_. reg_imei_of s)"

section \<open>The contract\<close>

text \<open>All the handler ever says.\<close>

definition gps103_reply :: "bytes \<Rightarrow> bool" where
  "gps103_reply b \<longleftrightarrow> b = LOGIN_REPLY \<or> b = HEARTBEAT_REPLY \<or> (\<exists>imei. build_help_me_ack imei = Inr b)"

lemma gps103_replies [simp]:
  "gps103_reply LOGIN_REPLY" "gps103_reply HEARTBEAT_REPLY" "build_help_me_ack imei = Inr b \<Longrightarrow> gps103_reply b"
  by (auto simp: gps103_reply_def)

definition gps103_claim :: "bytes \<Rightarrow> string option" where
  "gps103_claim raw =
     (case gps103_classify raw of
        (KLogin, text) \<Rightarrow> (case gps103_parse_login text of Inr imei \<Rightarrow> Some imei | Inl _ \<Rightarrow> None)
      | _ \<Rightarrow> None)"

lemma keeps_case_kind:
  assumes "\<And>t. keeps I (a t)" "\<And>t. keeps I (b t)" "\<And>t. keeps I (c t)" "\<And>t. keeps I (d t)"
  shows "keeps I (case k of (KLogin, t) \<Rightarrow> a t | (KHeartbeat, t) \<Rightarrow> b t | (KTracker, t) \<Rightarrow> c t
                  | (KUnknown, t) \<Rightarrow> d t)"
  using assms by (auto split: prod.split kind.split)

text \<open>
  An invariant of the reads, the writes to the tables, the sockets and the registry notes is an
  invariant of the heartbeat and of the report.
\<close>

lemma authenticated_imei_keeps: "keeps I (close_socket s) \<Longrightarrow> keeps I (authenticated_imei s m)"
  unfolding authenticated_imei_def
  by (intro keeps_bindM keeps_case_option keeps_if keeps_thenM keeps_ret keeps_reg_read)

lemma device_id_keeps: "keeps I (device_id_of i)"
  unfolding device_id_of_def
  by (intro keeps_bindM keeps_case_option keeps_raise keeps_ret keeps_reg_read)

lemma gps103_heartbeat_keeps:
  assumes "keeps I (close_socket s)" "\<And>b. gps103_reply b \<Longrightarrow> keeps I (write_drain s b)"
    and "\<And>dev. keeps I (mark_device_alive dev True)"
  shows "keeps I (gps103_heartbeat text s)"
  unfolding gps103_heartbeat_def send_reply_def
  by (intro keeps_bindM keeps_case_option keeps_thenM keeps_ret keeps_liftR keeps_safely keeps_tryM
      authenticated_imei_keeps device_id_keeps gps103_replies assms)

lemma gps103_tracker_keeps:
  assumes "keeps I (close_socket s)" "\<And>b. gps103_reply b \<Longrightarrow> keeps I (write_drain s b)"
    and "\<And>dev p a. keeps I (save_raw cfg dev p raw a True)" "\<And>dev i. keeps I (set_ignition dev i)"
    and "\<And>dev. keeps I (get_vehicle_by_device dev)"
    and "\<And>i dev d. tracker_position_ok d \<Longrightarrow> keeps I (store_tracker_position cfg i dev d)"
    and "\<And>d v et sv la lo ds md. keeps I (create_event d v et sv la lo ds md)"
  shows "keeps I (gps103_tracker cfg text raw s)"
  unfolding gps103_tracker_def Let_def alarm_event_def vehicle_or_none_def send_reply_def
  by (intro keeps_liftR_bind keeps_bindM keeps_case_option keeps_thenM keeps_ret keeps_safely keeps_tryM
      keeps_whenM authenticated_imei_keeps device_id_keeps assms gps103_replies)

lemma announce_online_keeps:
  assumes "keeps I (save_raw cfg dev p raw True True)" "keeps I (mark_device_alive dev False)"
    and "keeps I (get_vehicle_by_device dev)"
    and "\<And>v ds md. keeps I (create_event dev v ''DEVICE_ONLINE'' LOW None None ds md)"
  shows "keeps I (announce_online cfg p dev raw)"
  unfolding announce_online_def vehicle_or_none_def
  by (intro keeps_bindM keeps_thenM keeps_safely keeps_tryM keeps_ret assms)

lemma store_tracker_position_keeps:
  assumes "keeps I now_utc" "\<And>f. f = note_position \<Longrightarrow> (\<And>i v t. keeps I (with_reg (f i v t)))"
    and "\<And>lat lon speed heading t. tk_latitude data = Some lat \<Longrightarrow> tk_longitude data = Some lon \<Longrightarrow>
      tk_speed data = Some speed \<Longrightarrow> tk_heading data = Some heading \<Longrightarrow>
      keeps I (save_location cfg dev lat lon speed heading 0 t)"
  shows "keeps I (store_tracker_position cfg imei dev data)"
proof -
  have "keeps I (case (tk_latitude data, tk_longitude data, tk_speed data, tk_heading data) of
      (Some lat, Some lon, Some speed, Some heading) \<Rightarrow>
        safely (bindM (save_location cfg dev lat lon speed heading 0 t) (\<lambda>_. ret ()))
    | _ \<Rightarrow> ret ())" for t
    using assms(3) by (auto split: option.split intro!: keeps_safely keeps_bindM keeps_ret)
  then show ?thesis
    unfolding store_tracker_position_def
    by (intro keeps_bindM keeps_case_option keeps_thenM keeps_ret assms(1,2) refl)
qed

lemma gps103_login_keeps:
  assumes "session_inv I" "keeps I (close_socket s)" "\<And>b. gps103_reply b \<Longrightarrow> keeps I (write_drain s b)"
    and "\<And>i dev. keeps I (reg_register i ip dev s GPS103)"
  shows "keeps I (gps103_login cfg text raw s ip)"
  unfolding gps103_login_def send_reply_def
  by (intro keeps_bindM keeps_case_option keeps_if keeps_thenM keeps_ret keeps_liftR keeps_tryM
      announce_online_keeps keeps_tables gps103_replies assms)

text \<open>Heartbeats and reports leave the authentications alone.\<close>

lemma gps103_other_keeps:
  assumes "session_inv I" "keeps I (close_socket s)" "\<And>b. gps103_reply b \<Longrightarrow> keeps I (write_drain s b)"
    and "\<And>i v t. keeps I (with_reg (note_position i v t))"
  shows "keeps I (gps103_heartbeat text s)" "keeps I (gps103_tracker cfg text raw s)"
  by (intro gps103_heartbeat_keeps gps103_tracker_keeps store_tracker_position_keeps
      keeps_tables keeps_oracle_part assms; simp add: assms)+

lemma gps103_branch_keeps:
  assumes "session_inv I" "keeps I (close_socket s)" "\<And>b. gps103_reply b \<Longrightarrow> keeps I (write_drain s b)"
    and "\<And>i v t. keeps I (with_reg (note_position i v t))"
    and "\<And>i dev. keeps I (reg_register i ip dev s GPS103)"
  shows "keeps I (gps103_branch cfg raw s ip)"
  unfolding gps103_branch_def
  by (intro keeps_case_kind gps103_login_keeps gps103_other_keeps keeps_ret assms)

lemma process_gps103_keeps:
  "keeps I (gps103_branch cfg raw s ip) \<Longrightarrow> keeps I (process_gps103_message cfg raw s ip)"
  unfolding process_gps103_message_def by (intro keeps_tryM keeps_reg_read)

lemma gps103_branch_pool: "keeps (pool_is n) (gps103_branch cfg raw s ip)"
  unfolding gps103_branch_def gps103_login_def
  by (intro keeps_case_kind gps103_heartbeat_keeps gps103_tracker_keeps store_tracker_position_keeps
      announce_online_keeps keeps_case_option keeps_ret pool_intros; simp add: pool_intros)

lemma store_tracker_position_db_ok:
  "tracker_position_ok data \<Longrightarrow> keeps (on_db db_ok) (store_tracker_position cfg imei dev data)"
  by (rule store_tracker_position_keeps)
    (auto simp: tracker_position_ok_def gps103_location_valid_def split: if_splits
      intro!: save_location_db_ok keeps_oracle_db keeps_with_reg)

lemma gps103_branch_db_ok: "keeps (on_db db_ok) (gps103_branch cfg raw s ip)"
  unfolding gps103_branch_def gps103_login_def send_reply_def
  by (intro keeps_case_kind gps103_heartbeat_keeps gps103_tracker_keeps store_tracker_position_db_ok
      announce_online_keeps keeps_bindM keeps_case_option keeps_if keeps_thenM keeps_ret keeps_liftR keeps_tryM
      keeps_close keeps_write_drain net_inv_parts status_db_ok records_db_ok query_db_ok
      create_event_db_ok keeps_reg_register reg_inv_parts; assumption?)

lemma auth_within_note_position: "auth_within A r \<Longrightarrow> auth_within A (note_position i v t r)"
  by (simp add: auth_within_def note_position_def get_imei_by_socket_def)

lemma gps103_auth_keeps:
  "keeps (on_reg (auth_within A)) (gps103_heartbeat text s)"
  "keeps (on_reg (auth_within A)) (gps103_tracker cfg text raw s)"
  by (intro gps103_other_keeps session_inv_parts keeps_close keeps_write_drain net_inv_parts
      keeps_with_reg_reg auth_within_note_position; assumption?)+

lemma process_gps103_auth:
  "auth_within (may_auth w s (gps103_claim raw)) (reg (snd (process_gps103_message cfg raw s ip w)))"
proof -
  let ?I = "on_reg (auth_within (may_auth w s (gps103_claim raw)))"
  have start: "?I w" by (rule may_auth_start)
  obtain k msg where k: "gps103_classify raw = (k, msg)" by (cases "gps103_classify raw")
  have "?I (snd (gps103_branch cfg raw s ip w))"
  proof (cases k)
    case KLogin
    have "?I (snd (gps103_login cfg msg raw s ip w))"
      unfolding gps103_login_def
    proof (rule bindM_lift_at [where I = ?I, OF start])
      fix imei assume "gps103_parse_login msg = Inr imei"
      then have claim: "gps103_claim raw = Some imei" by (simp add: gps103_claim_def k KLogin)
      show "?I (snd (bindM (get_device_by_imei imei ''GPS103'' gps103_model) (\<lambda>device_id.
          case device_id of None \<Rightarrow> thenM (close_socket s) (ret None)
          | Some dev \<Rightarrow> if dev = [] then thenM (close_socket s) (ret None)
              else thenM (reg_register imei ip dev s GPS103) (thenM (send_reply s LOGIN_REPLY)
                (thenM (announce_online cfg ''GPS103'' dev raw) (ret (Some imei))))) w))"
      proof (rule login_at [where I = ?I and w = w, OF start])
        fix dev assume "admitted (db w) imei"
        then have "may_auth w s (gps103_claim raw) s imei" by (simp add: may_auth_def claim)
        then show "keeps ?I (if dev = [] then thenM (close_socket s) (ret None)
            else thenM (reg_register imei ip dev s GPS103) (thenM (send_reply s LOGIN_REPLY)
              (thenM (announce_online cfg ''GPS103'' dev raw) (ret (Some imei)))))"
          by (intro keeps_if keeps_thenM keeps_ret keeps_close net_inv_parts reg_register_auth
              keeps_send_reply announce_online_keeps keeps_tables session_inv_parts)
      qed (auto intro!: keeps_thenM keeps_ret keeps_close)
    qed
    then show ?thesis by (simp add: gps103_branch_def k KLogin)
  next
    case KUnknown
    with start show ?thesis by (simp add: gps103_branch_def k)
  qed (use start in \<open>auto simp: gps103_branch_def k intro: keepsD [OF gps103_auth_keeps(1)]
        keepsD [OF gps103_auth_keeps(2)]\<close>)
  then have "?I (snd (process_gps103_message cfg raw s ip w))"
    unfolding process_gps103_message_def by (rule tryM_at [where I = ?I]) (rule keeps_reg_read)
  then show ?thesis by (simp add: on_reg_def)
qed

lemma process_gps103_returns: "\<exists>r w'. process_gps103_message cfg raw s ip w = (Inr r, w')"
  by (auto simp: process_gps103_message_def tryM_def reg_imei_of_def split: prod.split sum.split)

interpretation gps103_handler: frame_handler process_gps103_message "\<lambda>_. True" gps103_claim
proof (unfold_locales, goal_cases)
  case (1 raw cfg s ip w)
  show ?case by (rule process_gps103_returns)
next
  case (2 n cfg raw s ip)
  show ?case by (intro process_gps103_keeps gps103_branch_pool)
next
  case (3 cfg raw s ip)
  show ?case
    by (intro process_gps103_keeps gps103_branch_keeps keeps_close keeps_write_drain net_inv_parts
        session_inv_parts keeps_reg_register_ok keeps_with_reg_reg reg_ok_note_position; assumption?)
next
  case (4 cfg raw s ip)
  show ?case by (intro process_gps103_keeps gps103_branch_db_ok)
next
  case (5 s S cfg raw ip)
  show ?case
    by (intro process_gps103_keeps gps103_branch_keeps write_drain_only_socket close_only_socket
        session_inv_only_socket keeps_reg_register reg_inv_only_socket keeps_with_reg)
next
  case (6 w s raw cfg ip)
  show ?case by (rule process_gps103_auth)
qed

section \<open>A message of another device\<close>

text \<open>The IMEI a heartbeat or a report names.\<close>

definition named_imei :: "config \<Rightarrow> bytes \<Rightarrow> string option" where
  "named_imei cfg raw =
     (case gps103_classify raw of
        (KHeartbeat, text) \<Rightarrow> (case gps103_parse_heartbeat text of Inr imei \<Rightarrow> Some imei | Inl _ \<Rightarrow> None)
      | (KTracker, text) \<Rightarrow>
          (case parse_tracker (cfg_speed_in_kmh cfg) text of Inr data \<Rightarrow> Some (tk_imei data) | Inl _ \<Rightarrow> None)
      | _ \<Rightarrow> None)"

lemma authenticated_imei_other:
  assumes "get_imei_by_socket (reg w) s \<noteq> Some m"
  shows "authenticated_imei s m w = (Inr None, w \<lparr> closing := insert s (closing w) \<rparr>)"
  using assms
  by (auto simp: authenticated_imei_def bindM_def thenM_def reg_imei_of_def close_socket_def split: option.split)

lemma authenticated_imei_own:
  assumes "get_imei_by_socket (reg w) s = Some m" and "m \<noteq> ''''"
  shows "authenticated_imei s m w = (Inr (Some m), w)"
  using assms by (simp add: authenticated_imei_def bindM_def reg_imei_of_def)

text \<open>
  C24. A heartbeat or a report that names another IMEI than the one its socket is authenticated as, or
  that comes before any login, has one effect: the socket is closed. No table, no registry entry, no
  reply, no database call; a device cannot speak for another.
\<close>

theorem foreign_message_dropped:
  assumes "named_imei cfg raw = Some m" and "get_imei_by_socket (reg w) s \<noteq> Some m"
  shows "process_gps103_message cfg raw s ip w = (Inr None, w \<lparr> closing := insert s (closing w) \<rparr>)"
proof -
  note drop = authenticated_imei_other [OF assms(2)]
  from assms(1) consider
      (beat) t where "gps103_classify raw = (KHeartbeat, t)" "gps103_parse_heartbeat t = Inr m"
    | (report) t data where "gps103_classify raw = (KTracker, t)"
        "parse_tracker (cfg_speed_in_kmh cfg) t = Inr data" "tk_imei data = m"
    by (auto simp: named_imei_def split: prod.splits kind.splits sum.splits)
  then show ?thesis
  proof cases
    case beat
    then show ?thesis
      by (simp add: process_gps103_message_def gps103_branch_def gps103_heartbeat_def bindM_def tryM_def drop)
  next
    case report
    then show ?thesis
      by (simp add: process_gps103_message_def gps103_branch_def gps103_tracker_def bindM_def tryM_def drop)
  qed
qed

section \<open>An emergency\<close>

text \<open>
  C25. An SOS is acknowledged before anything else is tried: when a report of the authenticated device
  raises it, the confirmation is the first external call the handler makes, so no failure of the
  database can hold it back, and it is the only thing written to the device.
\<close>

theorem sos_confirmed_first:
  assumes "gps103_classify raw = (KTracker, t)" and "parse_tracker (cfg_speed_in_kmh cfg) t = Inr data"
    and "tk_alarm_name data = Some ''SOS''" and "get_imei_by_socket (reg w) s = Some (tk_imei data)"
    and "tk_imei data \<noteq> ''''" and "get_device (reg w) (tk_imei data) = Some e"
    and "build_help_me_ack (tk_imei data) = Inr reply"
    and "outcomes w (calls w) = Succeeds" and "s \<notin> closing w"
  shows "sent (snd (process_gps103_message cfg raw s ip w)) = (sent w)(s := sent w s @ [reply])"
proof -
  let ?dev = "e_device_id e" and ?imei = "tk_imei data" and ?ok = "tracker_position_ok data"
  define rest where "rest =
    thenM (safely (save_raw cfg ?dev ''GPS103'' raw True True))
    (thenM (case tk_ignition data of None \<Rightarrow> ret () | Some ign \<Rightarrow> safely (set_ignition ?dev ign))
    (bindM (vehicle_or_none ?dev) (\<lambda>vehicle_id.
     thenM (whenM ?ok (store_tracker_position cfg ?imei ?dev data))
    (thenM (safely (alarm_event ?dev data ?ok vehicle_id ''SOS'')) (ret (Some ?imei))))))"
  have keeps: "keeps (on_sent S) rest" for S
    unfolding rest_def alarm_event_def vehicle_or_none_def
    by (intro keeps_bindM keeps_thenM keeps_safely keeps_case_option keeps_ret keeps_tryM keeps_whenM
        store_tracker_position_keeps keeps_tables keeps_oracle_part session_inv_parts)
      (auto intro!: keeps_with_reg)
  have ack: "send_reply s reply w =
      (Inr (), (tick w) \<lparr> sent := (sent w)(s := sent w s @ [reply]) \<rparr>)" (is "_ = (_, ?w1)")
    using assms(8,9) by (simp add: send_reply_def tryM_def write_drain_def external_def push_bytes_def)
  have "gps103_branch cfg raw s ip w = rest ?w1"
    using assms(1-6) authenticated_imei_own [OF assms(4,5)]
    by (simp add: gps103_branch_def gps103_tracker_def bindM_def device_id_of_def reg_device_def Let_def
        thenM_def whenM_def assms(7) ack rest_def)
  then have "sent (snd (process_gps103_message cfg raw s ip w)) = sent (snd (rest ?w1))"
    by (simp add: process_gps103_message_def tryM_def reg_imei_of_def split: prod.split sum.split)
  also have "\<dots> = sent ?w1" using keepsD [OF keeps, of "sent ?w1" ?w1] by (simp add: on_sent_def)
  finally show ?thesis by simp
qed

section \<open>Examples\<close>

definition sample_report :: string where
  "sample_report = ''imei:123456789012345,help me,,,L,,''"

definition sample_report_bytes :: bytes where
  "sample_report_bytes = map of_char sample_report"

lemma sample_report_parses:
  "gps103_classify sample_report_bytes = (KTracker, sample_report)"
  "case parse_tracker False sample_report of
     Inr data \<Rightarrow> tk_alarm_name data = Some ''SOS'' \<and> tk_imei data = ''123456789012345'' | Inl _ \<Rightarrow> False"
  "build_help_me_ack ''123456789012345'' = Inr (map of_char ''**,imei:123456789012345,E;'')"
  by code_simp+

definition tk103_online :: world where
  "tk103_online =
     (start_world empty_database) \<lparr> outcomes := (\<lambda>k. if k = 0 then Succeeds else FailsClean),
       reg := register_device ''123456789012345'' ''10.0.0.7'' ''d1'' 7 GPS103 0 0 empty_registry \<rparr>"

lemma tk103_online_simps:
  "get_imei_by_socket (reg tk103_online) 7 = Some ''123456789012345''"
  "get_imei_by_socket (reg tk103_online) 8 = None"
  "get_device (reg tk103_online) ''123456789012345'' = Some (new_entry ''10.0.0.7'' ''d1'' 7 GPS103 0 0)"
  "closing tk103_online = {}" "sent tk103_online = (\<lambda>_. [])" "outcomes tk103_online (calls tk103_online) = Succeeds"
  by (simp_all add: tk103_online_def register_device_def put_entry_def
      get_device_def get_imei_by_socket_def new_entry_def empty_registry_def)

theorem foreign_message_dropped_witness:
  "process_gps103_message default_config sample_report_bytes 8 ''10.0.0.8'' tk103_online =
     (Inr None, tk103_online \<lparr> closing := {8} \<rparr>)"
proof -
  have "named_imei default_config sample_report_bytes = Some ''123456789012345''"
    using sample_report_parses by (auto simp: named_imei_def default_config_def split: sum.splits)
  from foreign_message_dropped [OF this, of tk103_online 8] show ?thesis by (simp add: tk103_online_simps)
qed

text \<open>Every call but the first fails, and the confirmation still goes out.\<close>

theorem sos_confirmed_first_witness:
  "sent (snd (process_gps103_message default_config sample_report_bytes 7 ''10.0.0.7'' tk103_online)) 7 =
     [map of_char ''**,imei:123456789012345,E;'']"
proof -
  obtain data where d: "parse_tracker False sample_report = Inr data" "tk_alarm_name data = Some ''SOS''"
    "tk_imei data = ''123456789012345''"
    using sample_report_parses(2) by (auto split: sum.splits)
  have p: "parse_tracker (cfg_speed_in_kmh default_config) sample_report = Inr data"
    using d(1) by (simp add: default_config_def)
  have c: "get_imei_by_socket (reg tk103_online) 7 = Some (tk_imei data)" "tk_imei data \<noteq> ''''"
    "get_device (reg tk103_online) (tk_imei data) = Some (new_entry ''10.0.0.7'' ''d1'' 7 GPS103 0 0)"
    "build_help_me_ack (tk_imei data) = Inr (map of_char ''**,imei:123456789012345,E;'')"
    using sample_report_parses(3) by (simp_all add: d(3) tk103_online_simps)
  have o: "7 \<notin> closing tk103_online" by (simp add: tk103_online_simps)
  show ?thesis
    unfolding sos_confirmed_first [OF sample_report_parses(1) p d(2) c tk103_online_simps(6) o]
    by (simp add: tk103_online_simps)
qed

end
