(* ===== verification/Teltonika_Handler.thy ===== *)
theory Teltonika_Handler
  imports World Persistence Teltonika_Parser Handler_Contract Gps103_Handler
begin

text \<open>
  services/teltonika_handler.py: what the gateway does with one Teltonika frame. Delivery is at
  least once: the reply to a data packet is the number of records stored or skipped on purpose,
  and the first record whose write fails ends the count, so the device sends the rest again.
\<close>

section \<open>Login\<close>

definition teltonika_model :: string where
  "teltonika_model = ''FMB''"

text \<open>\<^verbatim>\<open>_last_alive.pop(device_id, None); _last_ignition.pop(device_id, None)\<close>.\<close>

definition forget_device :: "string \<Rightarrow> unit act" where
  "forget_device dev =
     modifyM (\<lambda>w. w \<lparr> last_alive := (last_alive w)(dev := None),
                     last_ignition := (last_ignition w)(dev := None) \<rparr>)"

definition teltonika_accept :: "config \<Rightarrow> string \<Rightarrow> bytes \<Rightarrow> sock \<Rightarrow> string \<Rightarrow> string option act" where
  "teltonika_accept cfg imei raw s ip =
     bindM (get_device_by_imei imei ''TELTONIKA'' teltonika_model) (\<lambda>device_id.
       case device_id of
         None \<Rightarrow> thenM (close_socket s) (ret None)
       | Some dev \<Rightarrow>
           (if dev = [] then thenM (close_socket s) (ret None)
            else thenM (reg_register imei ip dev s TELTONIKA)
                (thenM (forget_device dev)
                (thenM (send_reply s LOGIN_ACCEPT)
                (thenM (announce_online cfg ''TELTONIKA'' dev raw) (ret (Some imei)))))))"

definition teltonika_login :: "config \<Rightarrow> bytes \<Rightarrow> sock \<Rightarrow> string \<Rightarrow> string option act" where
  "teltonika_login cfg raw s ip =
     (case teltonika_parse_login raw of
        Inl e \<Rightarrow> (if is_teltonika_parse_error e then thenM (close_socket s) (ret None) else raise e)
      | Inr imei \<Rightarrow> teltonika_accept cfg imei raw s ip)"

section \<open>Records\<close>

definition avl_position_ok :: "avl_record \<Rightarrow> bool" where
  "avl_position_ok r \<longleftrightarrow>
     location_plausible (avl_latitude r) (avl_longitude r) (f_of_nat (avl_speed r)) (f_of_nat (avl_angle r))"

definition add_seconds :: "datetime \<Rightarrow> int \<Rightarrow> datetime result" where
  "add_seconds t n = (let r = t + n * usec in if dt_in_range r then Inr r else Inl OverflowError)"

definition save_record :: "config \<Rightarrow> string \<Rightarrow> avl_record \<Rightarrow> bool act" where
  "save_record cfg dev r =
     tryM (bindM (save_location cfg dev (avl_latitude r) (avl_longitude r) (f_of_nat (avl_speed r))
                    (f_of_nat (avl_angle r)) (avl_satellites r) (avl_timestamp r)) (\<lambda>_. ret True))
       (\<lambda>_. ret False)"

definition store_record :: "config \<Rightarrow> string \<Rightarrow> avl_record \<Rightarrow> bool act" where
  "store_record cfg dev r =
     (if \<not> has_fix r then ret True
      else bindM now_utc (\<lambda>now.
           bindM (liftR (add_seconds now (cfg_max_future_seconds cfg))) (\<lambda>latest_allowed.
             if avl_timestamp r > latest_allowed then ret True
             else if \<not> avl_position_ok r then ret True
             else save_record cfg dev r)))"

text \<open>The loop over the records: how many were accepted before the first failure.\<close>

fun store_records :: "config \<Rightarrow> string \<Rightarrow> avl_record list \<Rightarrow> nat act" where
  "store_records cfg dev [] = ret 0"
| "store_records cfg dev (r # rs) =
     bindM (store_record cfg dev r) (\<lambda>ok.
       if \<not> ok then ret 0 else bindM (store_records cfg dev rs) (\<lambda>n. ret (Suc n)))"

definition newest_ignition :: "avl_record list \<Rightarrow> bool option" where
  "newest_ignition records =
     (case List.find (\<lambda>r. avl_ignition r \<noteq> None) (sort_key (\<lambda>r. - avl_timestamp r) records) of
        None \<Rightarrow> None | Some r \<Rightarrow> avl_ignition r)"

definition ALIVE_REFRESH_SECONDS :: rat where
  "ALIVE_REFRESH_SECONDS = 60"

definition set_last_alive :: "string \<Rightarrow> rat \<Rightarrow> unit act" where
  "set_last_alive dev now = modifyM (\<lambda>w. w \<lparr> last_alive := (last_alive w)(dev \<mapsto> now) \<rparr>)"

definition set_last_ignition :: "string \<Rightarrow> bool \<Rightarrow> unit act" where
  "set_last_ignition dev ign = modifyM (\<lambda>w. w \<lparr> last_ignition := (last_ignition w)(dev \<mapsto> ign) \<rparr>)"

definition refresh_alive :: "string \<Rightarrow> rat \<Rightarrow> unit act" where
  "refresh_alive dev now =
     bindM (getsM (\<lambda>w. last_alive w dev)) (\<lambda>last.
       whenM (case last of None \<Rightarrow> True | Some t \<Rightarrow> now - t \<ge> ALIVE_REFRESH_SECONDS)
         (thenM (safely (mark_device_alive dev True)) (set_last_alive dev now)))"

definition refresh_status :: "string \<Rightarrow> avl_record list \<Rightarrow> unit act" where
  "refresh_status dev records =
     bindM monotonic (\<lambda>now.
     bindM (getsM (\<lambda>w. last_ignition w dev)) (\<lambda>last.
       case newest_ignition records of
         None \<Rightarrow> refresh_alive dev now
       | Some ign \<Rightarrow>
           (if last \<noteq> Some ign
            then thenM (safely (set_ignition dev ign))
                (thenM (set_last_ignition dev ign) (set_last_alive dev now))
            else refresh_alive dev now)))"

section \<open>Data packets\<close>

definition teltonika_records :: "config \<Rightarrow> string \<Rightarrow> bytes \<Rightarrow> sock \<Rightarrow> avl_packet \<Rightarrow> unit act" where
  "teltonika_records cfg dev raw s packet =
     thenM (safely (save_raw cfg dev ''TELTONIKA'' raw False True))
     (thenM (refresh_status dev (pkt_records packet))
     (bindM (store_records cfg dev (pkt_records packet)) (\<lambda>accepted.
      bindM (liftR (avl_ack accepted)) (\<lambda>reply. send_reply s reply))))"

definition teltonika_avl :: "config \<Rightarrow> bytes \<Rightarrow> sock \<Rightarrow> string option act" where
  "teltonika_avl cfg raw s =
     bindM (reg_imei_of s) (\<lambda>conn.
       case conn of
         None \<Rightarrow> thenM (close_socket s) (ret None)
       | Some imei \<Rightarrow>
           (if imei = [] then thenM (close_socket s) (ret None)
            else bindM (device_id_of imei) (\<lambda>dev.
              case parse_avl_packet raw of
                Inl e \<Rightarrow>
                  (if e = TeltonikaCrcError then ret (Some imei)
                   else if is_teltonika_parse_error e
                   then thenM (safely (save_raw cfg dev ''TELTONIKA'' raw True False)) (ret (Some imei))
                   else raise e)
              | Inr packet \<Rightarrow> thenM (teltonika_records cfg dev raw s packet) (ret (Some imei)))))"

definition teltonika_branch :: "config \<Rightarrow> bytes \<Rightarrow> sock \<Rightarrow> string \<Rightarrow> string option act" where
  "teltonika_branch cfg raw s ip =
     (if is_login_frame raw then teltonika_login cfg raw s ip else teltonika_avl cfg raw s)"

definition process_teltonika_frame :: "config \<Rightarrow> bytes \<Rightarrow> sock \<Rightarrow> string \<Rightarrow> string option act" where
  "process_teltonika_frame cfg raw s ip = tryM (teltonika_branch cfg raw s ip) (\<lambda>_. reg_imei_of s)"

section \<open>What the handler keeps\<close>

text \<open>All the handler ever says.\<close>

definition teltonika_reply :: "bytes \<Rightarrow> bool" where
  "teltonika_reply b \<longleftrightarrow> b = LOGIN_ACCEPT \<or> (\<exists>n. avl_ack n = Inr b)"

lemma teltonika_replies [simp]: "teltonika_reply LOGIN_ACCEPT" "avl_ack n = Inr b \<Longrightarrow> teltonika_reply b"
  by (auto simp: teltonika_reply_def)

text \<open>The two caches of the module are outside every invariant of the contract.\<close>

definition cache_inv :: "(world \<Rightarrow> bool) \<Rightarrow> bool" where
  "cache_inv I \<longleftrightarrow> (\<forall>w a g. I w \<longrightarrow> I (w \<lparr> last_alive := a, last_ignition := g \<rparr>)) \<and>
     (\<forall>w a. I w \<longrightarrow> I (w \<lparr> last_alive := a \<rparr>)) \<and> (\<forall>w g. I w \<longrightarrow> I (w \<lparr> last_ignition := g \<rparr>))"

lemma cache_inv_parts [simp]:
  "cache_inv (on_reg R)" "cache_inv (on_db D)" "cache_inv (pool_is n)" "cache_inv (only_socket s S)"
  "cache_inv (on_sent S)" "cache_inv (oracle_is f)" "cache_inv (slots_are k)"
  by (simp_all add: cache_inv_def part_defs only_socket_def)

lemma cache_keeps:
  assumes "cache_inv I"
  shows "keeps I (forget_device d)" "keeps I (set_last_alive d t)" "keeps I (set_last_ignition d g)"
  using assms unfolding forget_device_def set_last_alive_def set_last_ignition_def cache_inv_def
  by (auto intro!: keeps_modifyM)

lemma store_record_keeps:
  assumes "keeps I now_utc"
    and "\<And>r. avl_position_ok r \<Longrightarrow> keeps I (save_location cfg dev (avl_latitude r) (avl_longitude r)
      (f_of_nat (avl_speed r)) (f_of_nat (avl_angle r)) (avl_satellites r) (avl_timestamp r))"
  shows "keeps I (store_record cfg dev r)"
  unfolding store_record_def save_record_def
  by (intro keeps_if keeps_bindM keeps_ret keeps_liftR keeps_tryM assms) simp_all

lemma store_records_keeps:
  "(\<And>r. keeps I (store_record cfg dev r)) \<Longrightarrow> keeps I (store_records cfg dev rs)"
  by (induction rs) (auto intro!: keeps_bindM keeps_ret keeps_if)

lemma refresh_status_keeps:
  assumes "keeps I monotonic" "cache_inv I" "keeps I (mark_device_alive dev True)"
    and "\<And>i. keeps I (set_ignition dev i)"
  shows "keeps I (refresh_status dev records)"
  unfolding refresh_status_def refresh_alive_def
  by (intro keeps_bindM keeps_getsM keeps_case_option keeps_if keeps_thenM keeps_whenM keeps_safely
      cache_keeps assms)

lemma teltonika_avl_keeps:
  assumes "keeps I (close_socket s)" "\<And>b. teltonika_reply b \<Longrightarrow> keeps I (write_drain s b)"
    and "\<And>dev a ok. keeps I (save_raw cfg dev ''TELTONIKA'' raw a ok)"
    and "\<And>dev rs. keeps I (refresh_status dev rs)" "\<And>dev r. keeps I (store_record cfg dev r)"
  shows "keeps I (teltonika_avl cfg raw s)"
  unfolding teltonika_avl_def teltonika_records_def send_reply_def
  by (intro keeps_liftR_bind keeps_bindM keeps_reg_read keeps_case_option keeps_if keeps_thenM keeps_ret
      keeps_case_sum device_id_keeps keeps_raise keeps_safely keeps_tryM store_records_keeps
      assms teltonika_replies)

lemma teltonika_accept_keeps:
  assumes "keeps I (close_socket s)" "\<And>b. teltonika_reply b \<Longrightarrow> keeps I (write_drain s b)" "cache_inv I"
    and "\<And>dev. keeps I (reg_register imei ip dev s TELTONIKA)"
    and "keeps I (get_device_by_imei imei ''TELTONIKA'' teltonika_model)"
    and "\<And>dev. keeps I (announce_online cfg ''TELTONIKA'' dev raw)"
  shows "keeps I (teltonika_accept cfg imei raw s ip)"
  unfolding teltonika_accept_def send_reply_def
  by (intro keeps_bindM keeps_case_option keeps_if keeps_thenM keeps_ret keeps_tryM cache_keeps assms
      teltonika_replies)

lemma process_teltonika_keeps:
  assumes "keeps I (close_socket s)" "\<And>b. teltonika_reply b \<Longrightarrow> keeps I (write_drain s b)" "cache_inv I"
    and "keeps I (teltonika_avl cfg raw s)"
    and "\<And>imei. keeps I (teltonika_accept cfg imei raw s ip)"
  shows "keeps I (process_teltonika_frame cfg raw s ip)"
  unfolding process_teltonika_frame_def teltonika_branch_def teltonika_login_def
  by (intro keeps_tryM keeps_reg_read keeps_if keeps_case_sum keeps_thenM keeps_ret keeps_raise assms)

lemma store_record_db_ok: "keeps (on_db db_ok) (store_record cfg dev r)"
  by (rule store_record_keeps) (auto simp: avl_position_ok_def intro!: save_location_db_ok keeps_oracle_db)

lemma avl_session_keeps:
  assumes "session_inv I" "cache_inv I" "keeps I (close_socket s)" "\<And>b. teltonika_reply b \<Longrightarrow> keeps I (write_drain s b)"
  shows "keeps I (teltonika_avl cfg raw s)"
  by (intro teltonika_avl_keeps refresh_status_keeps store_record_keeps keeps_tables keeps_oracle_part assms)

lemma accept_session_keeps:
  assumes "session_inv I" "cache_inv I" "keeps I (close_socket s)" "\<And>b. teltonika_reply b \<Longrightarrow> keeps I (write_drain s b)"
    and "\<And>i dev. keeps I (reg_register i ip dev s TELTONIKA)"
  shows "keeps I (teltonika_accept cfg imei raw s ip)"
  by (intro teltonika_accept_keeps announce_online_keeps keeps_tables assms)

section \<open>The contract\<close>

definition teltonika_claim :: "bytes \<Rightarrow> string option" where
  "teltonika_claim raw =
     (if is_login_frame raw
      then (case teltonika_parse_login raw of Inr imei \<Rightarrow> Some imei | Inl _ \<Rightarrow> None) else None)"

lemma process_teltonika_auth:
  "auth_within (may_auth w s (teltonika_claim raw)) (reg (snd (process_teltonika_frame cfg raw s ip w)))"
proof -
  let ?I = "on_reg (auth_within (may_auth w s (teltonika_claim raw)))"
  have start: "?I w" by (rule may_auth_start)
  have close: "keeps ?I (thenM (close_socket s) (ret x))" for x :: "string option"
    by (intro keeps_thenM keeps_ret keeps_close net_inv_parts)
  have "?I (snd (teltonika_branch cfg raw s ip w))"
  proof (cases "is_login_frame raw")
    case True
    show ?thesis
    proof (cases "teltonika_parse_login raw")
      case (Inl e)
      then show ?thesis
        using start keepsD [OF close start]
        by (simp add: teltonika_branch_def True teltonika_login_def)
    next
      case (Inr imei)
      then have claim: "teltonika_claim raw = Some imei" by (simp add: teltonika_claim_def True)
      have "?I (snd (teltonika_accept cfg imei raw s ip w))"
        unfolding teltonika_accept_def
      proof (rule login_at [where I = ?I and w = w, OF start])
        fix dev assume "admitted (db w) imei"
        then have "may_auth w s (teltonika_claim raw) s imei" by (simp add: may_auth_def claim)
        then show "keeps ?I (if dev = [] then thenM (close_socket s) (ret None)
            else thenM (reg_register imei ip dev s TELTONIKA) (thenM (forget_device dev)
              (thenM (send_reply s LOGIN_ACCEPT)
              (thenM (announce_online cfg ''TELTONIKA'' dev raw) (ret (Some imei))))))"
          by (intro keeps_if close keeps_thenM keeps_ret reg_register_auth cache_keeps cache_inv_parts
              keeps_send_reply net_inv_parts announce_online_keeps keeps_tables session_inv_parts)
      qed (simp_all add: close)
      then show ?thesis by (simp add: teltonika_branch_def True teltonika_login_def Inr)
    qed
  next
    case False
    have "keeps ?I (teltonika_avl cfg raw s)"
      by (intro avl_session_keeps session_inv_parts cache_inv_parts keeps_close keeps_write_drain
          net_inv_parts)
    with start show ?thesis by (simp add: teltonika_branch_def False keepsD)
  qed
  then have "?I (snd (process_teltonika_frame cfg raw s ip w))"
    unfolding process_teltonika_frame_def by (rule tryM_at [where I = ?I]) (rule keeps_reg_read)
  then show ?thesis by (simp add: on_reg_def)
qed

lemma process_teltonika_returns: "\<exists>r w'. process_teltonika_frame cfg raw s ip w = (Inr r, w')"
  by (auto simp: process_teltonika_frame_def tryM_def reg_imei_of_def split: prod.split sum.split)

interpretation teltonika_handler: frame_handler process_teltonika_frame "\<lambda>_. True" teltonika_claim
proof (unfold_locales, goal_cases)
  case (1 raw cfg s ip w)
  show ?case by (rule process_teltonika_returns)
next
  case (2 n cfg raw s ip)
  show ?case
    by (intro process_teltonika_keeps teltonika_avl_keeps teltonika_accept_keeps refresh_status_keeps
        store_record_keeps announce_online_keeps cache_inv_parts; simp add: pool_intros)
next
  case (3 cfg raw s ip)
  show ?case
    by (intro process_teltonika_keeps avl_session_keeps accept_session_keeps session_inv_parts
        cache_inv_parts keeps_close keeps_write_drain net_inv_parts keeps_reg_register_ok)
next
  case (4 cfg raw s ip)
  show ?case
    by (intro process_teltonika_keeps teltonika_avl_keeps teltonika_accept_keeps refresh_status_keeps
        store_record_db_ok announce_online_keeps cache_inv_parts keeps_close keeps_write_drain
        net_inv_parts records_db_ok status_db_ok query_db_ok create_event_db_ok keeps_oracle_db
        keeps_reg_register reg_inv_parts)
next
  case (5 s S cfg raw ip)
  show ?case
    by (intro process_teltonika_keeps avl_session_keeps accept_session_keeps cache_inv_parts
        write_drain_only_socket close_only_socket session_inv_only_socket keeps_reg_register
        reg_inv_only_socket)
next
  case (6 w s raw cfg ip)
  show ?case by (rule process_teltonika_auth)
qed

section \<open>At-least-once delivery\<close>

text \<open>A record the handler must store: it has a fix, a possible position and no absurd time.\<close>

definition must_store :: "config \<Rightarrow> (nat \<Rightarrow> datetime) \<Rightarrow> avl_record \<Rightarrow> bool" where
  "must_store cfg clk r \<longleftrightarrow> has_fix r \<and> avl_position_ok r \<and>
     (\<forall>k. avl_timestamp r \<le> clk k + cfg_max_future_seconds cfg * usec)"

definition is_stored :: "string \<Rightarrow> avl_record \<Rightarrow> database \<Rightarrow> bool" where
  "is_stored dev r d \<longleftrightarrow>
     (\<exists>t \<in> set (gps_trackings d). tr_device_id t = dev \<and> tr_event_time t = avl_timestamp r)"

lemma is_stored_save:
  "is_stored dev r d \<Longrightarrow> is_stored dev r (snd (save_location_sql i row d))"
  by (auto simp: is_stored_def save_location_sql_def insert_tracking_def Let_def split: option.split)

lemma save_location_keeps_stored:
  "keeps (on_db (is_stored dev r)) (save_location cfg dv la lo sp hg sa t)"
  unfolding save_location_def
  by (intro keeps_managed_db keeps_bindM keeps_liftR keeps_ret keeps_statement_db is_stored_save)

lemma store_record_keeps_stored: "keeps (on_db (is_stored dev r)) (store_record cfg dv q)"
  by (rule store_record_keeps [OF keeps_oracle_db(1) save_location_keeps_stored])

lemma save_location_stores:
  assumes "save_location cfg dev la lo sp hg sa (avl_timestamp r) w = (Inr b, w')"
  shows "is_stored dev r (db w')"
proof -
  let ?body = "bindM (liftR (tracking_params dev la lo sp hg sa (avl_timestamp r)))
    (\<lambda>row. bindM (statement (save_location_sql (cfg_gps_idempotent cfg) row)) (\<lambda>updated. ret (updated \<noteq> None)))"
  obtain w1 w2 where b: "?body w1 = (Inr b, w2)" and d: "db w' = db w2"
    using managed_Inr [OF assms [unfolded save_location_def]] by blast
  from b obtain row u where p: "tracking_params dev la lo sp hg sa (avl_timestamp r) = Inr row"
    and st: "statement (save_location_sql (cfg_gps_idempotent cfg) row) w1 = (Inr u, w2)"
    by (auto simp: bindM_eq_Inr_iff)
  from p have row: "tr_device_id row = dev" "tr_event_time row = avl_timestamp r"
    by (auto simp: tracking_params_def result_simps)
  from st have "db w2 = snd (save_location_sql (cfg_gps_idempotent cfg) row (db w1))"
    by (auto simp: statement_def external_def split: outcome.splits prod.splits)
  then show ?thesis
    unfolding d is_stored_def using row
    by (auto simp: save_location_sql_def insert_tracking_def Let_def list_ex_iff split: option.split)
qed

lemma clock_keeps: "keeps (\<lambda>w. clock w = c) (store_record cfg dev r)"
proof -
  have "session_inv (\<lambda>w. clock w = c)" by (simp add: session_inv_def tick_def)
  then show ?thesis by (intro store_record_keeps keeps_oracle_part keeps_tables)
qed

lemma store_record_stores:
  assumes "store_record cfg dev r w = (Inr True, w')" and "must_store cfg (clock w) r"
  shows "is_stored dev r (db w')"
proof -
  have "\<not> clock w k + cfg_max_future_seconds cfg * usec < avl_timestamp r" for k
    using assms(2) by (simp add: must_store_def linorder_not_less)
  with assms obtain w1 where "save_record cfg dev r w1 = (Inr True, w')"
    by (auto simp: store_record_def must_store_def bindM_eq_Inr_iff now_utc_def add_seconds_def Let_def
        split: if_splits)
  then obtain b where "save_location cfg dev (avl_latitude r) (avl_longitude r) (f_of_nat (avl_speed r))
      (f_of_nat (avl_angle r)) (avl_satellites r) (avl_timestamp r) w1 = (Inr b, w')"
    by (auto simp: save_record_def tryM_eq_Inr_iff bindM_eq_Inr_iff)
  then show ?thesis by (rule save_location_stores)
qed

text \<open>
  However the writes fail, a record counted as accepted is in the history, unless the handler
  skipped it on purpose.
\<close>

lemma store_records_accepted:
  assumes "store_records cfg dev rs w = (Inr n, w')" and "k < n" and "must_store cfg (clock w) (rs ! k)"
  shows "k < length rs \<and> is_stored dev (rs ! k) (db w')"
  using assms
proof (induction rs arbitrary: n k w)
  case (Cons r rs)
  from Cons.prems(1) obtain ok w1 where r: "store_record cfg dev r w = (Inr ok, w1)"
    and rest: "(if \<not> ok then ret 0 else bindM (store_records cfg dev rs) (\<lambda>n. ret (Suc n))) w1 = (Inr n, w')"
    by (auto simp: bindM_eq_Inr_iff)
  with Cons.prems(2) obtain m where ok: "ok" and m: "store_records cfg dev rs w1 = (Inr m, w')" "n = Suc m"
    by (auto simp: bindM_eq_Inr_iff split: if_splits)
  show ?case
  proof (cases k)
    case 0
    with Cons.prems(3) r ok have "is_stored dev r (db w1)" by (auto intro: store_record_stores)
    moreover have "keeps (on_db (is_stored dev r)) (store_records cfg dev rs)"
      by (rule store_records_keeps) (rule store_record_keeps_stored)
    ultimately have "is_stored dev r (db w')" using keepsD2 m(1) by (fastforce simp: on_db_def)
    with 0 show ?thesis by simp
  next
    case (Suc j)
    have "clock w1 = clock w" using keepsD2 [OF clock_keeps r] by simp
    with Cons.IH [OF m(1), of j] Cons.prems(2,3) m(2) Suc show ?thesis by simp
  qed
qed simp

text \<open>What is sent and which clock is read, as one invariant of the bookkeeping.\<close>

definition quiet :: "(sock \<Rightarrow> bytes list) \<Rightarrow> (nat \<Rightarrow> datetime) \<Rightarrow> world \<Rightarrow> bool" where
  "quiet S c w \<longleftrightarrow> sent w = S \<and> clock w = c"

lemma quiet_inv [simp]: "session_inv (quiet S c)" "cache_inv (quiet S c)"
  by (simp_all add: session_inv_def cache_inv_def quiet_def tick_def)

lemma quiet_refl: "quiet (sent w) (clock w) w"
  by (simp add: quiet_def)

lemma store_records_quiet: "keeps (quiet S c) (store_records cfg dev rs)"
  by (intro store_records_keeps store_record_keeps keeps_oracle_part keeps_tables quiet_inv)

lemma send_reply_sent:
  "sent (snd (send_reply s b w)) s = sent w s \<or> sent (snd (send_reply s b w)) s = sent w s @ [b]"
  by (auto simp: send_reply_def tryM_def write_drain_def external_def push_bytes_def split: outcome.split)

text \<open>A data packet is answered with the number of accepted records, or not at all.\<close>

lemma teltonika_records_reply:
  assumes "teltonika_records cfg dev raw s packet w = (r, w')"
  shows "sent w' s = sent w s \<or>
    (\<exists>n reply w1 w2. store_records cfg dev (pkt_records packet) w1 = (Inr n, w2) \<and> avl_ack n = Inr reply \<and>
       clock w1 = clock w \<and> db w' = db w2 \<and> sent w' s = sent w s @ [reply])"
proof -
  let ?pre = "thenM (safely (save_raw cfg dev ''TELTONIKA'' raw False True)) (refresh_status dev (pkt_records packet))"
  have pre: "keeps (quiet S c) ?pre" for S c
    by (intro keeps_thenM keeps_safely refresh_status_keeps keeps_tables keeps_oracle_part quiet_inv)
  obtain r1 w1 where 1: "?pre w = (r1, w1)" by (cases "?pre w")
  from keepsD2 [OF pre 1 quiet_refl] have q1: "sent w1 = sent w" "clock w1 = clock w" by (simp_all add: quiet_def)
  obtain r2 w2 where 2: "store_records cfg dev (pkt_records packet) w1 = (r2, w2)"
    by (cases "store_records cfg dev (pkt_records packet) w1")
  from keepsD2 [OF store_records_quiet 2 quiet_refl] have q2: "sent w2 = sent w1" by (simp add: quiet_def)
  have split: "teltonika_records cfg dev raw s packet w =
      bindM ?pre (\<lambda>_. bindM (store_records cfg dev (pkt_records packet)) (\<lambda>accepted.
        bindM (liftR (avl_ack accepted)) (\<lambda>reply. send_reply s reply))) w"
    by (simp add: teltonika_records_def thenM_def bindM_def split: prod.split sum.split)
  show ?thesis
  proof (cases "\<exists>n reply. r1 = Inr () \<and> r2 = Inr n \<and> avl_ack n = Inr reply")
    case True
    then obtain n reply where n: "r1 = Inr ()" "r2 = Inr n" "avl_ack n = Inr reply" by blast
    with assms split 1 2 have w': "w' = snd (send_reply s reply w2)" by (simp add: bindM_def)
    have "on_db (\<lambda>d. d = db w2) (snd (send_reply s reply w2))"
      by (rule keepsD [OF keeps_send_reply [OF net_inv_parts(2)]]) (simp add: on_db_def)
    with send_reply_sent [of s reply w2] 2 n q1 q2 show ?thesis by (auto simp: w' on_db_def)
  next
    case False
    then have "w' = w1 \<or> w' = w2"
      using assms split 1 2 by (cases r1; cases r2) (auto simp: bindM_def split: sum.splits)
    with q1 q2 show ?thesis by auto
  qed
qed

lemma process_data_packet:
  assumes "\<not> is_login_frame raw" and "get_imei_by_socket (reg w) s = Some imei" and "imei \<noteq> ''''"
    and "get_device (reg w) imei = Some e" and "parse_avl_packet raw = Inr packet"
  shows "snd (process_teltonika_frame cfg raw s ip w) =
    snd (teltonika_records cfg (e_device_id e) raw s packet w)"
  using assms
  by (auto simp: process_teltonika_frame_def teltonika_branch_def teltonika_avl_def bindM_def
      tryM_def thenM_def reg_imei_of_def device_id_of_def reg_device_def split: prod.split sum.split)

section \<open>When no call fails\<close>

lemma healthy_after: "(\<And>f. keeps (oracle_is f) m) \<Longrightarrow> m w = (r, w') \<Longrightarrow> healthy w \<Longrightarrow> healthy w'"
  using keepsD2 [of "oracle_is (outcomes w)" m w r w'] by (simp add: oracle_is_def healthy_def)

lemma save_location_healthy:
  assumes "healthy w" and "location_plausible la lo sp hg"
  shows "\<exists>b w'. save_location cfg dev la lo sp hg sa t w = (Inr b, w')"
proof -
  obtain row where "tracking_params dev la lo sp hg sa t = Inr row"
    using assms(2) by (auto simp: location_plausible_def tracking_params_def dest!: f_between_finite)
  then show ?thesis
    using assms(1)
    by (simp add: save_location_def managed_connection_def thenM_def bindM_def finallyM_def healthy_acquire
        release_def statement_def healthy_external split: prod.split)
qed

text \<open>The clock is one Python can add the allowed lead to.\<close>

definition clock_usable :: "config \<Rightarrow> (nat \<Rightarrow> datetime) \<Rightarrow> bool" where
  "clock_usable cfg clk \<longleftrightarrow> (\<forall>k. dt_in_range (clk k + cfg_max_future_seconds cfg * usec))"

lemma store_record_healthy:
  assumes "healthy w" and "clock_usable cfg (clock w)"
  shows "\<exists>w'. store_record cfg dev r w = (Inr True, w')"
proof -
  have "\<exists>w'. save_record cfg dev r v = (Inr True, w')" if v: "healthy v" "avl_position_ok r" for v
  proof -
    obtain b v' where "save_location cfg dev (avl_latitude r) (avl_longitude r) (f_of_nat (avl_speed r))
        (f_of_nat (avl_angle r)) (avl_satellites r) (avl_timestamp r) v = (Inr b, v')"
      using save_location_healthy [OF v(1)] v(2) unfolding avl_position_ok_def by blast
    then show ?thesis by (simp add: save_record_def tryM_def bindM_def)
  qed
  then show ?thesis
    using assms
    by (auto simp: store_record_def bindM_def now_utc_def add_seconds_def Let_def clock_usable_def)
qed

lemma store_records_healthy:
  assumes "healthy w" and "clock_usable cfg (clock w)"
  shows "\<exists>w'. store_records cfg dev rs w = (Inr (length rs), w')"
  using assms
proof (induction rs arbitrary: w)
  case (Cons r rs)
  obtain w1 where 1: "store_record cfg dev r w = (Inr True, w1)" using store_record_healthy [OF Cons.prems] by blast
  have "healthy w1"
    by (rule healthy_after [where m = "store_record cfg dev r", OF _ 1 Cons.prems(1)])
      (intro store_record_keeps keeps_oracle_part keeps_tables; simp)
  moreover have "clock w1 = clock w" using keepsD2 [OF clock_keeps 1] by simp
  ultimately obtain w2 where "store_records cfg dev rs w1 = (Inr (length rs), w2)" using Cons by metis
  with 1 show ?case by (simp add: bindM_def)
qed simp

lemma refresh_status_never_raises: "never_raises (refresh_status dev records)"
  unfolding refresh_status_def refresh_alive_def whenM_def never_raises_def
  by (auto simp: bindM_def monotonic_def thenM_def safely_def tryM_def set_last_alive_def
      set_last_ignition_def split: option.split prod.split sum.split)

lemma teltonika_records_healthy:
  assumes "healthy w" and "clock_usable cfg (clock w)" and "s \<notin> closing w" and "length (pkt_records packet) < 2 ^ 32"
  shows "sent (snd (teltonika_records cfg dev raw s packet w)) s =
    sent w s @ [be_bytes 4 (length (pkt_records packet))]"
proof -
  let ?pre = "thenM (safely (save_raw cfg dev ''TELTONIKA'' raw False True)) (refresh_status dev (pkt_records packet))"
  have keeps_pre: "keeps I ?pre" if "session_inv I" "cache_inv I" for I
    by (intro keeps_thenM keeps_safely refresh_status_keeps keeps_tables keeps_oracle_part that)
  obtain w1 where 1: "?pre w = (Inr (), w1)"
    using never_raises_safely [of "save_raw cfg dev ''TELTONIKA'' raw False True"]
      refresh_status_never_raises [of dev "pkt_records packet"]
    unfolding never_raises_def thenM_def bindM_def by (metis (mono_tags, lifting) case_prod_conv sum.case(2) old.unit.exhaust)
  let ?N = "\<lambda>v. quiet (sent w) (clock w) v \<and> closing v = closing w"
  have N: "session_inv ?N" "cache_inv ?N"
    by (auto simp: session_inv_def cache_inv_def quiet_def tick_def)
  have h1: "healthy w1" by (rule healthy_after [where m = ?pre, OF keeps_pre 1 assms(1)]) simp_all
  have n1: "?N w1" using keepsD2 [OF keeps_pre [OF N] 1] by (simp add: quiet_def)
  have "clock_usable cfg (clock w1)" using n1 assms(2) by (simp add: quiet_def)
  from store_records_healthy [OF h1 this] obtain w2
    where 2: "store_records cfg dev (pkt_records packet) w1 = (Inr (length (pkt_records packet)), w2)" by blast
  have keeps_st: "keeps I (store_records cfg dev (pkt_records packet))" if "session_inv I" for I
    by (intro store_records_keeps store_record_keeps keeps_oracle_part keeps_tables that)
  have h2: "healthy w2" by (rule healthy_after [where m = "store_records cfg dev (pkt_records packet)", OF keeps_st 2 h1]) simp
  have n2: "?N w2" using keepsD2 [OF keeps_st [OF N(1)] 2 n1] .
  have "teltonika_records cfg dev raw s packet w = send_reply s (be_bytes 4 (length (pkt_records packet))) w2"
  proof -
    have "teltonika_records cfg dev raw s packet w =
        bindM ?pre (\<lambda>_. bindM (store_records cfg dev (pkt_records packet)) (\<lambda>accepted.
          bindM (liftR (avl_ack accepted)) (\<lambda>reply. send_reply s reply))) w"
      by (simp add: teltonika_records_def thenM_def bindM_def split: prod.split sum.split)
    with 1 2 assms(4) show ?thesis by (simp add: bindM_def avl_ack_def)
  qed
  then show ?thesis
    using h2 n2 assms(3)
    by (simp add: send_reply_def tryM_def write_drain_def healthy_external push_bytes_def quiet_def)
qed

text \<open>A tracker that is connected, and a packet with one record from it.\<close>

definition tracker_online :: world where
  "tracker_online =
     (start_world empty_database) \<lparr> clock := (\<lambda>_. epoch + 2000000000000000),
       reg := register_device ''123456789012345'' ''10.0.0.7'' ''d1'' 7 TELTONIKA 0 0 empty_registry \<rparr>"

definition sample_config :: config where
  "sample_config =
     \<lparr> cfg_connection_timeout = 300, cfg_max_connections = 500, cfg_enabled_protocols = UNIV,
       cfg_speed_in_kmh = False, cfg_max_unframed_bytes = 2048, cfg_poll_seconds = 0,
       cfg_poll_idle_seconds = 300, cfg_max_packet_bytes = 4096, cfg_max_future_seconds = 600,
       cfg_raw_packet_mode = RawAll, cfg_raw_sample_rate = 1, cfg_gps_idempotent = True \<rparr>"

definition sample_frame :: bytes where
  "sample_frame = encode_packet (encode_data False [sample_wire])"

lemma sample_frame_parses:
  "parse_avl_packet sample_frame = Inr \<lparr> pkt_codec = CODEC_8, pkt_records = [decoded False sample_wire] \<rparr>"
  unfolding sample_frame_def encode_packet_def
  by (subst parse_packet_of_data [OF length_encode_data sample_data_length crc16_ibm_fits])
    (simp add: parse_avl_data_encoded sample_wire_ok)

lemma sample_frame_no_login: "\<not> is_login_frame sample_frame"
  by (simp add: sample_frame_def encode_packet_def is_login_frame_def PREAMBLE_def LOGIN_PREFIX_def)

lemma tracker_online_simps:
  "healthy tracker_online" "get_imei_by_socket (reg tracker_online) 7 = Some ''123456789012345''"
  "get_device (reg tracker_online) ''123456789012345'' = Some (new_entry ''10.0.0.7'' ''d1'' 7 TELTONIKA 0 0)"
  "7 \<notin> closing tracker_online" "sent tracker_online 7 = []"
  "clock tracker_online = (\<lambda>_. epoch + 2000000000000000)"
  by (simp_all add: tracker_online_def healthy_def start_world_def register_device_def put_entry_def
      get_device_def get_imei_by_socket_def new_entry_def empty_registry_def)

lemma tracker_clock: "clock_usable sample_config (clock tracker_online)"
  by (simp add: clock_usable_def tracker_online_simps dt_in_range_def sample_config_def epoch_def
      day_count_max_def)

lemma sample_record_due: "must_store sample_config (clock tracker_online) (decoded False sample_wire)"
proof -
  have "int_div (- 546670000) 10000000 = Fin (rnd64 (- 546670000 / 10000000))"
    unfolding int_div_def by (subst to_float_small [of _ 100]) simp_all
  moreover have "rnd64 (- 546670000 / 10000000) \<le> of_int (- 54)" "of_int (- 55) \<le> rnd64 (- 546670000 / 10000000)"
    by (rule rnd64_le_int rnd64_ge_int; simp)+
  moreover have "int_div 252830000 10000000 = Fin (rnd64 (252830000 / 10000000))"
    unfolding int_div_def by (subst to_float_small [of _ 100]) simp_all
  moreover have "rnd64 (252830000 / 10000000) \<le> of_int 26" "of_int 25 \<le> rnd64 (252830000 / 10000000)"
    by (rule rnd64_le_int rnd64_ge_int; simp)+
  moreover have "avl_time 1560161086000 = Inr (epoch + 1560161086000000)"
    using avl_time_exact [of 1560161086000] by simp
  ultimately show ?thesis
    by (simp add: must_store_def has_fix_def avl_position_ok_def location_plausible_def decoded_def
        sample_wire_def f_between_def tracker_online_simps sample_config_def f_of_nat_def)
qed

lemma sample_sent:
  "sent (snd (process_teltonika_frame sample_config sample_frame 7 ''10.0.0.7'' tracker_online)) 7 = [be_bytes 4 1]"
  using teltonika_records_healthy [OF tracker_online_simps(1) tracker_clock tracker_online_simps(4),
      of "\<lparr> pkt_codec = CODEC_8, pkt_records = [decoded False sample_wire] \<rparr>" "''d1''" sample_frame]
    process_data_packet [OF sample_frame_no_login tracker_online_simps(2) _ tracker_online_simps(3) sample_frame_parses,
      of sample_config "''10.0.0.7''"]
  by (simp add: tracker_online_simps new_entry_def)

section \<open>Properties\<close>

text \<open>
  C8. At-least-once delivery: whatever fails while a data packet is handled, when the device reads
  that \<open>n\<close> records were accepted, each of the first \<open>n\<close> records that carries a fix, a possible
  position and a time not in the future is in the history of its device. (The device keeps and
  repeats the others.)
\<close>

theorem acknowledged_records_stored:
  assumes "process_teltonika_frame cfg raw s ip w = (r, w')" and "\<not> is_login_frame raw"
    and "get_imei_by_socket (reg w) s = Some imei" and "imei \<noteq> ''''" and "get_device (reg w) imei = Some e"
    and "parse_avl_packet raw = Inr packet"
    and "sent w' s = sent w s @ [reply]" and "avl_ack n = Inr reply"
    and "k < n" and "must_store cfg (clock w) (pkt_records packet ! k)"
  shows "k < length (pkt_records packet) \<and> is_stored (e_device_id e) (pkt_records packet ! k) (db w')"
proof -
  obtain r1 w1 where t: "teltonika_records cfg (e_device_id e) raw s packet w = (r1, w1)"
    by (cases "teltonika_records cfg (e_device_id e) raw s packet w")
  have "w' = w1" using process_data_packet [OF assms(2-6), of cfg ip] assms(1) t by simp
  with teltonika_records_reply [OF t] assms(7) obtain m w2 w3
    where st: "store_records cfg (e_device_id e) (pkt_records packet) w2 = (Inr m, w3)"
      and ack: "avl_ack m = Inr reply" and c: "clock w2 = clock w" and d: "db w' = db w3"
    by auto
  from ack assms(8) have "m = n" using be_bytes_inj [of m 4 n] by (auto simp: avl_ack_def split: if_splits)
  with store_records_accepted [OF st, of k] assms(9,10) c d show ?thesis by simp
qed

theorem acknowledged_records_stored_witness:
  "is_stored ''d1'' (decoded False sample_wire)
     (db (snd (process_teltonika_frame sample_config sample_frame 7 ''10.0.0.7'' tracker_online)))"
  using acknowledged_records_stored [OF surjective_pairing sample_frame_no_login tracker_online_simps(2) _
      tracker_online_simps(3) sample_frame_parses, of sample_config "''10.0.0.7''" "be_bytes 4 1" 1 0]
    sample_sent sample_record_due
  by (simp add: tracker_online_simps new_entry_def avl_ack_def)

text \<open>
  C32. Nothing is withheld from a device without need: when no call fails and the socket is open, a
  data packet is acknowledged with the number of all its records, and each one with a fix, a
  possible position and a time not in the future is stored.
\<close>

theorem healthy_packet_acknowledged:
  assumes "healthy w" and "clock_usable cfg (clock w)" and "s \<notin> closing w" and "\<not> is_login_frame raw"
    and "get_imei_by_socket (reg w) s = Some imei" and "imei \<noteq> ''''" and "get_device (reg w) imei = Some e"
    and "parse_avl_packet raw = Inr packet" and "length (pkt_records packet) < 2 ^ 32"
    and "process_teltonika_frame cfg raw s ip w = (r, w')"
  shows "sent w' s = sent w s @ [be_bytes 4 (length (pkt_records packet))] \<and>
    (\<forall>q \<in> set (pkt_records packet). must_store cfg (clock w) q \<longrightarrow> is_stored (e_device_id e) q (db w'))"
proof -
  obtain r1 w1 where t: "teltonika_records cfg (e_device_id e) raw s packet w = (r1, w1)"
    by (cases "teltonika_records cfg (e_device_id e) raw s packet w")
  have "w' = w1" using process_data_packet [OF assms(4-8), of cfg ip] assms(10) t by simp
  with teltonika_records_healthy [OF assms(1-3,9), of "e_device_id e" raw] t
  have sent: "sent w' s = sent w s @ [be_bytes 4 (length (pkt_records packet))]" by simp
  with teltonika_records_reply [OF t] \<open>w' = w1\<close> obtain m w2 w3
    where st: "store_records cfg (e_device_id e) (pkt_records packet) w2 = (Inr m, w3)"
      and ack: "avl_ack m = Inr (be_bytes 4 (length (pkt_records packet)))"
      and c: "clock w2 = clock w" and d: "db w' = db w3"
    by auto
  from ack assms(9) have "m = length (pkt_records packet)"
    using be_bytes_inj [of m 4 "length (pkt_records packet)"] by (auto simp: avl_ack_def split: if_splits)
  with store_records_accepted [OF st] c d sent show ?thesis by (auto simp: in_set_conv_nth)
qed

theorem healthy_packet_acknowledged_witness:
  "\<exists>w'. snd (process_teltonika_frame sample_config sample_frame 7 ''10.0.0.7'' tracker_online) = w' \<and>
     sent w' 7 = [be_bytes 4 1] \<and> is_stored ''d1'' (decoded False sample_wire) (db w')"
  using healthy_packet_acknowledged [OF tracker_online_simps(1) tracker_clock tracker_online_simps(4)
      sample_frame_no_login tracker_online_simps(2) _ tracker_online_simps(3) sample_frame_parses _ surjective_pairing]
    sample_record_due
  by (simp add: tracker_online_simps new_entry_def)

end
