(* ===== verification/Command_Builder.thy ===== *)
theory Command_Builder
  imports World Py_Repr Crc Framing V5_Parser
begin

text \<open>
  utils/command_builder.py and utils/gps103_command_builder.py: the frames the gateway sends to a
  device. A GT06 frame carries a serial number that a module-level counter hands out; whatever the
  counter, the text or the lengths do not fit is an exception of the builder.
\<close>

section \<open>GT06 frames\<close>

definition SERVER_FLAG :: bytes where
  "SERVER_FLAG = [0, 0, 0, 1]"

definition LANGUAGE :: bytes where
  "LANGUAGE = [0, 2]"

definition next_serial :: "nat act" where
  "next_serial w = (Inr (command_serial w), w \<lparr> command_serial := command_serial w + 1 \<rparr>)"

text \<open>\<^verbatim>\<open>bytes([n])\<close>: ValueError above 255.\<close>

definition one_byte :: "nat \<Rightarrow> bytes result" where
  "one_byte n = (if n < 256 then Inr [of_nat n] else Inl ValueError)"

definition command_frame :: "nat \<Rightarrow> string \<Rightarrow> bytes result" where
  "command_frame n command =
     bindR (to_bytes_be 2 n) (\<lambda>serial.
     bindR (encode_ascii command) (\<lambda>command_bytes.
     bindR (one_byte (length SERVER_FLAG + length command_bytes)) (\<lambda>command_length.
     (let body = [0x80] @ command_length @ SERVER_FLAG @ command_bytes @ LANGUAGE @ serial
      in bindR (one_byte (length body + 2)) (\<lambda>packet_length.
         bindR (to_bytes_be 2 (crc16_x25 (packet_length @ body))) (\<lambda>crc.
           Inr ([0x78, 0x78] @ packet_length @ body @ crc @ [0x0D, 0x0A])))))))"

definition build_command :: "string \<Rightarrow> bytes act" where
  "build_command command = bindM next_serial (\<lambda>n. liftR (command_frame n command))"

section \<open>Commands without parameters\<close>

definition build_where :: "bytes act" where
  "build_where = build_command ''WHERE#''"

definition build_status :: "bytes act" where
  "build_status = build_command ''STATUS#''"

definition build_version :: "bytes act" where
  "build_version = build_command ''VERSION#''"

definition build_imei :: "bytes act" where
  "build_imei = build_command ''IMEI#''"

definition build_params :: "bytes act" where
  "build_params = build_command ''PARAM#''"

definition build_gprsset :: "bytes act" where
  "build_gprsset = build_command ''GPRSSET#''"

definition build_url :: "bytes act" where
  "build_url = build_command ''URL#''"

definition build_position :: "bytes act" where
  "build_position = build_command ''POSITION#''"

definition build_fence_query :: "bytes act" where
  "build_fence_query = build_command ''FENCE#''"

definition build_moving_query :: "bytes act" where
  "build_moving_query = build_command ''MOVING#''"

definition build_speed_query :: "bytes act" where
  "build_speed_query = build_command ''SPEED#''"

definition build_sos_query :: "bytes act" where
  "build_sos_query = build_command ''SOS#''"

definition build_timer_query :: "bytes act" where
  "build_timer_query = build_command ''TIMER#''"

definition build_apn_query :: "bytes act" where
  "build_apn_query = build_command ''APN#''"

definition build_server_query :: "bytes act" where
  "build_server_query = build_command ''SERVER#''"

definition build_reset :: "bytes act" where
  "build_reset = build_command ''RESET#''"

definition build_relay_on :: "bytes act" where
  "build_relay_on = build_command ''RELAY,0#''"

definition build_relay_off :: "bytes act" where
  "build_relay_off = build_command ''RELAY,1#''"

definition build_sos_delete :: "bytes act" where
  "build_sos_delete = build_command ''SOS,D#''"

section \<open>Commands with parameters\<close>

text \<open>A parameter the code does not convert is any JSON value, formatted by \<^verbatim>\<open>str\<close>.\<close>

definition on_off :: "bool \<Rightarrow> string" where
  "on_off enabled = (if enabled then ''ON'' else ''OFF'')"

definition one_zero :: "bool \<Rightarrow> string" where
  "one_zero b = (if b then ''1'' else ''0'')"

definition comma_join :: "string list \<Rightarrow> string" where
  "comma_join ws = join_with (CHR '','') ws"

definition build_timer :: "int \<Rightarrow> int \<Rightarrow> bytes act" where
  "build_timer t1 t2 = build_command (comma_join [''TIMER'', str_int t1, str_int t2] @ ''#'')"

definition build_distance :: "int \<Rightarrow> bytes act" where
  "build_distance meters = build_command (comma_join [''DISTANCE'', str_int meters] @ ''#'')"

definition build_speed_alarm :: "bool \<Rightarrow> int \<Rightarrow> int \<Rightarrow> bool \<Rightarrow> bytes act" where
  "build_speed_alarm enabled interval limit_kmh sms =
     build_command (comma_join [''SPEED'', on_off enabled, str_int interval, str_int limit_kmh,
                                one_zero sms] @ ''#'')"

definition build_moving_alarm :: "bool \<Rightarrow> int \<Rightarrow> bool \<Rightarrow> bytes act" where
  "build_moving_alarm enabled radius_m sms =
     build_command (comma_join [''MOVING'', on_off enabled, str_int radius_m, one_zero sms] @ ''#'')"

definition build_fence_circle ::
    "bool \<Rightarrow> pyfloat \<Rightarrow> pyfloat \<Rightarrow> int \<Rightarrow> json \<Rightarrow> bool \<Rightarrow> bytes act" where
  "build_fence_circle enabled lat lon radius_100m trigger sms =
     build_command (comma_join [''FENCE'', on_off enabled, ''0'', float_repr lat, float_repr lon,
                                str_int radius_100m, json_str trigger, one_zero sms] @ ''#'')"

text \<open>\<^verbatim>\<open>",".join(filter(None, [phone1, phone2, phone3]))\<close>: a number that is not text is TypeError.\<close>

definition sos_numbers :: "json list \<Rightarrow> string result" where
  "sos_numbers phones =
     (let ps = filter json_bool phones
      in if list_all (\<lambda>p. case p of JStr _ \<Rightarrow> True | _ \<Rightarrow> False) ps
         then Inr (comma_join (map json_str ps)) else Inl TypeError)"

definition build_sos_add :: "json \<Rightarrow> json \<Rightarrow> json \<Rightarrow> bytes act" where
  "build_sos_add phone1 phone2 phone3 =
     bindM (liftR (sos_numbers [phone1, phone2, phone3])) (\<lambda>numbers.
       build_command (comma_join [''SOS'', ''A'', numbers] @ ''#''))"

definition build_apn :: "json \<Rightarrow> json \<Rightarrow> json \<Rightarrow> bytes act" where
  "build_apn apn_name user pwd =
     (if json_bool user \<or> json_bool pwd
      then build_command (comma_join [''APN'', json_str apn_name, json_str user, json_str pwd] @ ''#'')
      else build_command (comma_join [''APN'', json_str apn_name] @ ''#''))"

definition build_server :: "json \<Rightarrow> int \<Rightarrow> bool \<Rightarrow> bool \<Rightarrow> bytes act" where
  "build_server domain_or_ip port use_domain udp =
     build_command (comma_join [''SERVER'', one_zero use_domain, json_str domain_or_ip, str_int port,
                                one_zero udp] @ ''#'')"

definition build_batalm :: "bool \<Rightarrow> bool \<Rightarrow> bytes act" where
  "build_batalm enabled sms =
     build_command (comma_join [''BATALM'', on_off enabled, one_zero sms] @ ''#'')"

definition build_poweralm :: "bool \<Rightarrow> bool \<Rightarrow> bytes act" where
  "build_poweralm enabled sms =
     build_command (comma_join [''POWERALM'', on_off enabled, one_zero sms] @ ''#'')"

section \<open>GPS103 frames\<close>

definition gps103_command_frame :: "string \<Rightarrow> string \<Rightarrow> bytes result" where
  "gps103_command_frame imei code =
     (if \<not> (list_all is_digit_char imei \<and> 10 \<le> length imei \<and> length imei \<le> 17) then Inl ValueError
      else encode_ascii (''**,imei:'' @ imei @ '','' @ code @ '';''))"

definition build_single_position :: "string \<Rightarrow> bytes result" where
  "build_single_position imei = gps103_command_frame imei ''B''"

definition build_engine_resume :: "string \<Rightarrow> bytes result" where
  "build_engine_resume imei = gps103_command_frame imei ''K''"

section \<open>What the frames look like\<close>

lemma one_byte_Inr [simp]: "one_byte n = Inr b \<longleftrightarrow> n < 256 \<and> b = [of_nat n]"
  by (auto simp: one_byte_def)

lemma length_encode_ascii: "encode_ascii s = Inr b \<Longrightarrow> length b = length s"
  by (auto simp: encode_ascii_Inr_iff)

text \<open>A frame is built exactly when the serial fits two bytes, the text is ASCII and fits one frame.\<close>

lemma command_frame_Inr_iff:
  "(\<exists>f. command_frame n command = Inr f) \<longleftrightarrow> n < 65536 \<and> is_ascii command \<and> length command \<le> 243"
proof (cases "is_ascii command")
  case True
  then obtain b where b: "encode_ascii command = Inr b" by (auto simp: encode_ascii_Inr_iff)
  note l = length_encode_ascii [OF b]
  show ?thesis
    using True l
    by (auto simp: command_frame_def b to_bytes_be_def SERVER_FLAG_def LANGUAGE_def Let_def
        one_byte_def bindR_def split: sum.splits)
next
  case False
  then have "encode_ascii command = Inl UnicodeError" by (simp add: encode_ascii_def is_ascii_def)
  with False show ?thesis by (auto simp: command_frame_def bindR_def split: sum.splits)
qed

text \<open>It is a frame the other side's framer accepts whole, and its checksum is right.\<close>

lemma command_frame_shape:
  assumes "command_frame n command = Inr f"
  shows "gt06_frame f \<and> gt06_sealed f \<and> length f = length command + 17"
proof -
  obtain cb where cb: "encode_ascii command = Inr cb"
    using assms by (auto simp: command_frame_def result_simps Let_def)
  let ?body = "[0x80] @ [of_nat (4 + length cb)] @ SERVER_FLAG @ cb @ LANGUAGE @ be_bytes 2 n"
  let ?p = "of_nat (length ?body + 2) :: byte"
  from assms cb have lt: "length ?body + 2 < 256"
    and f: "f = GT06_START @ (?p # ?body) @ be_bytes 2 (crc16_x25 (?p # ?body)) @ GT06_STOP"
    by (auto simp: command_frame_def result_simps Let_def to_bytes_be_def SERVER_FLAG_def LANGUAGE_def
        GT06_START_def GT06_STOP_def split: if_splits)
  have u: "unat ?p = length ?body + 2" using lt by (simp only: unat_of_nat_byte mod_less)
  have "gt06_frame f" by (rule gt06_sealed_frame [OF f _ u]) simp
  moreover have "gt06_sealed f" unfolding gt06_sealed_def by (rule exI, rule f)
  moreover have "length f = length command + 17"
    using length_encode_ascii [OF cb]
    by (simp add: f GT06_START_def GT06_STOP_def SERVER_FLAG_def LANGUAGE_def)
  ultimately show ?thesis by blast
qed

text \<open>The counter never comes back: from serial 65536 on no command can be built.\<close>

lemma serial_exhausted: "65536 \<le> n \<Longrightarrow> command_frame n command = Inl OverflowError"
  by (simp add: command_frame_def)

lemma gps103_frame_Inr:
  "gps103_command_frame imei code = Inr f \<Longrightarrow> is_digits imei \<and> 10 \<le> length imei \<and> length imei \<le> 17 \<and>
   decode_ascii f = Inr (''**,imei:'' @ imei @ '','' @ code @ '';'')"
  by (auto simp: gps103_command_frame_def is_digits_def dest: decode_encode split: if_splits)

section \<open>Properties\<close>

lemma command_frame_fields:
  assumes "command_frame n command = Inr f"
  shows "\<exists>cb. encode_ascii command = Inr cb \<and> slice f 9 (9 + length command) = cb \<and>
    be_val (slice f (length f - 6) (length f - 4)) = n"
proof -
  from assms obtain cb p where cb: "encode_ascii command = Inr cb" and n: "n < 65536"
    and f: "f = [0x78, 0x78, p, 0x80, of_nat (4 + length cb)] @ SERVER_FLAG @ cb @ LANGUAGE @ be_bytes 2 n @
        be_bytes 2 (crc16_x25 (p # [0x80, of_nat (4 + length cb)] @ SERVER_FLAG @ cb @ LANGUAGE @ be_bytes 2 n)) @ [0x0D, 0x0A]"
    by (auto simp: command_frame_def result_simps Let_def to_bytes_be_def SERVER_FLAG_def split: if_splits)
  have l: "length cb = length command" using cb by (rule length_encode_ascii)
  have "slice f 9 (9 + length command) = cb"
    unfolding f by (simp add: slice_def SERVER_FLAG_def l)
  moreover have "slice f (length f - 6) (length f - 4) = be_bytes 2 n"
  proof -
    let ?xs = "[0x78, 0x78, p, 0x80, of_nat (4 + length cb)] @ SERVER_FLAG @ cb @ LANGUAGE"
    obtain zs where "f = ?xs @ be_bytes 2 n @ zs" "length zs = 4" using f by simp
    then show ?thesis by (simp only:) (rule slice_append_mid; simp)
  qed
  moreover have "be_val (be_bytes 2 n) = n" using n by (simp add: be_val_be_bytes)
  ultimately show ?thesis using cb by simp
qed

text \<open>
  C30. A GT06 command frame can be built exactly when the serial number fits two bytes and the text is
  ASCII of at most 243 characters; then it is one complete frame with a correct checksum, the
  framer of the same protocol hands it out whole, and the text and the serial number are where the
  device reads them.
\<close>

theorem command_frame_spec:
  "((\<exists>f. command_frame n command = Inr f) \<longleftrightarrow> n < 65536 \<and> is_ascii command \<and> length command \<le> 243) \<and>
   (\<forall>f. command_frame n command = Inr f \<longrightarrow>
      gt06_sealed f \<and> extract_packets f = ([f], []) \<and>
      encode_ascii command = Inr (slice f 9 (9 + length command)) \<and>
      be_val (slice f (length f - 6) (length f - 4)) = n)"
proof (intro conjI command_frame_Inr_iff allI impI)
  fix f assume f: "command_frame n command = Inr f"
  show "gt06_sealed f" using command_frame_shape [OF f] by blast
  have "gt06_frame f" using command_frame_shape [OF f] by blast
  then show "extract_packets f = ([f], [])" using extract_packets_concat [of "[f]"] by simp
  show "encode_ascii command = Inr (slice f 9 (9 + length command))"
    and "be_val (slice f (length f - 6) (length f - 4)) = n"
    using command_frame_fields [OF f] by auto
qed

theorem command_frame_spec_witness:
  "\<exists>f. command_frame 7 ''RELAY,1#'' = Inr f \<and> gt06_sealed f \<and> extract_packets f = ([f], []) \<and>
     be_val (slice f (length f - 6) (length f - 4)) = 7"
proof -
  have "is_ascii ''RELAY,1#''" by code_simp
  then have "\<exists>f. command_frame 7 ''RELAY,1#'' = Inr f"
    using command_frame_spec [of 7 "''RELAY,1#''"] by simp
  then show ?thesis using command_frame_spec [of 7 "''RELAY,1#''"] by blast
qed

text \<open>
  The serial counter is never reduced to its two bytes: once 65535 commands have been built, every
  further one raises OverflowError, whatever the command, and the counter keeps growing, so no
  later command can succeed either.
\<close>

lemma serials_run_out:
  assumes "65536 \<le> command_serial w"
  shows "build_command c w = (Inl OverflowError, w \<lparr> command_serial := command_serial w + 1 \<rparr>) \<and>
    65536 \<le> command_serial (snd (build_command c w))"
  using assms by (simp add: build_command_def bindM_def next_serial_def serial_exhausted)

end
