(* ===== verification/Command_Service.thy ===== *)
theory Command_Service
  imports World Command_Builder
begin

text \<open>
  services/command_service.py and services/gps103_command_service.py: sending a command to a
  connected device. A GT06 frame goes to a GT06 socket only, GPS103 text to a GPS103 socket only;
  anything else is refused with an exception the caller turns into an answer.
\<close>

section \<open>GT06 devices\<close>

definition reg_socket :: "string \<Rightarrow> sock option act" where
  "reg_socket imei = getsM (\<lambda>w. get_socket (reg w) imei)"

definition protocol_name :: "family \<Rightarrow> string" where
  "protocol_name p = (case p of GT06 \<Rightarrow> ''GT06'' | GPS103 \<Rightarrow> ''GPS103'' | TELTONIKA \<Rightarrow> ''TELTONIKA'')"

definition send_command :: "string \<Rightarrow> bytes \<Rightarrow> unit act" where
  "send_command imei command =
     bindM (reg_socket imei) (\<lambda>conn.
       case conn of
         None \<Rightarrow> raise DeviceOffline
       | Some s \<Rightarrow>
           bindM (reg_device imei) (\<lambda>device.
           (let protocol = (case device of Some e \<Rightarrow> e_protocol e | None \<Rightarrow> GT06)
            in if protocol \<noteq> GT06
               then raise (UnsupportedCommandError
                      (''Commands are not supported yet for '' @ protocol_name protocol @ '' devices''))
               else write_drain s command)))"

text \<open>The frame is built before the device is looked up, so a serial is spent either way.\<close>

definition send_built :: "string \<Rightarrow> bytes act \<Rightarrow> unit act" where
  "send_built imei build = bindM build (\<lambda>command. send_command imei command)"

definition send_where :: "string \<Rightarrow> unit act" where
  "send_where imei = send_built imei build_where"

definition send_status :: "string \<Rightarrow> unit act" where
  "send_status imei = send_built imei build_status"

definition send_version :: "string \<Rightarrow> unit act" where
  "send_version imei = send_built imei build_version"

definition send_imei :: "string \<Rightarrow> unit act" where
  "send_imei imei = send_built imei build_imei"

definition send_params :: "string \<Rightarrow> unit act" where
  "send_params imei = send_built imei build_params"

definition send_gprsset :: "string \<Rightarrow> unit act" where
  "send_gprsset imei = send_built imei build_gprsset"

definition send_url :: "string \<Rightarrow> unit act" where
  "send_url imei = send_built imei build_url"

definition send_position :: "string \<Rightarrow> unit act" where
  "send_position imei = send_built imei build_position"

definition send_fence_query :: "string \<Rightarrow> unit act" where
  "send_fence_query imei = send_built imei build_fence_query"

definition send_moving_query :: "string \<Rightarrow> unit act" where
  "send_moving_query imei = send_built imei build_moving_query"

definition send_speed_query :: "string \<Rightarrow> unit act" where
  "send_speed_query imei = send_built imei build_speed_query"

definition send_sos_query :: "string \<Rightarrow> unit act" where
  "send_sos_query imei = send_built imei build_sos_query"

definition send_timer_query :: "string \<Rightarrow> unit act" where
  "send_timer_query imei = send_built imei build_timer_query"

definition send_apn_query :: "string \<Rightarrow> unit act" where
  "send_apn_query imei = send_built imei build_apn_query"

definition send_server_query :: "string \<Rightarrow> unit act" where
  "send_server_query imei = send_built imei build_server_query"

definition send_reset :: "string \<Rightarrow> unit act" where
  "send_reset imei = send_built imei build_reset"

definition send_relay_on :: "string \<Rightarrow> unit act" where
  "send_relay_on imei = send_built imei build_relay_on"

definition send_relay_off :: "string \<Rightarrow> unit act" where
  "send_relay_off imei = send_built imei build_relay_off"

definition send_sos_delete :: "string \<Rightarrow> unit act" where
  "send_sos_delete imei = send_built imei build_sos_delete"

definition send_timer ::
    "string \<Rightarrow> int \<Rightarrow> int \<Rightarrow> unit act" where
  "send_timer imei t1 t2 = send_built imei (build_timer t1 t2)"

definition send_distance ::
    "string \<Rightarrow> int \<Rightarrow> unit act" where
  "send_distance imei meters = send_built imei (build_distance meters)"

definition send_speed_alarm ::
    "string \<Rightarrow> bool \<Rightarrow> int \<Rightarrow> int \<Rightarrow> bool \<Rightarrow> unit act" where
  "send_speed_alarm imei enabled interval limit_kmh sms = send_built imei (build_speed_alarm enabled interval limit_kmh sms)"

definition send_moving_alarm ::
    "string \<Rightarrow> bool \<Rightarrow> int \<Rightarrow> bool \<Rightarrow> unit act" where
  "send_moving_alarm imei enabled radius_m sms = send_built imei (build_moving_alarm enabled radius_m sms)"

definition send_fence_circle ::
    "string \<Rightarrow> bool \<Rightarrow> pyfloat \<Rightarrow> pyfloat \<Rightarrow> int \<Rightarrow> json \<Rightarrow> bool \<Rightarrow> unit act" where
  "send_fence_circle imei enabled lat lon radius_100m trigger sms = send_built imei (build_fence_circle enabled lat lon radius_100m trigger sms)"

definition send_sos_add ::
    "string \<Rightarrow> json \<Rightarrow> json \<Rightarrow> json \<Rightarrow> unit act" where
  "send_sos_add imei phone1 phone2 phone3 = send_built imei (build_sos_add phone1 phone2 phone3)"

definition send_apn ::
    "string \<Rightarrow> json \<Rightarrow> json \<Rightarrow> json \<Rightarrow> unit act" where
  "send_apn imei apn_name user pwd = send_built imei (build_apn apn_name user pwd)"

definition send_server ::
    "string \<Rightarrow> json \<Rightarrow> int \<Rightarrow> bool \<Rightarrow> bool \<Rightarrow> unit act" where
  "send_server imei domain_or_ip port use_domain udp = send_built imei (build_server domain_or_ip port use_domain udp)"

definition send_batalm ::
    "string \<Rightarrow> bool \<Rightarrow> bool \<Rightarrow> unit act" where
  "send_batalm imei enabled sms = send_built imei (build_batalm enabled sms)"

definition send_poweralm ::
    "string \<Rightarrow> bool \<Rightarrow> bool \<Rightarrow> unit act" where
  "send_poweralm imei enabled sms = send_built imei (build_poweralm enabled sms)"

section \<open>GPS103 devices\<close>

definition GPS103_SUPPORTED :: "(string \<times> (string \<Rightarrow> bytes result)) list" where
  "GPS103_SUPPORTED =
     [(''where'', build_single_position), (''position'', build_single_position),
      (''url'', build_single_position), (''relay_on'', build_engine_resume)]"

definition send_gps103_command :: "string \<Rightarrow> string \<Rightarrow> unit act" where
  "send_gps103_command imei command =
     bindM (reg_socket imei) (\<lambda>conn.
       case conn of
         None \<Rightarrow> raise DeviceOffline
       | Some s \<Rightarrow>
           bindM (reg_device imei) (\<lambda>device.
             if \<not> (case device of Some e \<Rightarrow> e_protocol e = GPS103 | None \<Rightarrow> False)
             then raise (UnsupportedCommandError ''Not a GPS103 device'')
             else (case map_of GPS103_SUPPORTED command of
                     None \<Rightarrow>
                       (if command = ''relay_off''
                        then raise (UnsupportedCommandError
                               ''Engine cut (relay_off) is disabled for GPS103 devices for safety'')
                        else raise (UnsupportedCommandError
                               ([char_of (39 :: nat)] @ command @ [char_of (39 :: nat)] @
                                '' is not available over the data connection for GPS103 (TK103) '' @
                                ''devices; it has to be sent to the device by SMS'')))
                   | Some builder \<Rightarrow>
                       bindM (liftR (builder imei)) (\<lambda>payload. write_drain s payload))))"

section \<open>What sending does\<close>

lemma reg_socket_run [simp]: "reg_socket imei w = (Inr (get_socket (reg w) imei), w)"
  by (simp add: reg_socket_def)

lemma reg_device_run [simp]: "reg_device imei w = (Inr (get_device (reg w) imei), w)"
  by (simp add: reg_device_def)

lemma get_socket_Some: "get_socket r imei = Some s \<longleftrightarrow> (\<exists>e. get_device r imei = Some e \<and> e_socket e = s)"
  by (auto simp: get_socket_def)

text \<open>A command that reports success was written to the socket of a GT06 device.\<close>

lemma send_command_Inr:
  assumes "send_command imei f w = (Inr (), w')"
  shows "\<exists>e. get_device (reg w) imei = Some e \<and> e_protocol e = GT06 \<and>
    write_drain (e_socket e) f w = (Inr (), w')"
  using assms
  by (auto simp: send_command_def bindM_def Let_def get_socket_Some split: option.splits if_splits)

lemma write_drain_Inr:
  "write_drain s f w = (Inr (), w') \<Longrightarrow>
   w' = (if s \<in> closing w then tick w else (tick w) \<lparr> sent := (sent w)(s := sent w s @ [f]) \<rparr>)"
  by (auto simp: write_drain_def external_def push_bytes_def tick_def split: outcome.splits)

text \<open>However a send ends, no other socket than the device's is written to.\<close>

lemma write_drain_other: "t \<noteq> s \<Longrightarrow> sent (snd (write_drain s f w)) t = sent w t"
  by (auto simp: write_drain_def external_def push_bytes_def split: outcome.splits)

lemma send_command_other:
  "get_socket (reg w) imei \<noteq> Some t \<Longrightarrow> sent (snd (send_command imei f w)) t = sent w t"
  by (auto simp: send_command_def bindM_def Let_def raise_def write_drain_other split: option.splits)

lemma send_command_not_gt06:
  assumes "get_device (reg w) imei = Some e" "e_protocol e \<noteq> GT06"
  shows "\<exists>msg. send_command imei f w = (Inl (UnsupportedCommandError msg), w)"
  using assms by (simp add: send_command_def bindM_def Let_def get_socket_def raise_def)

lemma send_gps103_other_family:
  assumes "get_device (reg w) imei = Some e" "e_protocol e \<noteq> GPS103"
  shows "\<exists>msg. send_gps103_command imei c w = (Inl (UnsupportedCommandError msg), w)"
  using assms by (simp add: send_gps103_command_def bindM_def get_socket_def raise_def)

text \<open>The engine of a vehicle with a GPS103 tracker cannot be cut.\<close>

lemma send_gps103_relay_off:
  "send_gps103_command imei ''relay_off'' w =
     (Inl (case get_device (reg w) imei of
             None \<Rightarrow> DeviceOffline
           | Some e \<Rightarrow> UnsupportedCommandError
               (if e_protocol e = GPS103
                then ''Engine cut (relay_off) is disabled for GPS103 devices for safety''
                else ''Not a GPS103 device'')), w)"
  by (simp add: send_gps103_command_def bindM_def get_socket_def raise_def GPS103_SUPPORTED_def
      split: option.split)

text \<open>Only the two implemented codes ever reach a GPS103 socket.\<close>

lemma gps103_supported_frame:
  assumes "map_of GPS103_SUPPORTED c = Some build" and "build imei = Inr f"
  shows "gps103_command_frame imei (if c = ''relay_on'' then ''K'' else ''B'') = Inr f"
  using assms
  by (auto simp: GPS103_SUPPORTED_def build_single_position_def build_engine_resume_def split: if_splits)

lemma send_gps103_Inr:
  assumes "send_gps103_command imei c w = (Inr (), w')"
  shows "\<exists>e f. get_device (reg w) imei = Some e \<and> e_protocol e = GPS103 \<and>
    c \<in> {''where'', ''position'', ''url'', ''relay_on''} \<and>
    gps103_command_frame imei (if c = ''relay_on'' then ''K'' else ''B'') = Inr f \<and>
    write_drain (e_socket e) f w = (Inr (), w')"
proof -
  from assms obtain e build f where e: "get_device (reg w) imei = Some e" "e_protocol e = GPS103"
    and b: "map_of GPS103_SUPPORTED c = Some build" "build imei = Inr f"
    and wd: "write_drain (e_socket e) f w = (Inr (), w')"
    by (auto simp: send_gps103_command_def bindM_def get_socket_Some raise_def
        split: option.splits if_splits sum.splits)
  from b(1) have "c \<in> {''where'', ''position'', ''url'', ''relay_on''}"
    by (auto simp: GPS103_SUPPORTED_def split: if_splits)
  with e wd gps103_supported_frame [OF b] show ?thesis by blast
qed

end
