(* ===== verification/Health_Service.thy ===== *)
theory Health_Service
  imports World Py_Repr
begin

text \<open>
  services/health_service.py: the report behind \<^verbatim>\<open>GET /health\<close>. What the checks observe (the two
  probes on the event loop, the pool's counters, the clocks) is the input; the report, its status
  and the cached database verdict are computed from it as the code does. Durations are exact
  rationals here, where the code has floats.
\<close>

section \<open>Probes\<close>

text \<open>How a coroutine submitted to the main loop ended, as the HTTP thread sees it.\<close>

datatype future = Completed rat | TimedOut | Raised string

type_synonym probe = "bool \<times> rat option \<times> string option"

definition call_on_loop :: "bool \<Rightarrow> future \<Rightarrow> probe" where
  "call_on_loop usable f =
     (if \<not> usable then (False, None, Some ''no_event_loop'')
      else case f of
             Completed ms \<Rightarrow> (True, Some ms, None)
           | TimedOut \<Rightarrow> (False, None, Some ''timeout'')
           | Raised name \<Rightarrow> (False, None, Some name))"

record db_cache =
  dc_ok :: bool
  dc_ms :: "rat option"
  dc_error :: "string option"
  dc_at :: rat

definition DB_CACHE_FAIL_SECONDS :: rat where
  "DB_CACHE_FAIL_SECONDS = 3"

record db_report =
  dr_ok :: bool
  dr_ms :: "rat option"
  dr_error :: "string option"
  dr_age :: rat

definition db_check ::
    "rat \<Rightarrow> rat \<Rightarrow> bool \<Rightarrow> future \<Rightarrow> db_cache option \<Rightarrow> db_report \<times> db_cache option" where
  "db_check ok_seconds now usable f cache =
     (case cache of
        Some c \<Rightarrow>
          (if now - dc_at c < (if dc_ok c then ok_seconds else DB_CACHE_FAIL_SECONDS)
           then (\<lparr> dr_ok = dc_ok c, dr_ms = dc_ms c, dr_error = dc_error c,
                   dr_age = decimal_round 1 (now - dc_at c) \<rparr>, cache)
           else (let (ok, ms, err) = call_on_loop usable f; ms' = map_option (decimal_round 1) ms
                 in (\<lparr> dr_ok = ok, dr_ms = ms', dr_error = err, dr_age = 0 \<rparr>,
                     Some \<lparr> dc_ok = ok, dc_ms = ms', dc_error = err, dc_at = now \<rparr>)))
      | None \<Rightarrow>
          (let (ok, ms, err) = call_on_loop usable f; ms' = map_option (decimal_round 1) ms
           in (\<lparr> dr_ok = ok, dr_ms = ms', dr_error = err, dr_age = 0 \<rparr>,
               Some \<lparr> dc_ok = ok, dc_ms = ms', dc_error = err, dc_at = now \<rparr>)))"

section \<open>The status\<close>

datatype health = OK | DEGRADED | DOWN

fun rank :: "health \<Rightarrow> nat" where
  "rank OK = 0"
| "rank DEGRADED = 1"
| "rank DOWN = 2"

text \<open>The levels in the order of \<^verbatim>\<open>_RANK\<close>.\<close>

instantiation health :: linorder
begin

definition less_eq_health :: "health \<Rightarrow> health \<Rightarrow> bool" where
  "less_eq_health a b \<longleftrightarrow> rank a \<le> rank b"

definition less_health :: "health \<Rightarrow> health \<Rightarrow> bool" where
  "less_health a b \<longleftrightarrow> rank a < rank b"

instance
proof
  fix a b c :: health
  show "(a < b) = (a \<le> b \<and> \<not> b \<le> a)" by (auto simp: less_eq_health_def less_health_def)
  show "a \<le> a" by (simp add: less_eq_health_def)
  show "a \<le> c" if "a \<le> b" "b \<le> c" using that by (simp add: less_eq_health_def)
  show "a = b" if "a \<le> b" "b \<le> a" using that by (cases a; cases b) (simp_all add: less_eq_health_def)
  show "a \<le> b \<or> b \<le> a" by (auto simp: less_eq_health_def)
qed

end

fun health_name :: "health \<Rightarrow> string" where
  "health_name OK = ''ok''"
| "health_name DEGRADED = ''degraded''"
| "health_name DOWN = ''down''"

text \<open>\<^verbatim>\<open>flag(level, reason)\<close>: the reason is added, the status only gets worse.\<close>

definition raise_to :: "health \<Rightarrow> health \<Rightarrow> health" where
  "raise_to state level = (if rank level > rank state then level else state)"

definition status_of :: "(health \<times> string) list \<Rightarrow> health" where
  "status_of flags = foldl raise_to OK (map fst flags)"

record observation =
  ob_loop_usable :: bool
  ob_loop_probe :: future
  ob_db_probe :: future
  ob_pool :: "(nat \<times> nat \<times> nat) option"
  ob_connected :: nat
  ob_last_packet :: "datetime option"
  ob_now :: datetime
  ob_started_at :: datetime
  ob_mono :: rat
  ob_started_mono :: rat

record health_config =
  hc_max_connections :: int
  hc_cache_ok_seconds :: rat
  hc_silence_seconds :: int

definition SLOW_DB_MS :: rat where
  "SLOW_DB_MS = 1500"

definition err_text :: "string option \<Rightarrow> string" where
  "err_text e = (case e of None \<Rightarrow> ''None'' | Some s \<Rightarrow> s)"

definition loop_flags :: "probe \<Rightarrow> (health \<times> string) list" where
  "loop_flags p = (case p of (ok, ms, err) \<Rightarrow>
     if ok then []
     else [(DOWN, ''event loop not responding ('' @ err_text err @
                  '') - device sockets are not being served'')])"

definition db_flags :: "db_report \<Rightarrow> (health \<times> string) list" where
  "db_flags d =
     (if \<not> dr_ok d
      then [(DOWN, ''database unreachable ('' @ err_text (dr_error d) @ '') - location data cannot be saved'')]
      else case dr_ms d of
             Some ms \<Rightarrow> (if ms > SLOW_DB_MS
                        then [(DEGRADED, ''database slow ('' @ str_int (py_trunc ms) @ '' ms for SELECT 1)'')]
                        else [])
           | None \<Rightarrow> [])"

definition pool_flags :: "(nat \<times> nat \<times> nat) option \<Rightarrow> (health \<times> string) list" where
  "pool_flags p =
     (case p of
        Some (sz, idle, mx) \<Rightarrow>
          (if mx \<noteq> 0 \<and> idle = 0 \<and> mx \<le> sz
           then [(DEGRADED, ''database pool exhausted ('' @ str_nat sz @ ''/'' @ str_nat mx @
                            '' connections in use)'')] else [])
      | None \<Rightarrow> [])"

text \<open>\<^verbatim>\<open>connected >= MAX_CONNECTIONS * 0.9\<close>: the product is a float.\<close>

definition near_capacity :: "int \<Rightarrow> nat \<Rightarrow> bool" where
  "near_capacity mx conns \<longleftrightarrow> mx > 0 \<and> of_nat conns \<ge> rnd64 (of_int mx * rnd64 (9 / 10))"

definition capacity_flags :: "int \<Rightarrow> nat \<Rightarrow> (health \<times> string) list" where
  "capacity_flags mx conns =
     (if near_capacity mx conns
      then [(DEGRADED, str_nat conns @ '' devices connected, near the '' @ str_int mx @
                       '' connection limit'')] else [])"

definition silent_for :: "observation \<Rightarrow> rat" where
  "silent_for ob =
     of_int (ob_now ob - (case ob_last_packet ob of Some t \<Rightarrow> t | None \<Rightarrow> ob_started_at ob)) / 1000000"

definition silence_flags :: "int \<Rightarrow> observation \<Rightarrow> (health \<times> string) list" where
  "silence_flags limit ob =
     (if silent_for ob > of_int limit
      then (let minutes = str_int \<lfloor>silent_for ob / 60\<rfloor>
            in [(DEGRADED, (case ob_last_packet ob of
                   Some _ \<Rightarrow> ''no valid packet from any device for '' @ minutes @ '' min''
                 | None \<Rightarrow> ''no valid packet from any device since the gateway started '' @ minutes @ '' min ago''))])
      else [])"

definition health_flags :: "health_config \<Rightarrow> observation \<Rightarrow> probe \<Rightarrow> db_report \<Rightarrow> (health \<times> string) list" where
  "health_flags hc ob p d =
     (if fst p then db_flags d @ pool_flags (ob_pool ob) else loop_flags p) @
     capacity_flags (hc_max_connections hc) (ob_connected ob) @
     silence_flags (hc_silence_seconds hc) ob"

section \<open>The report\<close>

record health_report =
  hr_status :: health
  hr_reasons :: "string list"
  hr_checks :: json
  hr_devices :: nat
  hr_last_packet_age :: "rat option"
  hr_uptime :: int

definition opt_num :: "rat option \<Rightarrow> json" where
  "opt_num v = (case v of None \<Rightarrow> JNull | Some x \<Rightarrow> JFloat (Fin x))"

definition opt_text :: "string option \<Rightarrow> json" where
  "opt_text v = (case v of None \<Rightarrow> JNull | Some s \<Rightarrow> JStr s)"

definition pool_json :: "(nat \<times> nat \<times> nat) option \<Rightarrow> (string \<times> json) list" where
  "pool_json p =
     (case p of
        None \<Rightarrow> []
      | Some (sz, idle, mx) \<Rightarrow>
          [(''pool'', JObj [(''size'', JInt (int sz)), (''idle'', JInt (int idle)), (''max'', JInt (int mx))])])"

definition checks_json :: "probe \<Rightarrow> db_report \<Rightarrow> (nat \<times> nat \<times> nat) option \<Rightarrow> json" where
  "checks_json p d pool =
     (case p of (ok, ms, err) \<Rightarrow>
        JObj [(''event_loop'', JObj [(''ok'', JBool ok), (''ms'', opt_num (map_option (decimal_round 2) ms)),
                                     (''error'', opt_text err)]),
              (''database'',
                 if ok then JObj ([(''ok'', JBool (dr_ok d)), (''ms'', opt_num (dr_ms d)),
                                   (''error'', opt_text (dr_error d)),
                                   (''cached_age_s'', JFloat (Fin (dr_age d)))] @ pool_json pool)
                 else JObj [(''ok'', JNull), (''skipped'', JStr ''event loop not responding'')])])"

text \<open>The database is not touched when the loop does not turn.\<close>

definition get_health ::
    "health_config \<Rightarrow> observation \<Rightarrow> db_cache option \<Rightarrow> health_report \<times> db_cache option" where
  "get_health hc ob cache =
     (let p = call_on_loop (ob_loop_usable ob) (ob_loop_probe ob);
          (d, cache') = (if fst p
             then db_check (hc_cache_ok_seconds hc) (ob_mono ob) (ob_loop_usable ob) (ob_db_probe ob) cache
             else (\<lparr> dr_ok = False, dr_ms = None, dr_error = None, dr_age = 0 \<rparr>, cache));
          flags = health_flags hc ob p d
      in (\<lparr> hr_status = status_of flags, hr_reasons = map snd flags,
            hr_checks = checks_json p d (ob_pool ob),
            hr_devices = ob_connected ob,
            hr_last_packet_age = map_option (\<lambda>t. decimal_round 1 (of_int (ob_now ob - t) / 1000000))
                                   (ob_last_packet ob),
            hr_uptime = \<lfloor>ob_mono ob - ob_started_mono ob\<rfloor> \<rparr>, cache'))"

definition health_json :: "health_report \<Rightarrow> json" where
  "health_json r =
     JObj [(''status'', JStr (health_name (hr_status r))), (''reasons'', JList (map JStr (hr_reasons r))),
           (''checks'', hr_checks r), (''devices_connected'', JInt (int (hr_devices r))),
           (''last_packet_age_s'', opt_num (hr_last_packet_age r)), (''uptime_s'', JInt (hr_uptime r))]"

text \<open>\<^verbatim>\<open>_log_state_change\<close>: the transition to log, if any, and the state logged last.\<close>

definition log_state_change :: "health \<Rightarrow> health option \<Rightarrow> (health option \<times> health) option \<times> health option" where
  "log_state_change state previous =
     (if previous = Some state then (None, previous) else (Some (previous, state), Some state))"

text \<open>\<^verbatim>\<open>_db_ping\<close>: one statement through a pooled connection.\<close>

definition db_ping :: "unit act" where
  "db_ping = managed_connection (bindM (fetch (\<lambda>_. 1 :: nat)) (\<lambda>_. ret ()))"

section \<open>Facts\<close>

text \<open>The probe gives its connection back and changes no table, so polling cannot drain the pool.\<close>

lemma db_ping_keeps: "keeps (pool_is n) db_ping" "keeps (on_db D) db_ping"
  unfolding db_ping_def by (intro pool_intros keeps_managed_db keeps_bindM keeps_fetch_db keeps_ret)+

text \<open>A state that does not change is logged once.\<close>

lemma log_state_change_idem: "fst (log_state_change s (snd (log_state_change s p))) = None"
  by (simp add: log_state_change_def)

text \<open>The status is the worst flag, whatever the order of the flags.\<close>

lemma raise_to_max: "raise_to state level = max state level"
  by (cases state; cases level) (simp_all add: raise_to_def max_def less_eq_health_def)

lemma status_of_Max: "status_of flags = Max (insert OK (fst ` set flags))"
proof -
  have "foldl raise_to a hs = Max (insert a (set hs))" for a hs
  proof (induction hs arbitrary: a)
    case (Cons h hs)
    have "Max (insert (max a h) (set hs)) = Max (insert a (insert h (set hs)))"
      by (cases "hs = []") (simp_all add: max.assoc)
    with Cons show ?case by (simp add: raise_to_max)
  qed simp
  then show ?thesis by (simp add: status_of_def)
qed

lemma health_le_DOWN: "(h :: health) \<le> DOWN" and health_OK_le: "OK \<le> (h :: health)"
  by (cases h; simp add: less_eq_health_def)+

lemma status_down_iff: "status_of flags = DOWN \<longleftrightarrow> DOWN \<in> fst ` set flags"
proof -
  have "Max (insert OK (fst ` set flags)) = DOWN \<longleftrightarrow> DOWN \<in> insert OK (fst ` set flags)"
    by (auto simp del: Max_insert insert_iff simp: Max_eq_iff health_le_DOWN)
  then show ?thesis by (simp add: status_of_Max)
qed

lemma status_ok_iff: "status_of flags = OK \<longleftrightarrow> (\<forall>f \<in> set flags. fst f = OK)"
proof -
  have "Max (insert OK (fst ` set flags)) = OK \<longleftrightarrow> (\<forall>h \<in> fst ` set flags. h \<le> OK)"
    by (subst Max_eq_iff) auto
  also have "\<dots> \<longleftrightarrow> (\<forall>f \<in> set flags. fst f = OK)"
    using health_OK_le order_antisym by auto
  finally show ?thesis by (simp add: status_of_Max)
qed

lemma health_flags_down:
  "DOWN \<in> fst ` set (health_flags hc ob p d) \<longleftrightarrow> \<not> fst p \<or> \<not> dr_ok d"
  by (cases p) (auto simp: health_flags_def loop_flags_def db_flags_def pool_flags_def capacity_flags_def
      silence_flags_def Let_def split: option.splits if_splits prod.splits)

text \<open>A cached verdict is reused only while it is fresh, and a failure expires sooner.\<close>

lemma db_check_fresh:
  "cache = Some c \<Longrightarrow> now - dc_at c < (if dc_ok c then ttl else DB_CACHE_FAIL_SECONDS) \<Longrightarrow>
   db_check ttl now usable f cache =
     (\<lparr> dr_ok = dc_ok c, dr_ms = dc_ms c, dr_error = dc_error c, dr_age = decimal_round 1 (now - dc_at c) \<rparr>, cache)"
  by (simp add: db_check_def)

section \<open>Properties\<close>

text \<open>The verdict on the database that a request sees: the cached one while it is fresh.\<close>

definition db_verdict :: "health_config \<Rightarrow> observation \<Rightarrow> db_cache option \<Rightarrow> bool" where
  "db_verdict hc ob cache =
     (case cache of
        Some c \<Rightarrow>
          (if ob_mono ob - dc_at c < (if dc_ok c then hc_cache_ok_seconds hc else DB_CACHE_FAIL_SECONDS)
           then dc_ok c else ob_loop_usable ob \<and> (\<exists>ms. ob_db_probe ob = Completed ms))
      | None \<Rightarrow> ob_loop_usable ob \<and> (\<exists>ms. ob_db_probe ob = Completed ms))"

lemma call_on_loop_ok: "fst (call_on_loop u f) \<longleftrightarrow> u \<and> (\<exists>ms. f = Completed ms)"
  by (cases f) (auto simp: call_on_loop_def)

lemma db_check_ok:
  "dr_ok (fst (db_check (hc_cache_ok_seconds hc) (ob_mono ob) (ob_loop_usable ob) (ob_db_probe ob) cache)) =
   db_verdict hc ob cache"
  unfolding db_check_def db_verdict_def call_on_loop_ok [symmetric]
  by (auto simp: Let_def split: option.split prod.split)

text \<open>
  C36. The report says "down" exactly when the event loop does not answer or the database verdict in
  force is a failure (the cached one while it is fresh), and "ok" exactly when it gives no reason; the
  cache is replaced only when the loop answers, by a verdict stamped with the time of the request.
\<close>

theorem health_status_exact:
  "(hr_status (fst (get_health hc ob cache)) = DOWN \<longleftrightarrow>
      \<not> (ob_loop_usable ob \<and> (\<exists>ms. ob_loop_probe ob = Completed ms) \<and> db_verdict hc ob cache)) \<and>
   (hr_status (fst (get_health hc ob cache)) = OK \<longleftrightarrow> hr_reasons (fst (get_health hc ob cache)) = []) \<and>
   (snd (get_health hc ob cache) = cache \<or>
      (ob_loop_usable ob \<and> (\<exists>ms. ob_loop_probe ob = Completed ms) \<and>
       map_option dc_at (snd (get_health hc ob cache)) = Some (ob_mono ob)))"
proof -
  let ?p = "call_on_loop (ob_loop_usable ob) (ob_loop_probe ob)"
  let ?c = "db_check (hc_cache_ok_seconds hc) (ob_mono ob) (ob_loop_usable ob) (ob_db_probe ob) cache"
  let ?d = "if fst ?p then fst ?c else \<lparr> dr_ok = False, dr_ms = None, dr_error = None, dr_age = 0 \<rparr>"
  let ?flags = "health_flags hc ob ?p ?d"
  have h: "hr_status (fst (get_health hc ob cache)) = status_of ?flags"
    "hr_reasons (fst (get_health hc ob cache)) = map snd ?flags"
    "snd (get_health hc ob cache) = (if fst ?p then snd ?c else cache)"
    by (simp_all add: get_health_def Let_def split_beta)
  have down: "status_of ?flags = DOWN \<longleftrightarrow> \<not> fst ?p \<or> \<not> db_verdict hc ob cache"
    using db_check_ok [of hc ob cache] by (simp add: status_down_iff health_flags_down)
  have "f \<noteq> OK" if "(f, m) \<in> set ?flags" for f m
    using that
    by (auto simp: health_flags_def loop_flags_def db_flags_def pool_flags_def capacity_flags_def
        silence_flags_def Let_def split: option.splits if_splits prod.splits)
  then have "\<forall>x \<in> set ?flags. fst x \<noteq> OK" by (metis prod.collapse)
  then have ok: "status_of ?flags = OK \<longleftrightarrow> map snd ?flags = []"
    by (cases ?flags) (simp_all add: status_ok_iff)
  have "snd ?c = cache \<or> map_option dc_at (snd ?c) = Some (ob_mono ob)"
    by (auto simp: db_check_def Let_def split: option.splits prod.splits)
  with h down ok show ?thesis by (auto simp: call_on_loop_ok)
qed

end
