(* ===== verification/Command_Api.thy ===== *)
theory Command_Api
  imports Persistence Command_Service Health_Service Handler_Contract
begin

text \<open>
  command_api.py: the HTTP interface. A request is its path, headers and decoded body; the reply is
  a status and a JSON value. An exception that leaves \<^verbatim>\<open>do_GET\<close> or \<^verbatim>\<open>do_POST\<close> is a request without a
  reply (the server closes the connection), and is an exception here.
\<close>

section \<open>Requests\<close>

text \<open>What reading and decoding the body gives: bad UTF-8, bad JSON, or a value.\<close>

datatype body = Undecodable | Malformed | Parsed json

record request =
  rq_path :: string
  rq_key :: "string option"
  rq_length :: "string option"
  rq_body :: body

type_synonym reply = "nat \<times> json"

definition error_body :: "string \<Rightarrow> json" where
  "error_body msg = JObj [(''error'', JStr msg)]"

definition failure_body :: "string \<Rightarrow> json" where
  "failure_body msg = JObj [(''success'', JBool False), (''error'', JStr msg)]"

text \<open>\<^verbatim>\<open>hmac.compare_digest\<close> refuses text that is not ASCII with TypeError.\<close>

definition authorized :: "string \<Rightarrow> request \<Rightarrow> bool result" where
  "authorized api_key rq =
     (let provided = (case rq_key rq of None \<Rightarrow> [] | Some k \<Rightarrow> k)
      in if api_key = [] then Inr False
         else if \<not> is_ascii provided \<or> \<not> is_ascii api_key then Inl TypeError
         else Inr (provided = api_key))"

section \<open>Running a command on the main loop\<close>

text \<open>
  \<^verbatim>\<open>_run_async\<close>: the HTTP thread waits at most five seconds. A time-out says nothing about the
  coroutine: it may not have started, or it may have run to its end.
\<close>

definition run_async :: "'a act \<Rightarrow> 'a act" where
  "run_async m w =
     (case outcomes w (calls w) of
        Succeeds \<Rightarrow> m (tick w)
      | FailsClean \<Rightarrow> (Inl TimeoutError, tick w)
      | FailsApplied \<Rightarrow> (Inl TimeoutError, snd (m (tick w))))"

section \<open>The commands\<close>

definition SIMPLE_COMMANDS :: "(string \<times> (string \<Rightarrow> unit act)) list" where
  "SIMPLE_COMMANDS =
     [(''where'', send_where), (''status'', send_status), (''version'', send_version),
      (''imei'', send_imei), (''params'', send_params), (''gprsset'', send_gprsset),
      (''url'', send_url), (''position'', send_position), (''fence_query'', send_fence_query),
      (''moving_query'', send_moving_query), (''speed_query'', send_speed_query),
      (''sos_query'', send_sos_query), (''timer_query'', send_timer_query),
      (''apn_query'', send_apn_query), (''server_query'', send_server_query),
      (''reset'', send_reset), (''relay_on'', send_relay_on), (''relay_off'', send_relay_off),
      (''sos_delete'', send_sos_delete)]"

definition PARAM_COMMANDS :: "string list" where
  "PARAM_COMMANDS = [''timer'', ''distance'', ''speed_alarm'', ''moving_alarm'', ''fence_circle'',
     ''sos_add'', ''apn'', ''server'', ''batalm'', ''poweralm'']"

definition known_command :: "string \<Rightarrow> bool" where
  "known_command c \<longleftrightarrow> c \<in> set (map fst SIMPLE_COMMANDS) \<or> c \<in> set PARAM_COMMANDS"

text \<open>Converting a parameter; the message of a refused conversion quotes the text.\<close>

definition quoting :: "json \<Rightarrow> 'a result \<Rightarrow> 'a result" where
  "quoting v r =
     (case r of
        Inl ValueError \<Rightarrow> (case v of JStr s \<Rightarrow> Inl (ConversionError (str_repr s)) | _ \<Rightarrow> r)
      | _ \<Rightarrow> r)"

definition int_param :: "json \<Rightarrow> int result" where
  "int_param v = quoting v (json_int v)"

definition float_param :: "json \<Rightarrow> pyfloat result" where
  "float_param v = quoting v (json_float v)"

definition req_int :: "json \<Rightarrow> string \<Rightarrow> int result" where
  "req_int params key = bindR (json_item params key) int_param"

definition req_float :: "json \<Rightarrow> string \<Rightarrow> pyfloat result" where
  "req_float params key = bindR (json_item params key) float_param"

definition opt_bool_param :: "json \<Rightarrow> string \<Rightarrow> bool \<Rightarrow> bool result" where
  "opt_bool_param params key dflt = bindR (json_get params key (JBool dflt)) (\<lambda>v. Inr (json_bool v))"

definition opt_int_param :: "json \<Rightarrow> string \<Rightarrow> int \<Rightarrow> int result" where
  "opt_int_param params key dflt = bindR (json_get params key (JInt dflt)) int_param"

text \<open>The coroutine of a command with parameters, once its arguments are evaluated.\<close>

definition param_command :: "string \<Rightarrow> string \<Rightarrow> json \<Rightarrow> unit act result" where
  "param_command imei command params =
     (if command = ''timer'' then
        bindR (req_int params ''t1'') (\<lambda>t1. bindR (req_int params ''t2'') (\<lambda>t2.
          Inr (send_timer imei t1 t2)))
      else if command = ''distance'' then
        bindR (req_int params ''meters'') (\<lambda>m. Inr (send_distance imei m))
      else if command = ''speed_alarm'' then
        bindR (opt_bool_param params ''enabled'' True) (\<lambda>en.
        bindR (opt_int_param params ''interval'' 20) (\<lambda>iv.
        bindR (opt_int_param params ''limit_kmh'' 100) (\<lambda>lim.
        bindR (opt_bool_param params ''sms'' True) (\<lambda>sms. Inr (send_speed_alarm imei en iv lim sms)))))
      else if command = ''moving_alarm'' then
        bindR (opt_bool_param params ''enabled'' True) (\<lambda>en.
        bindR (opt_int_param params ''radius_m'' 300) (\<lambda>rad.
        bindR (opt_bool_param params ''sms'' True) (\<lambda>sms. Inr (send_moving_alarm imei en rad sms))))
      else if command = ''fence_circle'' then
        bindR (opt_bool_param params ''enabled'' True) (\<lambda>en.
        bindR (req_float params ''lat'') (\<lambda>lat. bindR (req_float params ''lon'') (\<lambda>lon.
        bindR (req_int params ''radius_100m'') (\<lambda>rad.
        bindR (json_get params ''trigger'' (JStr [])) (\<lambda>trig.
        bindR (opt_bool_param params ''sms'' True) (\<lambda>sms.
          Inr (send_fence_circle imei en lat lon rad trig sms)))))))
      else if command = ''sos_add'' then
        bindR (json_get params ''phone1'' (JStr [])) (\<lambda>p1.
        bindR (json_get params ''phone2'' (JStr [])) (\<lambda>p2.
        bindR (json_get params ''phone3'' (JStr [])) (\<lambda>p3. Inr (send_sos_add imei p1 p2 p3))))
      else if command = ''apn'' then
        bindR (json_item params ''apn_name'') (\<lambda>name.
        bindR (json_get params ''user'' (JStr [])) (\<lambda>user.
        bindR (json_get params ''pwd'' (JStr [])) (\<lambda>pwd. Inr (send_apn imei name user pwd))))
      else if command = ''server'' then
        bindR (json_item params ''domain_or_ip'') (\<lambda>dom.
        bindR (req_int params ''port'') (\<lambda>port.
        bindR (opt_bool_param params ''use_domain'' True) (\<lambda>ud.
        bindR (opt_bool_param params ''udp'' False) (\<lambda>udp. Inr (send_server imei dom port ud udp)))))
      else if command = ''batalm'' then
        bindR (opt_bool_param params ''enabled'' True) (\<lambda>en.
        bindR (opt_bool_param params ''sms'' True) (\<lambda>sms. Inr (send_batalm imei en sms)))
      else
        bindR (opt_bool_param params ''enabled'' True) (\<lambda>en.
        bindR (opt_bool_param params ''sms'' True) (\<lambda>sms. Inr (send_poweralm imei en sms))))"

definition device_protocol :: "registry \<Rightarrow> string \<Rightarrow> family option" where
  "device_protocol r imei = map_option e_protocol (get_device r imei)"

definition run_command :: "string \<Rightarrow> string \<Rightarrow> json \<Rightarrow> unit act" where
  "run_command imei command params =
     bindM (getsM (\<lambda>w. device_protocol (reg w) imei)) (\<lambda>protocol.
       if protocol = Some GPS103 then run_async (send_gps103_command imei command)
       else (case map_of SIMPLE_COMMANDS command of
               Some send \<Rightarrow> run_async (send imei)
             | None \<Rightarrow> bindM (liftR (param_command imei command params)) run_async))"

section \<open>The answer to a failed command\<close>

text \<open>
  \<^verbatim>\<open>"offline" in str(ex).lower()\<close> decides between 503 and 500; apart from the exception raised for
  an offline device, only a quoted parameter can bring the word in. The text of the other
  exceptions is left out of the body; the dash of the time-out text is an ASCII one.
\<close>

definition mentions_offline :: "exn \<Rightarrow> bool" where
  "mentions_offline e =
     (case e of DeviceOffline \<Rightarrow> True | ConversionError s \<Rightarrow> contains ''offline'' (lower s) | _ \<Rightarrow> False)"

definition command_failure :: "exn \<Rightarrow> reply" where
  "command_failure e =
     (case e of
        UnsupportedCommandError msg \<Rightarrow> (501, failure_body msg)
      | KeyError key \<Rightarrow> (400, error_body (''Missing required param: '' @ str_repr key))
      | TimeoutError \<Rightarrow> (503, failure_body ''Gateway busy - command timed out'')
      | _ \<Rightarrow> (if mentions_offline e then (503, failure_body ''Device offline'')
             else (500, failure_body [])))"

definition quoted :: "string \<Rightarrow> string" where
  "quoted s = [char_of (39 :: nat)] @ s @ [char_of (39 :: nat)]"

definition command_success :: "string \<Rightarrow> string \<Rightarrow> reply" where
  "command_success imei command =
     (200, JObj [(''success'', JBool True), (''imei'', JStr imei), (''command'', JStr command),
                 (''message'', JStr (''Command '' @ quoted command @ '' sent to device''))])"

section \<open>do_POST\<close>

text \<open>\<^verbatim>\<open>body.get(key, "").strip()\<close>: AttributeError on anything but text.\<close>

definition text_field :: "json \<Rightarrow> string \<Rightarrow> string result" where
  "text_field v key =
     bindR (json_get v key (JStr [])) (\<lambda>x. case x of JStr s \<Rightarrow> Inr (strip s) | _ \<Rightarrow> Inl AttributeError)"

definition unknown_command :: "string \<Rightarrow> reply" where
  "unknown_command command =
     (400, JObj [(''error'', JStr (''Unknown command '' @ quoted command)),
                 (''hint'', JStr ''GET /commands for full list'')])"

definition handle_command :: "json \<Rightarrow> reply act" where
  "handle_command body =
     bindM (liftR (text_field body ''imei'')) (\<lambda>imei.
     bindM (liftR (text_field body ''command'')) (\<lambda>cmd.
     bindM (liftR (json_get body ''params'' (JObj []))) (\<lambda>params.
     (let command = lower cmd
      in if imei = [] then ret (400, error_body ''Missing 'imei' field'')
         else if command = [] then ret (400, error_body ''Missing 'command' field'')
         else if \<not> known_command command then ret (unknown_command command)
         else tryM (thenM (run_command imei command params) (ret (command_success imei command)))
                (\<lambda>e. ret (command_failure e))))))"

definition content_length :: "request \<Rightarrow> int result" where
  "content_length rq = (case rq_length rq of None \<Rightarrow> Inr 0 | Some s \<Rightarrow> py_int 10 s)"

definition do_POST :: "string \<Rightarrow> request \<Rightarrow> reply act" where
  "do_POST api_key rq =
     bindM (liftR (authorized api_key rq)) (\<lambda>ok.
       if \<not> ok then ret (401, error_body ''Unauthorized'')
       else if rq_path rq \<noteq> ''/command'' then ret (404, error_body ''Not found'')
       else bindM (liftR (content_length rq)) (\<lambda>n.
              if n = 0 then ret (400, error_body ''Empty request body'')
              else (case rq_body rq of
                      Undecodable \<Rightarrow> raise UnicodeError
                    | Malformed \<Rightarrow> ret (400, error_body ''Invalid JSON'')
                    | Parsed body \<Rightarrow> handle_command body)))"

section \<open>do_GET\<close>

definition device_json :: "string \<times> entry \<Rightarrow> json" where
  "device_json p = (case p of (imei, e) \<Rightarrow>
     JObj [(''imei'', JStr imei), (''device_id'', JStr (e_device_id e)), (''ip'', JStr (e_ip e)),
           (''protocol'', JStr (protocol_name (e_protocol e))),
           (''connected_at'', JStr (isoformat (e_connected_at e))),
           (''last_seen'', JStr (isoformat (e_last_seen e)))])"

definition devices_json :: "registry \<Rightarrow> json" where
  "devices_json r =
     JObj [(''connected_devices'', JList (map device_json (get_all_devices r))),
           (''count'', JInt (int (length (get_all_devices r))))]"

definition commands_json :: json where
  "commands_json =
     JObj [(''supported_commands'', JList (map JStr (map fst SIMPLE_COMMANDS @ PARAM_COMMANDS)))]"

text \<open>The health report for this request is passed in.\<close>

definition do_GET :: "string \<Rightarrow> health_report \<Rightarrow> request \<Rightarrow> reply act" where
  "do_GET api_key report rq =
     bindM (liftR (authorized api_key rq)) (\<lambda>ok.
       if \<not> ok then ret (401, error_body ''Unauthorized'')
       else if rq_path rq = ''/health''
       then ret (if hr_status report = DOWN then 503 else 200, health_json report)
       else if rq_path rq = ''/devices'' then getsM (\<lambda>w. (200, devices_json (reg w)))
       else if rq_path rq = ''/commands'' then ret (200, commands_json)
       else ret (404, error_body ''Not found''))"

section \<open>Every GT06 command is a built frame\<close>

text \<open>A builder spends a serial and touches nothing else; what it returns is a command frame.\<close>

definition builds :: "bytes act \<Rightarrow> bool" where
  "builds b \<longleftrightarrow> (\<forall>w r w'. b w = (r, w') \<longrightarrow>
     (\<exists>k. w' = w \<lparr> command_serial := k \<rparr>) \<and>
     (\<forall>f. r = Inr f \<longrightarrow> (\<exists>n c. command_frame n c = Inr f)))"

lemma builds_command: "builds (build_command c)"
  unfolding builds_def build_command_def by (auto simp: bindM_def next_serial_def)

lemma builds_lift: "(\<And>x. builds (f x)) \<Longrightarrow> builds (bindM (liftR r) f)"
proof (cases r)
  case (Inl e)
  have "\<exists>k. w = w \<lparr> command_serial := k \<rparr>" for w :: world
    by (rule exI [of _ "command_serial w"]) simp
  with Inl show ?thesis by (auto simp: builds_def bindM_def)
qed (simp add: builds_def bindM_def)

text \<open>\<open>sends imei m\<close>: \<open>m\<close> builds a frame and sends it to \<open>imei\<close>.\<close>

definition sends :: "string \<Rightarrow> unit act \<Rightarrow> bool" where
  "sends imei m \<longleftrightarrow> (\<exists>b. builds b \<and> m = send_built imei b)"

lemma sends_built: "sends imei (send_built imei (build_command c))"
  using builds_command by (auto simp: sends_def)

lemmas simple_send_defs = send_where_def send_status_def send_version_def send_imei_def
  send_params_def send_gprsset_def send_url_def send_position_def send_fence_query_def
  send_moving_query_def send_speed_query_def send_sos_query_def send_timer_query_def
  send_apn_query_def send_server_query_def send_reset_def send_relay_on_def send_relay_off_def
  send_sos_delete_def
lemmas simple_build_defs = build_where_def build_status_def build_version_def build_imei_def
  build_params_def build_gprsset_def build_url_def build_position_def build_fence_query_def
  build_moving_query_def build_speed_query_def build_sos_query_def build_timer_query_def
  build_apn_query_def build_server_query_def build_reset_def build_relay_on_def build_relay_off_def
  build_sos_delete_def
lemmas param_send_defs = send_timer_def send_distance_def send_speed_alarm_def
  send_moving_alarm_def send_fence_circle_def send_sos_add_def send_apn_def send_server_def
  send_batalm_def send_poweralm_def
lemmas param_build_defs = build_timer_def build_distance_def build_speed_alarm_def
  build_moving_alarm_def build_fence_circle_def build_server_def build_batalm_def build_poweralm_def

lemma simple_sends:
  assumes "map_of SIMPLE_COMMANDS c = Some send"
  shows "sends imei (send imei)"
  using assms unfolding SIMPLE_COMMANDS_def
  by (auto simp: simple_send_defs simple_build_defs intro: sends_built split: if_splits)

lemma param_sends_built:
  "sends imei (send_timer imei t1 t2)" "sends imei (send_distance imei m)"
  "sends imei (send_speed_alarm imei en iv kmh sms)" "sends imei (send_moving_alarm imei en rad sms)"
  "sends imei (send_fence_circle imei en lat lon rad trig sms)"
  "sends imei (send_server imei dm port ud udp)" "sends imei (send_batalm imei en sms)"
  "sends imei (send_poweralm imei en sms)"
  unfolding param_send_defs param_build_defs by (rule sends_built)+

lemma param_sends_other: "sends imei (send_sos_add imei p1 p2 p3)" "sends imei (send_apn imei name user pwd)"
  unfolding param_send_defs build_sos_add_def build_apn_def sends_def
  by (auto intro!: builds_lift builds_command)

lemmas sends_intros = param_sends_built param_sends_other

lemma param_sends:
  assumes "param_command imei c params = Inr m"
  shows "sends imei m"
  using assms unfolding param_command_def
  by (auto simp: result_simps intro: sends_intros split: if_splits)

text \<open>An invariant that does not look at the serial is kept by every command.\<close>

definition serial_inv :: "(world \<Rightarrow> bool) \<Rightarrow> bool" where
  "serial_inv I \<longleftrightarrow> (\<forall>w k. I w \<longrightarrow> I (w \<lparr> command_serial := k \<rparr>))"

lemma serial_inv_parts [simp]:
  "serial_inv (on_reg R)" "serial_inv (on_db D)" "serial_inv (pool_is n)" "serial_inv (slots_are k)"
  "serial_inv (oracle_is f)"
  by (simp_all add: serial_inv_def part_defs)

lemma sends_keeps:
  assumes "sends imei m" "net_inv I" "serial_inv I"
  shows "keeps I m"
proof -
  obtain b where b: "builds b" "m = send_built imei b" using assms(1) by (auto simp: sends_def)
  have "keeps I b"
    unfolding keeps_def
  proof (intro allI impI)
    fix w assume "I w"
    moreover obtain k where "snd (b w) = w \<lparr> command_serial := k \<rparr>"
      using b(1) by (cases "b w") (fastforce simp: builds_def)
    ultimately show "I (snd (b w))" using assms(3) by (simp add: serial_inv_def)
  qed
  moreover have "keeps I (send_command imei f)" for f
    unfolding send_command_def reg_socket_def
    by (intro keeps_bindM keeps_getsM keeps_case_option keeps_raise keeps_reg_read keeps_Let keeps_if
        keeps_write_drain assms(2))
  ultimately show ?thesis unfolding b(2) send_built_def by (intro keeps_bindM)
qed

lemma run_async_keeps:
  assumes "net_inv I" "keeps I m"
  shows "keeps I (run_async m)"
proof -
  have "I (tick w)" if "I w" for w using assms(1) that by (simp add: net_inv_def)
  with assms(2) show ?thesis by (auto simp: keeps_def run_async_def split: outcome.split)
qed

lemma send_gps103_keeps: "net_inv I \<Longrightarrow> keeps I (send_gps103_command imei c)"
  unfolding send_gps103_command_def reg_socket_def
  by (intro keeps_bindM keeps_getsM keeps_case_option keeps_raise keeps_reg_read keeps_if
      keeps_write_drain keeps_liftR; assumption?)

lemma run_command_keeps:
  assumes "net_inv I" "serial_inv I"
  shows "keeps I (run_command imei c params)"
proof -
  have g: "keeps I (run_async (send_gps103_command imei c))"
    by (intro run_async_keeps send_gps103_keeps assms(1))
  have s: "keeps I (case map_of SIMPLE_COMMANDS c of Some send \<Rightarrow> run_async (send imei)
             | None \<Rightarrow> bindM (liftR (param_command imei c params)) run_async)"
  proof (cases "map_of SIMPLE_COMMANDS c")
    case None
    have "keeps I (bindM (liftR (param_command imei c params)) run_async)"
      by (rule keeps_liftR_bind) (intro run_async_keeps sends_keeps param_sends assms)
    with None show ?thesis by simp
  next
    case (Some send)
    with run_async_keeps [OF assms(1) sends_keeps [OF simple_sends [OF Some] assms]]
    show ?thesis by simp
  qed
  show ?thesis unfolding run_command_def by (intro keeps_bindM keeps_getsM keeps_if g s)
qed

lemma do_POST_keeps:
  assumes "net_inv I" "serial_inv I"
  shows "keeps I (do_POST key rq)"
proof -
  have "keeps I (handle_command body)" for body
    unfolding handle_command_def
    by (intro keeps_bindM keeps_liftR keeps_Let keeps_if keeps_ret keeps_tryM keeps_thenM
        run_command_keeps assms)
  then have "keeps I (case rq_body rq of Undecodable \<Rightarrow> raise UnicodeError
      | Malformed \<Rightarrow> ret (400, error_body ''Invalid JSON'') | Parsed body \<Rightarrow> handle_command body)"
    by (cases "rq_body rq") (auto intro: keeps_ret keeps_raise)
  then show ?thesis
    unfolding do_POST_def by (intro keeps_bindM keeps_liftR keeps_if keeps_ret)
qed

section \<open>Where the bytes go\<close>

lemma send_built_cases:
  assumes "builds b" and "send_built imei b w = (r, w')"
  shows "\<exists>w1. reg w1 = reg w \<and> sent w1 = sent w \<and> closing w1 = closing w \<and>
    ((\<exists>e. r = Inl e \<and> w' = w1) \<or>
     (\<exists>f n c. command_frame n c = Inr f \<and> send_command imei f w1 = (r, w')))"
proof -
  obtain r1 w1 where b: "b w = (r1, w1)" by (cases "b w")
  with assms(1) have w1: "reg w1 = reg w" "sent w1 = sent w" "closing w1 = closing w"
    and f: "\<And>f. r1 = Inr f \<Longrightarrow> \<exists>n c. command_frame n c = Inr f"
    by (fastforce simp: builds_def)+
  show ?thesis
  proof (cases r1)
    case (Inl e)
    with assms(2) b w1 show ?thesis by (auto simp: send_built_def bindM_def)
  next
    case (Inr g)
    with assms(2) b have "send_command imei g w1 = (r, w')" by (simp add: send_built_def bindM_def)
    with w1 f [OF Inr] show ?thesis by blast
  qed
qed

text \<open>A socket that carries no GT06 device never gets a GT06 frame.\<close>

lemma send_built_foreign:
  assumes "builds b" and "\<And>e. get_device (reg w) imei = Some e \<Longrightarrow> e_socket e = t \<Longrightarrow> e_protocol e \<noteq> GT06"
  shows "sent (snd (send_built imei b w)) t = sent w t"
proof -
  obtain r w' where s: "send_built imei b w = (r, w')" by (cases "send_built imei b w")
  from send_built_cases [OF assms(1) s] obtain w1 where w1: "reg w1 = reg w" "sent w1 = sent w"
    and c: "w' = w1 \<or> (\<exists>f. send_command imei f w1 = (r, w'))" by blast
  have "sent (snd (send_command imei f w1)) t = sent w1 t" for f
  proof (cases "get_socket (reg w1) imei = Some t")
    case True
    then obtain e where "get_device (reg w1) imei = Some e" "e_socket e = t" by (auto simp: get_socket_Some)
    with assms(2) w1 obtain msg where "send_command imei f w1 = (Inl (UnsupportedCommandError msg), w1)"
      using send_command_not_gt06 by metis
    then show ?thesis by simp
  qed (rule send_command_other)
  with c w1 s show ?thesis by (metis snd_conv)
qed

lemma run_async_at: "I (tick w) \<Longrightarrow> I (snd (m (tick w))) \<Longrightarrow> I (snd (run_async m w))"
  by (simp add: run_async_def split: outcome.split)

lemma run_async_Inr: "run_async m w = (Inr x, w') \<Longrightarrow> m (tick w) = (Inr x, w')"
  by (simp add: run_async_def split: outcome.splits)

text \<open>A GPS103 socket is sent GPS103 text or nothing.\<close>

definition gps103_text :: "bytes \<Rightarrow> bool" where
  "gps103_text f \<longleftrightarrow> (\<exists>imei code. code \<in> {''B'', ''K''} \<and> gps103_command_frame imei code = Inr f)"

lemma send_gps103_sent:
  "sent (snd (send_gps103_command imei c w)) t = sent w t \<or>
   (\<exists>f. gps103_text f \<and> sent (snd (send_gps103_command imei c w)) t = sent w t @ [f])"
proof -
  have wd: "sent (snd (write_drain s f w)) t = sent w t \<or> sent (snd (write_drain s f w)) t = sent w t @ [f]" for s f
    by (auto simp: write_drain_def external_def push_bytes_def split: outcome.splits)
  have "gps103_text f" if "map_of GPS103_SUPPORTED c = Some build" "build imei = Inr f" for build f
    using gps103_supported_frame [OF that] by (auto simp: gps103_text_def split: if_splits)
  with wd show ?thesis
    by (auto simp: send_gps103_command_def bindM_def raise_def split: option.split sum.split) metis+
qed

lemma run_command_gps103:
  assumes "\<And>i e. get_device (reg w) i = Some e \<Longrightarrow> e_socket e = t \<Longrightarrow> e_protocol e = GPS103"
  shows "sent (snd (run_command imei c params w)) t = sent w t \<or>
    (\<exists>f. gps103_text f \<and> sent (snd (run_command imei c params w)) t = sent w t @ [f])"
proof -
  let ?I = "\<lambda>v. sent v t = sent w t \<or> (\<exists>f. gps103_text f \<and> sent v t = sent w t @ [f])"
  have gt06: "?I (snd (run_async m w))" if m: "sends imei m" for m
  proof -
    from m obtain b where b: "builds b" "m = send_built imei b" by (auto simp: sends_def)
    have "sent (snd (m (tick w))) t = sent (tick w) t"
      unfolding b(2) by (rule send_built_foreign [OF b(1)]) (use assms in auto)
    then show ?thesis by (intro run_async_at [where I = ?I]) simp_all
  qed
  have gps: "?I (snd (run_async (send_gps103_command imei c) w))"
    using send_gps103_sent [of imei c "tick w" t] by (intro run_async_at [where I = ?I]) simp_all
  show ?thesis
  proof (cases "device_protocol (reg w) imei = Some GPS103")
    case True
    with gps show ?thesis by (simp add: run_command_def bindM_def)
  next
    case False
    show ?thesis
    proof (cases "map_of SIMPLE_COMMANDS c")
      case (Some send)
      with False gt06 [OF simple_sends [OF Some]] show ?thesis by (simp add: run_command_def bindM_def)
    next
      case None
      show ?thesis
      proof (cases "param_command imei c params")
        case (Inr m)
        with False None gt06 [OF param_sends [OF Inr]] show ?thesis by (simp add: run_command_def bindM_def)
      qed (use False None in \<open>simp add: run_command_def bindM_def\<close>)
    qed
  qed
qed

lemma do_POST_at:
  assumes start: "I w" and run: "\<And>i c p. I (snd (run_command i c p w))"
  shows "I (snd (do_POST key rq w))"
proof -
  have answered: "I (snd (tryM (thenM (run_command i c p) (ret a)) (\<lambda>e. ret (b e)) w))" for i c p a b
    unfolding thenM_def by (intro tryM_at [where I = I] bindM_at [where I = I] run keeps_ret)
  have "I (snd (handle_command body w))" for body
    unfolding handle_command_def Let_def
    by (intro bindM_lift_at [where I = I] start) (simp add: start answered)
  with start show ?thesis
    unfolding do_POST_def
    by (intro bindM_lift_at [where I = I])
      (auto intro!: bindM_lift_at [where I = I] split: body.split)
qed

lemma do_POST_gps103:
  assumes "\<And>i e. get_device (reg w) i = Some e \<Longrightarrow> e_socket e = t \<Longrightarrow> e_protocol e = GPS103"
  shows "sent (snd (do_POST key rq w)) t = sent w t \<or>
    (\<exists>f. gps103_text f \<and> sent (snd (do_POST key rq w)) t = sent w t @ [f])"
  by (rule do_POST_at [where I = "\<lambda>v. sent v t = sent w t \<or> (\<exists>f. gps103_text f \<and> sent v t = sent w t @ [f])"])
    (simp, rule run_command_gps103 [OF assms])

section \<open>Properties\<close>

text \<open>
  C33. Without the key the API does nothing: a request with another key or none, and every request
  when no key is configured, changes no part of the gateway, reaches no device, and is answered with
  401 if it is answered at all.
\<close>

theorem unauthorized_is_powerless:
  assumes "key = '''' \<or> rq_key rq \<noteq> Some key"
  shows "snd (do_POST key rq w) = w \<and> snd (do_GET key report rq w) = w \<and>
    (\<forall>reply. fst (do_POST key rq w) = Inr reply \<or> fst (do_GET key report rq w) = Inr reply \<longrightarrow> fst reply = 401)"
proof -
  have "authorized key rq = Inr False \<or> authorized key rq = Inl TypeError"
    using assms by (auto simp: authorized_def Let_def split: option.splits)
  then show ?thesis by (auto simp: do_POST_def do_GET_def bindM_def)
qed

definition sample_request :: request where
  "sample_request = \<lparr> rq_path = ''/command'', rq_key = Some ''guess'', rq_length = Some ''2'', rq_body = Parsed (JObj []) \<rparr>"

theorem unauthorized_is_powerless_witness:
  "snd (do_POST ''secret'' sample_request (start_world empty_database)) = start_world empty_database"
  using unauthorized_is_powerless [of "''secret''" sample_request "start_world empty_database"]
  by (simp add: sample_request_def)

text \<open>
  C13. Whatever is posted to the API, and however the socket or the main loop fail, a socket that
  carries GPS103 devices is sent nothing or one GPS103 text with the position or the resume code:
  never a GT06 frame, never the code that cuts the engine, never two commands.
\<close>

theorem gps103_gets_gps103_text:
  assumes "\<forall>i e. get_device (reg w) i = Some e \<and> e_socket e = t \<longrightarrow> e_protocol e = GPS103"
  shows "sent (snd (do_POST key rq w)) t = sent w t \<or>
    (\<exists>imei code f. code \<in> {''B'', ''K''} \<and> gps103_command_frame imei code = Inr f \<and>
       sent (snd (do_POST key rq w)) t = sent w t @ [f])"
  using do_POST_gps103 [of w t key rq] assms unfolding gps103_text_def by blast

theorem gps103_gets_gps103_text_witness:
  "sent (snd (do_POST ''secret'' sample_request
     ((start_world empty_database) \<lparr> reg := register_device ''123456789012345'' ''1.2.3.4'' ''d'' 7 GPS103 0 0 empty_registry \<rparr>))) 7 = [] \<or>
   (\<exists>imei code f. code \<in> {''B'', ''K''} \<and> gps103_command_frame imei code = Inr f \<and>
     sent (snd (do_POST ''secret'' sample_request
     ((start_world empty_database) \<lparr> reg := register_device ''123456789012345'' ''1.2.3.4'' ''d'' 7 GPS103 0 0 empty_registry \<rparr>))) 7 = [f])"
  using gps103_gets_gps103_text [of "(start_world empty_database) \<lparr> reg := register_device ''123456789012345'' ''1.2.3.4'' ''d'' 7 GPS103 0 0 empty_registry \<rparr>" 7 "''secret''" sample_request]
  by (auto simp: register_device_def put_entry_def get_device_def new_entry_def empty_registry_def split: if_splits)

end
