(* ===== verification/Console.thy ===== *)
theory Console
  imports Command_Service Command_Api Handler_Contract
begin

text \<open>
  console.py: the operator's console of a process with a terminal. A line names one of eight
  commands and an IMEI; an exception is printed and the loop goes on.
\<close>

lemma dropWhile_shorter:
  "t = dropWhile p s \<Longrightarrow> t \<noteq> [] \<Longrightarrow> length (dropWhile (\<lambda>c. \<not> p c) t) < length s"
proof -
  assume t: "t = dropWhile p s" and ne: "t \<noteq> []"
  then have "\<not> p (hd t)" by (metis hd_dropWhile)
  with ne have "dropWhile (\<lambda>c. \<not> p c) t = dropWhile (\<lambda>c. \<not> p c) (tl t)" by (cases t) auto
  also have "length \<dots> \<le> length (tl t)" by (rule length_dropWhile_le)
  also have "\<dots> < length t" using ne by (cases t) auto
  also have "\<dots> \<le> length s" unfolding t by (rule length_dropWhile_le)
  finally show ?thesis .
qed

text \<open>\<^verbatim>\<open>line.split()\<close>: the words between runs of whitespace.\<close>

function split_words :: "string \<Rightarrow> string list" where
  "split_words s =
     (let t = dropWhile is_space_char s
      in if t = [] then []
         else takeWhile (\<lambda>c. \<not> is_space_char c) t # split_words (dropWhile (\<lambda>c. \<not> is_space_char c) t))"
  by pat_completeness auto

termination
  by (relation "measure length") (auto intro: dropWhile_shorter)

declare split_words.simps [simp del]

definition CONSOLE_COMMANDS :: "(string \<times> (string \<Rightarrow> unit act)) list" where
  "CONSOLE_COMMANDS =
     [(''where'', send_where), (''status'', send_status), (''version'', send_version),
      (''params'', send_params), (''imei'', send_imei), (''reset'', send_reset),
      (''relay_on'', send_relay_on), (''relay_off'', send_relay_off)]"

datatype console_outcome = Quit | Ignored | Message string | Sent | Printed exn

definition console_turn :: "string \<Rightarrow> console_outcome act" where
  "console_turn line =
     (let command = strip line
      in if command = [] then ret Ignored
         else if command = ''exit'' then ret Quit
         else (case split_words command of
                 [action, imei] \<Rightarrow>
                   (case map_of CONSOLE_COMMANDS action of
                      Some send \<Rightarrow> tryM (thenM (run_async (send imei)) (ret Sent)) (\<lambda>e. ret (Printed e))
                    | None \<Rightarrow> ret (Message ''Unknown command''))
               | _ \<Rightarrow> ret (Message ''Invalid command'')))"

text \<open>The loop over the lines that are typed.\<close>

fun run_console :: "string list \<Rightarrow> unit act" where
  "run_console [] = ret ()"
| "run_console (line # lines) =
     bindM (console_turn line) (\<lambda>outcome. if outcome = Quit then ret () else run_console lines)"

section \<open>Facts\<close>

lemma console_sends: "map_of CONSOLE_COMMANDS action = Some send \<Longrightarrow> sends imei (send imei)"
proof -
  assume "map_of CONSOLE_COMMANDS action = Some send"
  then have "map_of SIMPLE_COMMANDS action = Some send"
    by (auto simp: CONSOLE_COMMANDS_def SIMPLE_COMMANDS_def split: if_splits)
  then show ?thesis by (rule simple_sends)
qed

text \<open>Whatever is typed, a socket that carries no GT06 device is written nothing.\<close>

lemma console_foreign:
  assumes "\<And>i e. get_device (reg w) i = Some e \<Longrightarrow> e_socket e = t \<Longrightarrow> e_protocol e \<noteq> GT06"
  shows "sent (snd (console_turn line w)) t = sent w t"
proof -
  let ?I = "\<lambda>v. sent v t = sent w t"
  have "?I (snd (run_async (send imei) w))" if send: "map_of CONSOLE_COMMANDS a = Some send" for a send imei
  proof -
    from console_sends [OF send, of imei] obtain b where b: "builds b" "send imei = send_built imei b"
      by (auto simp: sends_def)
    have "sent (snd (send imei (tick w))) t = sent (tick w) t"
      unfolding b(2) by (rule send_built_foreign [OF b(1)]) (use assms in auto)
    then show ?thesis by (intro run_async_at [where I = ?I]) simp_all
  qed
  then have "?I (snd (tryM (thenM (run_async (send imei)) (ret Sent)) (\<lambda>e. ret (Printed e)) w))"
    if "map_of CONSOLE_COMMANDS a = Some send" for a send imei
    using that by (intro tryM_at [where I = ?I]) (auto simp: thenM_def intro!: bindM_at [where I = ?I] keeps_ret)
  then show ?thesis
    by (auto simp: console_turn_def Let_def split: list.split option.split)
qed

lemma console_turn_keeps:
  assumes "net_inv I" "serial_inv I"
  shows "keeps I (console_turn line)"
proof -
  have "keeps I (run_async (send imei))" if "map_of CONSOLE_COMMANDS a = Some send" for a send imei
    using console_sends [OF that] by (intro run_async_keeps sends_keeps [where imei = imei] assms)
  then have "keeps I (case map_of CONSOLE_COMMANDS a of
      Some send \<Rightarrow> tryM (thenM (run_async (send imei)) (ret Sent)) (\<lambda>e. ret (Printed e))
    | None \<Rightarrow> ret (Message m))" for a imei m
    by (cases "map_of CONSOLE_COMMANDS a") (auto intro!: keeps_tryM keeps_thenM keeps_ret)
  then show ?thesis
    unfolding console_turn_def Let_def by (auto intro!: keeps_ret split: list.split)
qed

text \<open>The same for a whole session at the console.\<close>

lemma run_console_foreign:
  assumes "\<And>i e. get_device (reg w) i = Some e \<Longrightarrow> e_socket e = t \<Longrightarrow> e_protocol e \<noteq> GT06"
  shows "sent (snd (run_console lines w)) t = sent w t"
  using assms
proof (induction lines arbitrary: w)
  case (Cons line lines)
  obtain r w1 where t: "console_turn line w = (r, w1)" by (cases "console_turn line w")
  have "sent w1 t = sent w t" using console_foreign [of w t line, OF Cons.prems] t by simp
  moreover have "reg w1 = reg w"
    using keepsD2 [OF console_turn_keeps [of "on_reg (\<lambda>x. x = reg w)"] t] by (simp add: on_reg_def)
  moreover from this Cons.prems have "sent (snd (run_console lines w1)) t = sent w1 t"
    by (intro Cons.IH) simp
  ultimately show ?case using t by (cases r) (auto simp: bindM_def)
qed simp

end
