(* ===== verification/Gps103_Poller.thy ===== *)
theory Gps103_Poller
  imports World Command_Builder Command_Service Config "HOL-Library.Sublist"
begin

text \<open>
  services/gps103_poller.py: the safety net that asks a silent GPS103 tracker for its position. A
  cycle computes the devices that are due and sends each the single-position command; one bad
  socket does not stop the others.
\<close>

section \<open>Who is due\<close>

definition interval_for :: "config \<Rightarrow> entry \<Rightarrow> int" where
  "interval_for cfg e =
     (let moving = (case e_last_speed e of None \<Rightarrow> False | Some v \<Rightarrow> f_positive v)
      in if moving then cfg_poll_seconds cfg else cfg_poll_idle_seconds cfg)"

definition newest_contact :: "entry \<Rightarrow> datetime" where
  "newest_contact e =
     (let since = (case e_last_position_at e of Some t \<Rightarrow> t | None \<Rightarrow> e_connected_at e)
      in case e_last_poll_at e of Some t \<Rightarrow> max since t | None \<Rightarrow> since)"

definition is_due :: "config \<Rightarrow> datetime \<Rightarrow> entry \<Rightarrow> bool" where
  "is_due cfg now e \<longleftrightarrow>
     e_protocol e = GPS103 \<and> now - newest_contact e \<ge> interval_for cfg e * usec"

definition due_devices :: "config \<Rightarrow> datetime \<Rightarrow> registry \<Rightarrow> string list" where
  "due_devices cfg now r = map fst (filter (\<lambda>(i, e). is_due cfg now e) (get_all_devices r))"

section \<open>One cycle\<close>

text \<open>
  A request (the write, its draining, the note of the time) is one action, and so is a cycle; \<open>Tasks\<close>
  lets other coroutines run between the requests of a cycle.
\<close>

definition poll_device :: "string \<Rightarrow> nat act" where
  "poll_device imei =
     bindM (reg_device imei) (\<lambda>device.
       case device of
         None \<Rightarrow> ret 0
       | Some e \<Rightarrow>
           tryM (bindM (liftR (build_single_position imei)) (\<lambda>payload.
                 thenM (write_drain (e_socket e) payload)
                 (bindM now_utc (\<lambda>now. thenM (with_reg (note_poll imei now)) (ret 1)))))
             (\<lambda>_. ret 0))"

fun poll_all :: "string list \<Rightarrow> nat act" where
  "poll_all [] = ret 0"
| "poll_all (imei # imeis) =
     bindM (poll_device imei) (\<lambda>n. bindM (poll_all imeis) (\<lambda>m. ret (n + m)))"

definition poll_once :: "config \<Rightarrow> datetime option \<Rightarrow> nat act" where
  "poll_once cfg moment =
     bindM (case moment of Some t \<Rightarrow> ret t | None \<Rightarrow> now_utc) (\<lambda>now.
     bindM (getsM (\<lambda>w. due_devices cfg now (reg w))) (\<lambda>due. poll_all due))"

text \<open>How long the poller sleeps between two cycles, and one turn of its loop.\<close>

definition poller_tick :: "config \<Rightarrow> int" where
  "poller_tick cfg = max 5 (cfg_poll_seconds cfg div 2)"

definition poller_turn :: "config \<Rightarrow> unit act" where
  "poller_turn cfg = tryM (bindM (poll_once cfg None) (\<lambda>_. ret ())) (\<lambda>_. ret ())"

text \<open>\<^verbatim>\<open>main()\<close> starts the task only when the family is enabled and an interval is set.\<close>

definition poller_on :: "config \<Rightarrow> bool" where
  "poller_on cfg \<longleftrightarrow> GPS103 \<in> cfg_enabled_protocols cfg \<and> cfg_poll_seconds cfg \<noteq> 0"

text \<open>The endless loop, for as many turns as it gets; each sleeps \<open>poller_tick\<close> seconds first.\<close>

fun run_gps103_poller :: "config \<Rightarrow> nat \<Rightarrow> unit act" where
  "run_gps103_poller cfg 0 = ret ()"
| "run_gps103_poller cfg (Suc turns) = thenM (poller_turn cfg) (run_gps103_poller cfg turns)"

section \<open>Facts\<close>

text \<open>No exception ends the loop.\<close>

lemma run_gps103_poller_returns: "\<exists>w'. run_gps103_poller cfg turns w = (Inr (), w')"
proof (induction turns arbitrary: w)
  case (Suc turns)
  have "never_raises (poller_turn cfg)"
    unfolding poller_turn_def by (intro never_raises_tryM never_raises_ret)
  then obtain w1 where "poller_turn cfg w = (Inr (), w1)" by (auto simp: never_raises_def)
  with Suc show ?case by (simp add: thenM_def bindM_def)
qed simp


lemma due_devices_gps103:
  "reg_ok r \<Longrightarrow> imei \<in> set (due_devices cfg now r) \<Longrightarrow>
   \<exists>e. get_device r imei = Some e \<and> is_due cfg now e"
  by (auto simp: due_devices_def get_all_devices_def get_device_def reg_ok_def)

lemma poll_device_never_raises: "never_raises (poll_device imei)"
  unfolding poll_device_def reg_device_def never_raises_def
  by (auto simp: bindM_def tryM_def split: option.split prod.split sum.split)

lemma poll_device_returns: "\<exists>n w'. poll_device imei w = (Inr n, w') \<and> n \<le> 1"
proof -
  obtain n w' where p: "poll_device imei w = (Inr n, w')"
    using poll_device_never_raises by (fastforce simp: never_raises_def)
  then have "n \<le> 1"
    by (auto simp: poll_device_def bindM_eq_Inr_iff tryM_eq_Inr_iff thenM_def split: option.splits)
  with p show ?thesis by blast
qed

lemma poll_all_returns: "\<exists>n w'. poll_all imeis w = (Inr n, w') \<and> n \<le> length imeis"
proof (induction imeis arbitrary: w)
  case (Cons i imeis)
  obtain n w1 where 1: "poll_device i w = (Inr n, w1)" "n \<le> 1" using poll_device_returns by blast
  obtain m w2 where 2: "poll_all imeis w1 = (Inr m, w2)" "m \<le> length imeis" using Cons by blast
  have "poll_all (i # imeis) w = (Inr (n + m), w2)" using 1 2 by (simp add: bindM_def)
  with 1 2 show ?case by force
qed simp

text \<open>A poll writes to the socket of the polled device only.\<close>

lemma poll_device_other:
  "get_socket (reg w) imei \<noteq> Some t \<Longrightarrow> sent (snd (poll_device imei w)) t = sent w t"
proof -
  assume t: "get_socket (reg w) imei \<noteq> Some t"
  show ?thesis
  proof (cases "get_device (reg w) imei")
    case None
    then show ?thesis by (simp add: poll_device_def bindM_def)
  next
    case (Some e)
    with t have ne: "t \<noteq> e_socket e" by (simp add: get_socket_def)
    have k: "keeps (\<lambda>v. sent v t = sent w t) (write_drain (e_socket e) p)" for p
      by (simp add: keeps_def write_drain_other [OF ne])
    have r: "reg_inv (\<lambda>v. sent v t = sent w t)" by (simp add: reg_inv_def)
    have "keeps (\<lambda>v. sent v t = sent w t) now_utc"
      by (rule keeps_oracle) simp
    then have "keeps (\<lambda>v. sent v t = sent w t)
        (tryM (bindM (liftR (build_single_position imei)) (\<lambda>payload.
           thenM (write_drain (e_socket e) payload)
           (bindM now_utc (\<lambda>now. thenM (with_reg (note_poll imei now)) (ret (1 :: nat))))))
         (\<lambda>_. ret 0))"
      by (intro keeps_tryM keeps_bindM keeps_liftR keeps_thenM keeps_ret k keeps_with_reg r)
    from keepsD [OF this, of w] show ?thesis by (simp add: poll_device_def bindM_def Some)
  qed
qed

text \<open>The sockets and families of the registry do not change during a cycle.\<close>

definition same_sessions :: "registry \<Rightarrow> registry \<Rightarrow> bool" where
  "same_sessions r r' \<longleftrightarrow>
     (\<forall>i. map_option (\<lambda>e. (e_socket e, e_protocol e)) (get_device r' i) =
          map_option (\<lambda>e. (e_socket e, e_protocol e)) (get_device r i))"

lemma same_sessions_refl: "same_sessions r r"
  by (simp add: same_sessions_def)

lemma same_sessions_note_poll: "same_sessions r r' \<Longrightarrow> same_sessions r (note_poll i t r')"
  by (auto simp: same_sessions_def note_poll_def get_device_map_entry option.map_comp comp_def)

lemma poll_device_sessions: "keeps (on_reg (same_sessions r)) (poll_device i)"
  unfolding poll_device_def
  by (intro keeps_bindM keeps_reg_read keeps_case_option keeps_ret keeps_tryM keeps_liftR keeps_thenM
      keeps_write_drain net_inv_parts keeps_oracle_part session_inv_parts keeps_with_reg_reg
      same_sessions_note_poll)

lemma same_sessions_socket: "same_sessions r r' \<Longrightarrow> get_socket r' i = get_socket r i"
proof -
  assume "same_sessions r r'"
  then have "map_option fst (map_option (\<lambda>e. (e_socket e, e_protocol e)) (get_device r' i)) =
      map_option fst (map_option (\<lambda>e. (e_socket e, e_protocol e)) (get_device r i))"
    by (simp add: same_sessions_def)
  then show ?thesis by (simp add: get_socket_def option.map_comp comp_def)
qed

lemma poll_all_other:
  assumes "\<forall>i \<in> set imeis. get_socket (reg w) i \<noteq> Some t"
  shows "sent (snd (poll_all imeis w)) t = sent w t"
  using assms
proof (induction imeis arbitrary: w)
  case (Cons i imeis)
  obtain n w1 where 1: "poll_device i w = (Inr n, w1)" using poll_device_returns by blast
  obtain m w2 where 2: "poll_all imeis w1 = (Inr m, w2)" using poll_all_returns by blast
  have "on_reg (same_sessions (reg w)) w" by (simp add: on_reg_def same_sessions_refl)
  from keepsD2 [OF poll_device_sessions 1 this]
  have "get_socket (reg w1) j = get_socket (reg w) j" for j
    by (simp add: on_reg_def same_sessions_socket)
  with Cons 2 have "sent w2 t = sent w1 t" by (metis list.set_intros(2) snd_conv)
  moreover have "sent w1 t = sent w t" using poll_device_other [of w i t] Cons.prems 1 by simp
  ultimately show ?case using 1 2 by (simp add: bindM_def)
qed simp

text \<open>A poll that went out is noted: the device is not due again before its interval is over.\<close>

lemma note_poll_entry:
  "get_device r i = Some e \<Longrightarrow> get_device (note_poll i t r) i = Some (e \<lparr> e_last_poll_at := Some t \<rparr>)"
  by (simp add: note_poll_def get_device_map_entry)

lemma newest_contact_poll: "t \<le> newest_contact (e \<lparr> e_last_poll_at := Some t \<rparr>)"
  by (simp add: newest_contact_def)

lemma poll_device_sent:
  assumes "poll_device i w = (Inr n, w')" and "n \<noteq> 0"
  shows "\<exists>e k. get_device (reg w) i = Some e \<and>
    get_device (reg w') i = Some (e \<lparr> e_last_poll_at := Some (clock w k) \<rparr>)"
proof -
  obtain e where e: "get_device (reg w) i = Some e"
    using assms by (cases "get_device (reg w) i") (auto simp: poll_device_def bindM_def)
  then obtain payload w1 where wd: "write_drain (e_socket e) payload w = (Inr (), w1)"
    and w': "w' = (tick w1) \<lparr> reg := note_poll i (clock w1 (calls w1)) (reg w1) \<rparr>"
    using assms
    by (auto simp: poll_device_def bindM_def tryM_def thenM_def now_utc_def with_reg_def
        split: sum.splits prod.splits)
  have "reg w1 = reg w" "clock w1 = clock w"
    using write_drain_Inr [OF wd] by (auto simp: tick_def split: if_splits)
  then show ?thesis using note_poll_entry [OF e] unfolding w' by (metis world.select_convs(1) world.surjective world.update_convs(1) e)
qed

text \<open>However a poll ends, it leaves the registry alone or notes a time read after it began.\<close>

lemma write_drain_frame:
  "write_drain s f w = (r, w') \<Longrightarrow> reg w' = reg w \<and> clock w' = clock w \<and> calls w' = Suc (calls w)"
  by (auto simp: write_drain_def external_def push_bytes_def tick_def split: outcome.splits if_splits)

lemma poll_device_notes:
  assumes "poll_device i w = (r, w')"
  shows "(reg w' = reg w \<or> (\<exists>k. calls w \<le> k \<and> k < calls w' \<and> reg w' = note_poll i (clock w k) (reg w))) \<and>
    clock w' = clock w \<and> calls w \<le> calls w'"
proof (cases "get_device (reg w) i")
  case None
  with assms show ?thesis by (simp add: poll_device_def bindM_def reg_device_def)
next
  case (Some e)
  show ?thesis
  proof (cases "build_single_position i")
    case (Inl err)
    with Some assms show ?thesis by (simp add: poll_device_def bindM_def reg_device_def tryM_def)
  next
    case (Inr f)
    obtain q w1 where d: "write_drain (e_socket e) f w = (q, w1)" by fastforce
    note frame = write_drain_frame [OF d]
    show ?thesis
    proof (cases q)
      case (Inl err)
      with Some Inr assms d frame show ?thesis
        by (simp add: poll_device_def bindM_def reg_device_def tryM_def thenM_def)
    next
      case sent: (Inr u)
      with Some Inr assms d
      have "w' = (tick w1) \<lparr> reg := note_poll i (clock w1 (calls w1)) (reg w1) \<rparr>"
        by (simp add: poll_device_def bindM_def reg_device_def tryM_def thenM_def now_utc_def with_reg_def)
      with frame show ?thesis by (intro conjI disjI2 exI [of _ "calls w1"]) (simp_all add: tick_def)
    qed
  qed
qed

lemma poll_all_notes:
  assumes "poll_all imeis w = (r, w')"
  shows "(get_device (reg w') j = get_device (reg w) j \<or>
      (\<exists>k e. j \<in> set imeis \<and> calls w \<le> k \<and> k < calls w' \<and> get_device (reg w) j = Some e \<and>
         get_device (reg w') j = Some (e \<lparr> e_last_poll_at := Some (clock w k) \<rparr>))) \<and>
    clock w' = clock w \<and> calls w \<le> calls w'"
  using assms
proof (induction imeis arbitrary: w r)
  case (Cons i imeis)
  obtain n w1 where 1: "poll_device i w = (Inr n, w1)" using poll_device_returns by blast
  obtain m w2 where 2: "poll_all imeis w1 = (Inr m, w2)" using poll_all_returns by blast
  have w2: "w2 = w'" using Cons.prems 1 2 by (simp add: bindM_def)
  note head = poll_device_notes [OF 1] and tail = Cons.IH [OF 2 [unfolded w2]]
  have noted: "get_device (reg w1) j = get_device (reg w) j \<or>
      (\<exists>k e. j = i \<and> calls w \<le> k \<and> k < calls w1 \<and> get_device (reg w) j = Some e \<and>
         get_device (reg w1) j = Some (e \<lparr> e_last_poll_at := Some (clock w k) \<rparr>))"
  proof (cases "reg w1 = reg w")
    case False
    then obtain k where k: "calls w \<le> k" "k < calls w1" and r: "reg w1 = note_poll i (clock w k) (reg w)"
      using head by blast
    have "get_device (reg w1) j = (if j = i then map_option (\<lambda>e. e \<lparr> e_last_poll_at := Some (clock w k) \<rparr>) (get_device (reg w) j)
        else get_device (reg w) j)"
      by (simp add: r note_poll_def get_device_map_entry)
    with k show ?thesis by (cases "get_device (reg w) j") auto
  qed simp
  have c: "clock w1 = clock w" "clock w' = clock w" "calls w \<le> calls w1" "calls w1 \<le> calls w'"
    using head tail by auto
  from noted show ?case
  proof
    assume "get_device (reg w1) j = get_device (reg w) j"
    with tail c show ?thesis by (auto intro: order_trans)
  next
    assume "\<exists>k e. j = i \<and> calls w \<le> k \<and> k < calls w1 \<and> get_device (reg w) j = Some e \<and>
         get_device (reg w1) j = Some (e \<lparr> e_last_poll_at := Some (clock w k) \<rparr>)"
    then obtain k e where k: "j = i" "calls w \<le> k" "k < calls w1" "get_device (reg w) j = Some e"
      "get_device (reg w1) j = Some (e \<lparr> e_last_poll_at := Some (clock w k) \<rparr>)" by blast
    from tail show ?thesis
    proof (elim conjE disjE)
      assume "get_device (reg w') j = get_device (reg w1) j"
      with k c show ?thesis by fastforce
    next
      assume "\<exists>k e. j \<in> set imeis \<and> calls w1 \<le> k \<and> k < calls w' \<and> get_device (reg w1) j = Some e \<and>
          get_device (reg w') j = Some (e \<lparr> e_last_poll_at := Some (clock w1 k) \<rparr>)"
      then obtain k2 where "j \<in> set imeis" "calls w1 \<le> k2" "k2 < calls w'"
        "get_device (reg w') j = Some (e \<lparr> e_last_poll_at := Some (clock w k2) \<rparr>)"
        using k(5) c(1) by auto
      with k(4) c show ?thesis by (intro conjI disjI2 exI [of _ k2] exI [of _ e]) simp_all
    qed
  qed
qed simp

text \<open>When no call fails every device of the list that can be written to is asked.\<close>

definition can_be_asked :: "world \<Rightarrow> string \<Rightarrow> bool" where
  "can_be_asked w i \<longleftrightarrow> (\<exists>e f. get_device (reg w) i = Some e \<and> e_socket e \<notin> closing w \<and> build_single_position i = Inr f)"

lemma poll_device_runs:
  assumes "healthy w" and "get_device (reg w) i = Some e" and "e_socket e \<notin> closing w" and "build_single_position i = Inr f"
  shows "\<exists>w'. poll_device i w = (Inr 1, w') \<and> healthy w' \<and> closing w' = closing w \<and>
    sent w' = (sent w)(e_socket e := sent w (e_socket e) @ [f]) \<and>
    reg w' = note_poll i (clock w (Suc (calls w))) (reg w) \<and> calls w' = Suc (Suc (calls w))"
  using assms
  by (simp add: poll_device_def bindM_def tryM_def thenM_def reg_device_def write_drain_def healthy_external push_bytes_def
      now_utc_def with_reg_def tick_def healthy_def)

lemma poll_all_runs:
  assumes "healthy w" and "\<forall>i \<in> set imeis. can_be_asked w i" and "distinct imeis"
  shows "\<exists>w'. poll_all imeis w = (Inr (length imeis), w') \<and> (\<forall>t. prefix (sent w t) (sent w' t)) \<and>
    (\<forall>i \<in> set imeis. \<exists>e f new k. get_device (reg w) i = Some e \<and> build_single_position i = Inr f \<and>
       sent w' (e_socket e) = sent w (e_socket e) @ new \<and> f \<in> set new \<and> calls w \<le> k \<and> k < calls w' \<and>
       get_device (reg w') i = Some (e \<lparr> e_last_poll_at := Some (clock w k) \<rparr>))"
  using assms
proof (induction imeis arbitrary: w)
  case (Cons i imeis)
  obtain e f where e: "get_device (reg w) i = Some e" "e_socket e \<notin> closing w" "build_single_position i = Inr f"
    using Cons.prems(2) by (auto simp: can_be_asked_def)
  obtain w1 where 1: "poll_device i w = (Inr 1, w1)" and w1: "healthy w1" "closing w1 = closing w"
    "sent w1 = (sent w)(e_socket e := sent w (e_socket e) @ [f])"
    "reg w1 = note_poll i (clock w (Suc (calls w))) (reg w)" "calls w1 = Suc (Suc (calls w))"
    using poll_device_runs [OF Cons.prems(1) e] by blast
  have clock: "clock w1 = clock w" using poll_device_notes [OF 1] by blast
  have same: "get_device (reg w1) j = get_device (reg w) j" if "j \<noteq> i" for j
    using that by (simp add: w1(4) note_poll_def get_device_map_entry)
  have "\<forall>j \<in> set imeis. can_be_asked w1 j"
  proof
    fix j assume j: "j \<in> set imeis"
    then have "j \<noteq> i" using Cons.prems(3) by auto
    with Cons.prems(2) j same w1(2) show "can_be_asked w1 j" by (simp add: can_be_asked_def)
  qed
  then obtain w' where 2: "poll_all imeis w1 = (Inr (length imeis), w')" and grown: "\<forall>t. prefix (sent w1 t) (sent w' t)"
    and tail: "\<forall>j \<in> set imeis. \<exists>e f new k. get_device (reg w1) j = Some e \<and> build_single_position j = Inr f \<and>
       sent w' (e_socket e) = sent w1 (e_socket e) @ new \<and> f \<in> set new \<and> calls w1 \<le> k \<and> k < calls w' \<and>
       get_device (reg w') j = Some (e \<lparr> e_last_poll_at := Some (clock w1 k) \<rparr>)"
    using Cons.IH [OF w1(1)] Cons.prems(3) by auto
  have calls: "calls w1 \<le> calls w'" and head: "get_device (reg w') i = get_device (reg w1) i"
    using poll_all_notes [OF 2, of i] Cons.prems(3) by auto
  have "\<exists>e f new k. get_device (reg w) j = Some e \<and> build_single_position j = Inr f \<and>
       sent w' (e_socket e) = sent w (e_socket e) @ new \<and> f \<in> set new \<and> calls w \<le> k \<and> k < calls w' \<and>
       get_device (reg w') j = Some (e \<lparr> e_last_poll_at := Some (clock w k) \<rparr>)" if "j \<in> set (i # imeis)" for j
  proof (cases "j = i")
    case True
    obtain new where "sent w' (e_socket e) = sent w (e_socket e) @ [f] @ new"
      using grown w1(3) by (metis append.assoc fun_upd_same prefixE)
    then show ?thesis
      using True e head calls w1(4,5) note_poll_entry [OF e(1)]
      by (intro exI [of _ e] exI [of _ f] exI [of _ "[f] @ new"] exI [of _ "Suc (calls w)"]) simp
  next
    case False
    with that tail obtain e2 f2 new k where j: "get_device (reg w1) j = Some e2" "build_single_position j = Inr f2"
       "sent w' (e_socket e2) = sent w1 (e_socket e2) @ new" "f2 \<in> set new" "calls w1 \<le> k" "k < calls w'"
       "get_device (reg w') j = Some (e2 \<lparr> e_last_poll_at := Some (clock w1 k) \<rparr>)" by auto
    then show ?thesis
      using same [OF False] clock w1(3,5)
      by (intro exI [of _ e2] exI [of _ f2] exI [of _ "(if e_socket e2 = e_socket e then [f] else []) @ new"] exI [of _ k]) simp
  qed
  moreover have "prefix (sent w t) (sent w' t)" for t
    using grown w1(3) by (metis fun_upd_apply prefixI prefix_order.trans)
  ultimately show ?case using 1 2 by (simp add: bindM_def)
qed simp

lemma due_devices_distinct: "reg_ok r \<Longrightarrow> distinct (due_devices cfg now r)"
  by (auto simp: due_devices_def get_all_devices_def reg_ok_def intro: distinct_map_filter)

section \<open>Properties\<close>


definition silent_tracker :: world where
  "silent_tracker =
     (start_world empty_database) \<lparr> reg :=
        register_device ''123456789012345'' ''10.0.0.7'' ''d1'' 7 GPS103 0 0 empty_registry \<rparr>"


end
