(* ===== verification/Server.thy ===== *)
theory Server
  imports Framing Gt06_Handler Gps103_Handler Teltonika_Handler Gps103_Poller Command_Api
begin

text \<open>
  tcp_server.py: the connection cap, the pipelines and the life of a connection. A coroutine of
  \<^verbatim>\<open>handle_device\<close> is a state machine whose transitions are what it does between two reads:
  \<open>phase\<close> is where it waits, \<open>conn_turn\<close> what one read makes it do, \<open>cleanup\<close> its \<^verbatim>\<open>finally\<close>
  block. \<open>handle_device\<close> runs one connection on the reads it gets; \<open>gateway_step\<close> interleaves
  any number of connections with the poller, the command API and the other services that write
  the tables.
\<close>

section \<open>The connection cap\<close>

definition try_acquire_slot :: "config \<Rightarrow> bool act" where
  "try_acquire_slot cfg w =
     (if connection_count w \<ge> cfg_max_connections cfg then (Inr False, w)
      else (Inr True, w \<lparr> connection_count := connection_count w + 1 \<rparr>))"

definition release_slot :: "unit act" where
  "release_slot = modifyM (\<lambda>w. w \<lparr> connection_count := connection_count w - 1 \<rparr>)"

section \<open>The pipelines\<close>

fun framer_of :: "config \<Rightarrow> family \<Rightarrow> bytes \<Rightarrow> (bytes list \<times> bytes) result" where
  "framer_of cfg GT06 b = Inr (extract_packets b)"
| "framer_of cfg GPS103 b = extract_messages (cfg_max_unframed_bytes cfg) b"
| "framer_of cfg TELTONIKA b = extract_frames (cfg_max_packet_bytes cfg) b"

fun handler_of :: "family \<Rightarrow> config \<Rightarrow> bytes \<Rightarrow> sock \<Rightarrow> string \<Rightarrow> string option act" where
  "handler_of GT06 = process_packet"
| "handler_of GPS103 = process_gps103_message"
| "handler_of TELTONIKA = process_teltonika_frame"

section \<open>A batch of frames\<close>

definition reg_seen :: "string \<Rightarrow> unit act" where
  "reg_seen imei = bindM now_utc (\<lambda>t. with_reg (update_last_seen imei t))"

definition reg_mark_packet :: "unit act" where
  "reg_mark_packet = bindM now_utc (\<lambda>t. with_reg (mark_packet_received t))"

text \<open>
  One frame: the local variable \<^verbatim>\<open>imei\<close> after it, and whether the handler returned. An empty
  string is as false as None in Python.
\<close>

definition handle_frame ::
    "config \<Rightarrow> family \<Rightarrow> sock \<Rightarrow> string \<Rightarrow> string option \<Rightarrow> bytes \<Rightarrow> (string option \<times> bool) act" where
  "handle_frame cfg fam s ip imei packet =
     tryM (bindM (handler_of fam cfg packet s ip) (\<lambda>packet_imei.
             case packet_imei of
               None \<Rightarrow> ret (imei, True)
             | Some i \<Rightarrow> if i = '''' then ret (imei, True)
                         else thenM (reg_seen i) (thenM reg_mark_packet (ret (Some i, True)))))
       (\<lambda>_. ret (imei, False))"

fun handle_packets ::
    "config \<Rightarrow> family \<Rightarrow> sock \<Rightarrow> string \<Rightarrow> string option \<Rightarrow> bytes list \<Rightarrow> (string option \<times> bool) act" where
  "handle_packets cfg fam s ip imei [] = ret (imei, True)"
| "handle_packets cfg fam s ip imei (packet # packets) =
     bindM (getsM (\<lambda>w. s \<in> closing w)) (\<lambda>closed.
       if closed then ret (imei, True)
       else bindM (handle_frame cfg fam s ip imei packet) (\<lambda>(imei', ok).
              if ok then handle_packets cfg fam s ip imei' packets else ret (imei', False)))"

section \<open>A connection\<close>

text \<open>What \<^verbatim>\<open>wait_for(reader.read(4096), timeout)\<close> gives; \<open>Data []\<close> is the end of the stream.\<close>

datatype read_event = Data bytes | Timeout | ReadError

text \<open>
  Waiting for the first bytes (with what has arrived so far), waiting for more frames, or in the
  \<^verbatim>\<open>finally\<close> block.
\<close>

datatype phase = Probing bytes | Serving family "string option" bytes | Ending "string option"

definition run_batch ::
    "config \<Rightarrow> sock \<Rightarrow> string \<Rightarrow> family \<Rightarrow> string option \<Rightarrow> bytes \<Rightarrow> phase act" where
  "run_batch cfg s ip fam imei buffer =
     (case framer_of cfg fam buffer of
        Inl _ \<Rightarrow> ret (Ending imei)
      | Inr (packets, rest) \<Rightarrow>
          bindM (handle_packets cfg fam s ip imei packets) (\<lambda>(imei', ok).
            ret (if ok then Serving fam imei' rest else Ending imei')))"

definition open_stream :: "config \<Rightarrow> sock \<Rightarrow> string \<Rightarrow> bytes \<Rightarrow> phase act" where
  "open_stream cfg s ip data =
     (case detect_protocol data (cfg_enabled_protocols cfg) of
        None \<Rightarrow> ret (Ending None)
      | Some fam \<Rightarrow> run_batch cfg s ip fam None data)"

fun conn_turn :: "config \<Rightarrow> sock \<Rightarrow> string \<Rightarrow> phase \<Rightarrow> read_event \<Rightarrow> phase act" where
  "conn_turn cfg s ip (Probing data) ev =
     (case ev of
        Data arrived \<Rightarrow>
          if arrived = [] then (if data = [] then ret (Ending None) else open_stream cfg s ip data)
          else if length (data @ arrived) < 5 then ret (Probing (data @ arrived))
          else open_stream cfg s ip (data @ arrived)
      | Timeout \<Rightarrow> if data = [] then ret (Ending None) else open_stream cfg s ip data
      | ReadError \<Rightarrow> ret (Ending None))"
| "conn_turn cfg s ip (Serving fam imei buffer) ev =
     (case ev of
        Data arrived \<Rightarrow> if arrived = [] then ret (Ending imei)
                      else run_batch cfg s ip fam imei (buffer @ arrived)
      | _ \<Rightarrow> ret (Ending imei))"
| "conn_turn cfg s ip (Ending imei) ev = ret (Ending imei)"

text \<open>
  The \<^verbatim>\<open>finally\<close> block. An exception of \<^verbatim>\<open>set_device_offline\<close> leaves it, and with it the
  coroutine, before the socket is closed and the slot released.
\<close>

definition wait_closed :: "unit act" where
  "wait_closed = external SocketError (\<lambda>w. ((), w))"

definition cleanup_imei :: "sock \<Rightarrow> string option \<Rightarrow> world \<Rightarrow> string option" where
  "cleanup_imei s imei w =
     (case imei of
        None \<Rightarrow> get_imei_by_socket (reg w) s
      | Some i \<Rightarrow> if i = '''' then get_imei_by_socket (reg w) s else Some i)"

definition teardown :: "sock \<Rightarrow> string option \<Rightarrow> unit act" where
  "teardown s target =
     (case target of
        None \<Rightarrow> ret ()
      | Some i \<Rightarrow> if i = '''' then ret ()
          else bindM (reg_device i) (\<lambda>device.
            case device of
              None \<Rightarrow> ret ()
            | Some e \<Rightarrow> if e_socket e = s
                then thenM (set_device_offline (e_device_id e)) (with_reg (unregister_device i))
                else ret ()))"

definition cleanup :: "sock \<Rightarrow> string option \<Rightarrow> unit act" where
  "cleanup s imei =
     bindM (getsM (cleanup_imei s imei)) (\<lambda>c.
     thenM (teardown s c)
     (thenM (close_socket s)
     (thenM (tryM wait_closed (\<lambda>_. ret ()))
     release_slot)))"

text \<open>Once the reads of the list are used up the stream has ended.\<close>

fun run_connection :: "config \<Rightarrow> sock \<Rightarrow> string \<Rightarrow> phase \<Rightarrow> read_event list \<Rightarrow> string option act" where
  "run_connection cfg s ip (Ending imei) evs = ret imei"
| "run_connection cfg s ip ph [] =
     bindM (conn_turn cfg s ip ph (Data [])) (\<lambda>ph'.
       case ph' of
         Ending imei \<Rightarrow> ret imei
       | _ \<Rightarrow> bindM (conn_turn cfg s ip ph' (Data [])) (\<lambda>ph''.
           ret (case ph'' of Ending imei \<Rightarrow> imei | _ \<Rightarrow> None)))"
| "run_connection cfg s ip ph (ev # evs) =
     bindM (conn_turn cfg s ip ph ev) (\<lambda>ph'. run_connection cfg s ip ph' evs)"

definition handle_device :: "config \<Rightarrow> sock \<Rightarrow> string \<Rightarrow> read_event list \<Rightarrow> unit act" where
  "handle_device cfg s ip evs =
     bindM (try_acquire_slot cfg) (\<lambda>acquired.
       if \<not> acquired then close_socket s
       else bindM (run_connection cfg s ip (Probing []) evs) (cleanup s))"

section \<open>The gateway\<close>

text \<open>
  asyncio makes a new \<^verbatim>\<open>StreamWriter\<close> for every connection: nothing was written to it, it is open,
  and the registry, whose entries keep their writers alive, does not hold it.
\<close>

definition fresh_socket :: "sock \<Rightarrow> world \<Rightarrow> bool" where
  "fresh_socket s w \<longleftrightarrow> sent w s = [] \<and> s \<notin> closing w \<and> by_socket (reg w) s = None \<and>
     list_all (\<lambda>(i, e). e_socket e \<noteq> s) (by_imei (reg w))"

text \<open>The world and the connections that hold a slot.\<close>

record gateway =
  g_world :: world
  g_conns :: "sock \<rightharpoonup> phase"

inductive gateway_step :: "config \<Rightarrow> gateway \<Rightarrow> gateway \<Rightarrow> bool" for cfg where
  accept: "s \<notin> dom conns \<Longrightarrow> fresh_socket s w \<Longrightarrow> try_acquire_slot cfg w = (Inr True, w') \<Longrightarrow>
     gateway_step cfg \<lparr> g_world = w, g_conns = conns \<rparr>
       \<lparr> g_world = w', g_conns = conns(s \<mapsto> Probing []) \<rparr>"
| refuse: "s \<notin> dom conns \<Longrightarrow> fresh_socket s w \<Longrightarrow> try_acquire_slot cfg w = (Inr False, w') \<Longrightarrow>
     gateway_step cfg \<lparr> g_world = w, g_conns = conns \<rparr>
       \<lparr> g_world = snd (close_socket s w'), g_conns = conns \<rparr>"
| read: "conns s = Some ph \<Longrightarrow> conn_turn cfg s ip ph ev w = (Inr ph', w') \<Longrightarrow>
     gateway_step cfg \<lparr> g_world = w, g_conns = conns \<rparr>
       \<lparr> g_world = w', g_conns = conns(s \<mapsto> ph') \<rparr>"
| finish: "conns s = Some (Ending imei) \<Longrightarrow> cleanup s imei w = (r, w') \<Longrightarrow>
     gateway_step cfg \<lparr> g_world = w, g_conns = conns \<rparr>
       \<lparr> g_world = w', g_conns = conns(s := None) \<rparr>"
| poll: "poller_on cfg \<Longrightarrow> poller_turn cfg w = (r, w') \<Longrightarrow>
     gateway_step cfg \<lparr> g_world = w, g_conns = conns \<rparr> \<lparr> g_world = w', g_conns = conns \<rparr>"
| command: "do_POST api_key rq w = (reply, w') \<Longrightarrow>
     gateway_step cfg \<lparr> g_world = w, g_conns = conns \<rparr> \<lparr> g_world = w', g_conns = conns \<rparr>"
| backend: "db_ok d \<Longrightarrow>
     gateway_step cfg \<lparr> g_world = w, g_conns = conns \<rparr> \<lparr> g_world = w \<lparr> db := d \<rparr>, g_conns = conns \<rparr>"

inductive gateway_reachable :: "config \<Rightarrow> gateway \<Rightarrow> bool" for cfg where
  start: "reg w = empty_registry \<Longrightarrow> db_ok (db w) \<Longrightarrow> pool_in_use w = 0 \<Longrightarrow>
     connection_count w = 0 \<Longrightarrow> sent w = (\<lambda>_. []) \<Longrightarrow> gateway_reachable cfg \<lparr> g_world = w, g_conns = Map.empty \<rparr>"
| step: "gateway_reachable cfg g \<Longrightarrow> gateway_step cfg g g' \<Longrightarrow> gateway_reachable cfg g'"

inductive_cases gateway_stepE: "gateway_step cfg g g'"


section \<open>What a handler of any family keeps\<close>

lemma handler_registry: "keeps (on_reg reg_ok) (handler_of fam cfg raw s ip)"
  by (cases fam) (simp_all add: gt06_handler.registry gps103_handler.registry teltonika_handler.registry)

lemma handler_tables: "keeps (on_db db_ok) (handler_of fam cfg raw s ip)"
  by (cases fam) (simp_all add: gt06_handler.tables gps103_handler.tables teltonika_handler.tables)

lemma handler_pool: "keeps (pool_is n) (handler_of fam cfg raw s ip)"
  by (cases fam) (simp_all add: gt06_handler.pool gps103_handler.pool teltonika_handler.pool)

lemma handler_own_socket: "keeps (only_socket s S) (handler_of fam cfg raw s ip)"
  by (cases fam) (simp_all add: gt06_handler.own_socket gps103_handler.own_socket teltonika_handler.own_socket)

text \<open>A frame authenticates no socket but its own.\<close>

lemma handler_auth:
  assumes "\<And>i. A s i"
  shows "keeps (on_reg (auth_within A)) (handler_of fam cfg raw s ip)"
proof (unfold keeps_def, intro allI impI)
  fix w assume "on_reg (auth_within A) w"
  moreover obtain c where "auth_within (may_auth w s c) (reg (snd (handler_of fam cfg raw s ip w)))"
    by (cases fam) (simp_all, metis gt06_handler.auth, metis gps103_handler.auth, metis teltonika_handler.auth)
  ultimately show "on_reg (auth_within A) (snd (handler_of fam cfg raw s ip w))"
    using assms unfolding on_reg_def auth_within_def may_auth_def by blast
qed

text \<open>An invariant of the parts of the world no frame, command or poll touches.\<close>

definition outside_inv :: "(world \<Rightarrow> bool) \<Rightarrow> bool" where
  "outside_inv I \<longleftrightarrow> session_inv I \<and> net_inv I \<and> reg_inv I \<and> cache_inv I \<and> serial_inv I"

lemma outside_invD:
  assumes "outside_inv I"
  shows "session_inv I" "net_inv I" "reg_inv I" "cache_inv I" "serial_inv I"
  using assms by (simp_all add: outside_inv_def)

lemma outside_inv_parts: "outside_inv (slots_are k)" "outside_inv (oracle_is f)"
  by (simp_all add: outside_inv_def)

lemma handler_outside:
  assumes "outside_inv I"
  shows "keeps I (handler_of fam cfg raw s ip)"
proof (cases fam)
  case GT06
  then show ?thesis
    by (simp, intro process_packet_keeps gt06_branch_keeps keeps_close keeps_write_drain
        keeps_reg_register outside_invD [OF assms])
next
  case GPS103
  then show ?thesis
    by (simp, intro process_gps103_keeps gps103_branch_keeps keeps_close keeps_write_drain
        keeps_reg_register keeps_with_reg outside_invD [OF assms])
next
  case TELTONIKA
  then show ?thesis
    by (simp, intro process_teltonika_keeps avl_session_keeps accept_session_keeps keeps_close
        keeps_write_drain keeps_reg_register outside_invD [OF assms])
qed

section \<open>What a turn of a connection keeps\<close>

lemma handle_frame_returns: "\<exists>x w'. handle_frame cfg fam s ip imei p w = (Inr x, w')"
  unfolding handle_frame_def by (rule tryM_ret_returns)

lemma handle_packets_returns: "\<exists>x w'. handle_packets cfg fam s ip imei ps w = (Inr x, w')"
proof (induction ps arbitrary: imei w)
  case (Cons p ps)
  obtain i ok w1 where f: "handle_frame cfg fam s ip imei p w = (Inr (i, ok), w1)"
    using handle_frame_returns by (metis surj_pair)
  obtain x w2 where g: "handle_packets cfg fam s ip i ps w1 = (Inr x, w2)" using Cons by blast
  show ?case by (cases ok; cases "s \<in> closing w") (auto simp: bindM_def f g)
qed auto

lemma run_batch_returns: "\<exists>ph w'. run_batch cfg s ip fam imei b w = (Inr ph, w')"
proof (cases "framer_of cfg fam b")
  case (Inr x)
  obtain ps rest where x: "x = (ps, rest)" by (cases x)
  obtain i ok w' where "handle_packets cfg fam s ip imei ps w = (Inr (i, ok), w')"
    using handle_packets_returns by (metis surj_pair)
  then show ?thesis by (simp add: run_batch_def Inr x bindM_def)
qed (simp add: run_batch_def)

lemma open_stream_returns: "\<exists>ph w'. open_stream cfg s ip b w = (Inr ph, w')"
  by (cases "detect_protocol b (cfg_enabled_protocols cfg)")
    (simp_all add: open_stream_def run_batch_returns)

lemma conn_turn_returns: "\<exists>ph' w'. conn_turn cfg s ip ph ev w = (Inr ph', w')"
  by (cases ph; cases ev) (simp_all add: open_stream_returns run_batch_returns)

lemma run_batch_keeps:
  assumes "\<And>raw. keeps I (handler_of fam cfg raw s ip)" "\<And>i. keeps I (reg_seen i)" "keeps I reg_mark_packet"
  shows "keeps I (run_batch cfg s ip fam imei b)"
proof -
  have frame: "keeps I (handle_frame cfg fam s ip i p)" for i p
    unfolding handle_frame_def
    by (intro keeps_tryM keeps_bindM keeps_case_option keeps_if keeps_thenM keeps_ret assms)
  have "keeps I (handle_packets cfg fam s ip i ps)" for i ps
  proof (induction ps arbitrary: i)
    case Nil
    show ?case unfolding handle_packets.simps by (rule keeps_ret)
  next
    case (Cons p ps)
    show ?case
      unfolding handle_packets.simps
      by (intro keeps_bindM keeps_getsM keeps_if keeps_ret keeps_case_prod frame Cons)
  qed
  then show ?thesis
    unfolding run_batch_def by (intro keeps_case_sum keeps_case_prod keeps_bindM keeps_ret)
qed

lemma conn_turn_keeps:
  assumes "\<And>fam raw. keeps I (handler_of fam cfg raw s ip)" "\<And>i. keeps I (reg_seen i)" "keeps I reg_mark_packet"
  shows "keeps I (conn_turn cfg s ip ph ev)"
  by (cases ph; cases ev)
    (simp_all add: open_stream_def keeps_ret keeps_if keeps_case_option run_batch_keeps assms)

lemma seen_keeps:
  "(\<And>i t r. R r \<Longrightarrow> R (update_last_seen i t r)) \<Longrightarrow> keeps (on_reg R) (reg_seen i)"
  "(\<And>t r. R r \<Longrightarrow> R (mark_packet_received t r)) \<Longrightarrow> keeps (on_reg R) reg_mark_packet"
  unfolding reg_seen_def reg_mark_packet_def
  by (intro keeps_bindM keeps_oracle_part session_inv_parts keeps_with_reg_reg; simp)+

lemma seen_outside:
  assumes "reg_inv I"
  shows "keeps I (reg_seen i)" "keeps I reg_mark_packet"
proof -
  have "keeps I now_utc" using assms by (intro keeps_oracle) (simp add: reg_inv_def)
  from this assms show "keeps I (reg_seen i)" and "keeps I reg_mark_packet"
    unfolding reg_seen_def reg_mark_packet_def by (auto intro!: keeps_bindM keeps_with_reg)
qed

lemma conn_turn_registry: "keeps (on_reg reg_ok) (conn_turn cfg s ip ph ev)"
  by (intro conn_turn_keeps handler_registry seen_keeps reg_ok_update_last_seen reg_ok_mark_packet)

lemma conn_turn_tables: "keeps (on_db db_ok) (conn_turn cfg s ip ph ev)"
  by (intro conn_turn_keeps handler_tables seen_outside reg_inv_parts)

lemma conn_turn_pool: "keeps (pool_is n) (conn_turn cfg s ip ph ev)"
  by (intro conn_turn_keeps handler_pool seen_outside reg_inv_parts)

lemma conn_turn_own_socket: "keeps (only_socket s S) (conn_turn cfg s ip ph ev)"
  by (intro conn_turn_keeps handler_own_socket seen_outside reg_inv_only_socket)

lemma conn_turn_outside: "outside_inv I \<Longrightarrow> keeps I (conn_turn cfg s ip ph ev)"
  by (intro conn_turn_keeps handler_outside seen_outside outside_invD)

lemma auth_within_seen:
  "auth_within A r \<Longrightarrow> auth_within A (update_last_seen i t r)"
  "auth_within A r \<Longrightarrow> auth_within A (mark_packet_received t r)"
  by (simp_all add: auth_within_def update_last_seen_def mark_packet_received_def get_imei_by_socket_def)

lemma conn_turn_auth: "(\<And>i. A s i) \<Longrightarrow> keeps (on_reg (auth_within A)) (conn_turn cfg s ip ph ev)"
  by (intro conn_turn_keeps handler_auth seen_keeps auth_within_seen)

section \<open>Closing a connection\<close>

lemma offline_keeps: "session_inv I \<Longrightarrow> keeps I (set_device_offline d)" "keeps (on_db db_ok) (set_device_offline d)"
  "keeps (pool_is n) (set_device_offline d)"
  by (auto intro: keeps_tables status_db_ok pool_tables)

lemma offline_healthy: "healthy w \<Longrightarrow> \<exists>w'. set_device_offline d w = (Inr (), w')"
  by (simp add: set_device_offline_def now_utc_def bindM_def execute_def statement_def managed_connection_def
      thenM_def finallyM_def healthy_acquire release_def healthy_external healthy_def external_def acquire_def)

text \<open>Everything of the \<^verbatim>\<open>finally\<close> block before the slot is released.\<close>

definition closing_part :: "sock \<Rightarrow> string option \<Rightarrow> unit act" where
  "closing_part s imei =
     bindM (getsM (cleanup_imei s imei)) (\<lambda>c.
     thenM (teardown s c)
     (thenM (close_socket s) (tryM wait_closed (\<lambda>_. ret ()))))"

lemma cleanup_split: "cleanup s imei = thenM (closing_part s imei) release_slot"
  unfolding cleanup_def closing_part_def thenM_def bindM_def
  by (rule ext) (auto split: prod.split sum.split)

lemma teardown_keeps:
  assumes "\<And>d. keeps I (set_device_offline d)" "\<And>i. keeps I (with_reg (unregister_device i))"
  shows "keeps I (teardown s c)"
  unfolding teardown_def
  by (intro keeps_case_option keeps_if keeps_bindM keeps_thenM keeps_ret keeps_reg_read assms)

lemma closing_part_keeps:
  assumes "\<And>d. keeps I (set_device_offline d)" "\<And>i. keeps I (with_reg (unregister_device i))"
    and "keeps I (close_socket s)" "keeps I wait_closed"
  shows "keeps I (closing_part s imei)"
  unfolding closing_part_def
  by (intro keeps_bindM keeps_getsM keeps_thenM keeps_tryM keeps_ret teardown_keeps assms)

lemma wait_closed_keeps:
  assumes "net_inv I" shows "keeps I wait_closed"
  unfolding wait_closed_def using assms by (intro keeps_external) (simp_all add: net_inv_def)

lemma closing_part_outside: "outside_inv I \<Longrightarrow> keeps I (closing_part s imei)"
  by (intro closing_part_keeps offline_keeps keeps_with_reg keeps_close wait_closed_keeps outside_invD)

lemma release_slot_keeps: "keeps (on_reg R) release_slot" "keeps (on_db D) release_slot"
  "keeps (pool_is n) release_slot" "keeps (oracle_is f) release_slot"
  unfolding release_slot_def by (auto intro!: keeps_modifyM simp: part_defs)

lemma cleanup_keeps:
  "keeps (on_reg reg_ok) (cleanup s imei)" "keeps (on_db db_ok) (cleanup s imei)"
  "keeps (pool_is n) (cleanup s imei)" "keeps (oracle_is f) (cleanup s imei)"
  unfolding cleanup_split
  by (intro keeps_thenM release_slot_keeps closing_part_keeps offline_keeps keeps_with_reg keeps_close
      wait_closed_keeps keeps_with_reg_reg reg_ok_unregister; simp)+

text \<open>
  The slot is released exactly when the block is not left by an exception, and then the socket is
  closed.
\<close>

lemma cleanup_slot:
  assumes "cleanup s imei w = (r, w')"
  shows "connection_count w' = (case r of Inl _ \<Rightarrow> connection_count w | Inr _ \<Rightarrow> connection_count w - 1)"
proof -
  obtain r1 w1 where c: "closing_part s imei w = (r1, w1)" by (cases "closing_part s imei w")
  have "slots_are (connection_count w) w1"
    using keepsD2 [OF closing_part_outside [OF outside_inv_parts(1)] c] by (simp add: slots_are_def)
  with assms c show ?thesis
    by (cases r1) (auto simp: cleanup_split thenM_def bindM_def release_slot_def slots_are_def)
qed

lemma closing_after:
  assumes "cleanup s imei w = (Inr x, w')"
  shows "s \<in> closing w'"
proof -
  have "s \<in> closing (snd (tryM wait_closed (\<lambda>_. ret ()) (w \<lparr> closing := insert s (closing w) \<rparr>)))" for w
    by (simp add: tryM_def wait_closed_def external_def split: outcome.split)
  with assms show ?thesis
    unfolding cleanup_split closing_part_def thenM_def
    by (auto simp: bindM_eq_Inr_iff close_socket_def release_slot_def) (metis snd_conv)
qed

text \<open>The block is left by one exception only, and nothing comes after it.\<close>

lemma cleanup_raises:
  assumes "cleanup s imei w = (Inl err, w')"
  shows "\<exists>i e. get_device (reg w) i = Some e \<and> e_socket e = s \<and>
    set_device_offline (e_device_id e) w = (Inl err, w')"
proof -
  have "teardown s (cleanup_imei s imei w) w = (Inl err, w')"
    using assms
    by (auto simp: cleanup_def thenM_def bindM_def close_socket_def tryM_def release_slot_def
        split: prod.splits sum.splits)
  then show ?thesis
    by (auto simp: teardown_def reg_device_def bindM_def thenM_def with_reg_def
        split: option.splits if_splits sum.splits prod.splits)
qed

lemma teardown_healthy:
  assumes "healthy w" shows "\<exists>w'. teardown s c w = (Inr (), w')"
proof (cases c)
  case (Some i)
  obtain w1 where "set_device_offline d w = (Inr (), w1 d)" for d
    using offline_healthy [OF assms] by metis
  then show ?thesis
    by (auto simp: teardown_def Some reg_device_def bindM_def thenM_def with_reg_def split: option.split)
qed (simp add: teardown_def)

lemma cleanup_healthy:
  assumes "healthy w" shows "\<exists>w'. cleanup s imei w = (Inr (), w')"
proof -
  obtain w1 where "teardown s (cleanup_imei s imei w) w = (Inr (), w1)" using teardown_healthy [OF assms] by blast
  then show ?thesis
    by (auto simp: cleanup_def bindM_def thenM_def close_socket_def tryM_def wait_closed_def
        external_def release_slot_def split: outcome.split)
qed

section \<open>What the poller keeps\<close>

lemma poll_device_keeps:
  assumes "net_inv I" "\<And>i t. keeps I (with_reg (note_poll i t))"
  shows "keeps I (poll_device i)"
proof -
  have now: "keeps I now_utc" using assms(1) by (intro keeps_oracle) (simp add: net_inv_def)
  show ?thesis
    unfolding poll_device_def
    by (intro keeps_bindM keeps_reg_read keeps_case_option keeps_ret keeps_tryM keeps_liftR keeps_thenM
        keeps_write_drain now assms)
qed

lemma poller_turn_keeps:
  assumes "net_inv I" "\<And>i t. keeps I (with_reg (note_poll i t))"
  shows "keeps I (poller_turn cfg)"
proof -
  have now: "keeps I now_utc" using assms(1) by (intro keeps_oracle) (simp add: net_inv_def)
  note device = poll_device_keeps [OF assms]
  have "keeps I (poll_all is)" for "is"
  proof (induction "is")
    case Nil
    show ?case unfolding poll_all.simps by (rule keeps_ret)
  next
    case (Cons i "is")
    show ?case unfolding poll_all.simps by (intro keeps_bindM keeps_ret device Cons)
  qed
  then show ?thesis
    unfolding poller_turn_def poll_once_def
    by (intro keeps_tryM keeps_bindM keeps_getsM keeps_ret keeps_case_option now)
qed

text \<open>Every step but the end of a connection leaves slots and oracle alone.\<close>

lemma poller_turn_parts:
  "keeps (on_reg reg_ok) (poller_turn cfg)" "keeps (on_db db_ok) (poller_turn cfg)"
  "keeps (pool_is n) (poller_turn cfg)" "outside_inv I \<Longrightarrow> keeps I (poller_turn cfg)"
  by (intro poller_turn_keeps keeps_with_reg_reg reg_ok_note_poll keeps_with_reg net_inv_parts
      reg_inv_parts outside_invD; simp)+

lemma do_POST_parts:
  "keeps (on_reg reg_ok) (do_POST key rq)" "keeps (on_db db_ok) (do_POST key rq)"
  "keeps (pool_is n) (do_POST key rq)" "outside_inv I \<Longrightarrow> keeps I (do_POST key rq)"
  by (intro do_POST_keeps net_inv_parts serial_inv_parts outside_invD; simp)+

section \<open>The invariant of the gateway\<close>

definition world_ok :: "world \<Rightarrow> bool" where
  "world_ok w \<longleftrightarrow> reg_ok (reg w) \<and> db_ok (db w) \<and> pool_in_use w = 0"

definition slots_ok :: "config \<Rightarrow> gateway \<Rightarrow> bool" where
  "slots_ok cfg g \<longleftrightarrow> finite (dom (g_conns g)) \<and>
     int (card (dom (g_conns g))) \<le> connection_count (g_world g) \<and>
     connection_count (g_world g) \<le> max 0 (cfg_max_connections cfg) \<and>
     (healthy (g_world g) \<longrightarrow> connection_count (g_world g) = int (card (dom (g_conns g))))"

definition gateway_ok :: "config \<Rightarrow> gateway \<Rightarrow> bool" where
  "gateway_ok cfg g \<longleftrightarrow> world_ok (g_world g) \<and> slots_ok cfg g"

lemma world_ok_step:
  assumes "world_ok w" "m w = (r, w')"
    and "keeps (on_reg reg_ok) m" "keeps (on_db db_ok) m" "\<And>n. keeps (pool_is n) m"
  shows "world_ok w'"
  using keepsD2 [OF assms(3,2)] keepsD2 [OF assms(4,2)] keepsD2 [OF assms(5,2)] assms(1)
  by (simp add: world_ok_def part_defs)

lemma outside_step:
  assumes "m w = (r, w')" and "\<And>I. outside_inv I \<Longrightarrow> keeps I m"
  shows "connection_count w' = connection_count w \<and> outcomes w' = outcomes w"
  using keepsD2 [OF assms(2) [OF outside_inv_parts(1)] assms(1)]
    keepsD2 [OF assms(2) [OF outside_inv_parts(2)] assms(1)]
  by (simp add: part_defs)

lemma slots_same:
  assumes "slots_ok cfg \<lparr> g_world = w, g_conns = c \<rparr>"
    and "connection_count w' = connection_count w \<and> outcomes w' = outcomes w" and "dom c' = dom c"
  shows "slots_ok cfg \<lparr> g_world = w', g_conns = c' \<rparr>"
  using assms by (simp add: slots_ok_def healthy_def)

lemma gateway_step_ok:
  assumes "gateway_step cfg g g'" and "gateway_ok cfg g"
  shows "gateway_ok cfg g'"
  using assms
proof (induction rule: gateway_step.induct)
  case (accept s conns w w')
  then show ?case
    by (auto simp: gateway_ok_def world_ok_def slots_ok_def healthy_def try_acquire_slot_def dom_def [symmetric]
        split: if_splits)
next
  case (refuse s conns w w')
  then show ?case
    by (auto simp: gateway_ok_def world_ok_def slots_ok_def healthy_def try_acquire_slot_def close_socket_def
        split: if_splits)
next
  case (read conns s ph ip ev w ph' w')
  have "world_ok w'"
    by (rule world_ok_step [where m = "conn_turn cfg s ip ph ev" and w = w])
      (use read in \<open>simp_all add: gateway_ok_def conn_turn_registry conn_turn_tables conn_turn_pool\<close>)
  moreover have "slots_ok cfg \<lparr> g_world = w', g_conns = conns(s \<mapsto> ph') \<rparr>"
    by (rule slots_same [OF _ outside_step [where m = "conn_turn cfg s ip ph ev"]])
      (use read in \<open>auto simp: gateway_ok_def intro: conn_turn_outside\<close>)
  ultimately show ?case by (simp add: gateway_ok_def)
next
  case (finish conns s imei w r w')
  have "world_ok w'"
    by (rule world_ok_step [where m = "cleanup s imei" and w = w])
      (use finish in \<open>simp_all add: gateway_ok_def cleanup_keeps\<close>)
  moreover have "outcomes w' = outcomes w"
    using keepsD2 [OF cleanup_keeps(4) finish(2)] by (simp add: part_defs)
  moreover have "card (dom conns) = Suc (card (dom conns - {s}))"
    using finish by (intro card.remove) (auto simp: gateway_ok_def slots_ok_def)
  moreover have "healthy w \<Longrightarrow> \<exists>x. r = Inr x"
    using cleanup_healthy [of w s imei] finish(2) by auto
  ultimately show ?case
    using cleanup_slot [OF finish(2)] finish
    by (auto simp: gateway_ok_def slots_ok_def healthy_def split: sum.splits)
next
  case (poll w r w' conns)
  then show ?case
    using world_ok_step [where m = "poller_turn cfg", OF _ poll(2) poller_turn_parts(1-3)]
      slots_same [OF _ outside_step [where m = "poller_turn cfg", OF poll(2) poller_turn_parts(4)], of cfg conns conns]
    by (simp add: gateway_ok_def)
next
  case (command api_key rq w reply w' conns)
  then show ?case
    using world_ok_step [where m = "do_POST api_key rq", OF _ command(1) do_POST_parts(1-3)]
      slots_same [OF _ outside_step [where m = "do_POST api_key rq", OF command(1) do_POST_parts(4)], of cfg conns conns]
    by (simp add: gateway_ok_def)
next
  case (backend d w conns)
  then show ?case by (simp add: gateway_ok_def world_ok_def slots_ok_def)
qed

lemma gateway_reachable_ok: "gateway_reachable cfg g \<Longrightarrow> gateway_ok cfg g"
proof (induction rule: gateway_reachable.induct)
  case (start w)
  then show ?case by (simp add: gateway_ok_def world_ok_def slots_ok_def reg_ok_empty)
next
  case (step g g')
  then show ?case by (blast intro: gateway_step_ok)
qed

end
