(* ===== verification/Gateway.thy ===== *)
theory Gateway
  imports Server Config
begin

text \<open>
  What holds of a connection from its first byte to its last, and of the gateway as a whole. The
  framers of the three families are one \<open>framer\<close> here, and the handlers one contract, so that each
  property is proved once for all families.
\<close>

section \<open>The framer of a family\<close>

fun turn_for :: "config \<Rightarrow> family \<Rightarrow> bytes \<Rightarrow> turn" where
  "turn_for cfg GT06 = gt06_turn"
| "turn_for cfg GPS103 = gps103_turn (cfg_max_unframed_bytes cfg)"
| "turn_for cfg TELTONIKA = teltonika_turn (cfg_max_packet_bytes cfg)"

fun frame_for :: "config \<Rightarrow> family \<Rightarrow> bytes \<Rightarrow> bool" where
  "frame_for cfg GT06 = gt06_frame"
| "frame_for cfg GPS103 = gps103_message"
| "frame_for cfg TELTONIKA = (\<lambda>f. login_frame f \<or> avl_frame (cfg_max_packet_bytes cfg) f)"

lemma framer_for: "framer (framer_of cfg fam) (turn_for cfg fam) (frame_for cfg fam)"
proof (cases fam)
  case GT06
  then have "framer_of cfg fam = (\<lambda>b. Inr (extract_packets b))" by (intro ext) simp
  with GT06 show ?thesis by (simp add: gt06.framer_axioms)
next
  case GPS103
  then have "framer_of cfg fam = extract_messages (cfg_max_unframed_bytes cfg)" by (intro ext) simp
  with GPS103 show ?thesis by (simp add: gps103.framer_axioms)
next
  case TELTONIKA
  then have "framer_of cfg fam = extract_frames (cfg_max_packet_bytes cfg)" by (intro ext) simp
  with TELTONIKA show ?thesis by (simp add: teltonika.framer_axioms)
qed

interpretation pipeline: framer "framer_of cfg fam" "turn_for cfg fam" "frame_for cfg fam" for cfg fam
  by (rule framer_for)

text \<open>How much of an incomplete frame is kept at most.\<close>

fun buffer_limit :: "config \<Rightarrow> family \<Rightarrow> int" where
  "buffer_limit cfg GT06 = 65540"
| "buffer_limit cfg GPS103 = cfg_max_unframed_bytes cfg"
| "buffer_limit cfg TELTONIKA = max 16 (11 + cfg_max_packet_bytes cfg)"

lemma rest_limit:
  assumes "framer_of cfg fam b = Inr (ps, r)"
  shows "int (length r) \<le> buffer_limit cfg fam"
proof -
  have "turn_for cfg fam r = Wait" using assms by (rule pipeline.rest_waits)
  then show ?thesis
    by (cases fam) (auto dest: gt06_wait_bound gps103_wait_bound teltonika_wait_bound)
qed

text \<open>
  C11. Framing ends: whatever bytes have arrived, the loop of each family's framer goes round at most
  once per byte and then stops, and what it has collected by then, or the error it stops with, is
  what the framer returns.
\<close>

theorem framing_loop_ends:
  "\<exists>k fs r. k \<le> length b \<and> (take_turn (turn_for cfg fam) ^^ k) ([], b) = (fs, r) \<and>
     while_option (takes (turn_for cfg fam)) (take_turn (turn_for cfg fam)) ([], b) = Some (fs, r) \<and>
     framer_of cfg fam b = (case turn_for cfg fam r of Fail e \<Rightarrow> Inl e | _ \<Rightarrow> Inr (fs, r))"
  using pipeline.loop_ends [of b cfg fam "[]"] by simp

section \<open>Batches\<close>

lemma handle_packets_append:
  "handle_packets cfg fam s ip imei (ps @ qs) w =
     (case handle_packets cfg fam s ip imei ps w of
        (Inl e, w') \<Rightarrow> (Inl e, w')
      | (Inr (imei', ok), w') \<Rightarrow> if ok then handle_packets cfg fam s ip imei' qs w' else (Inr (imei', False), w'))"
proof (induction ps arbitrary: imei w)
  case (Cons p ps)
  show ?case
  proof (cases "s \<in> closing w")
    case True
    then show ?thesis by (cases qs) (auto simp: bindM_def)
  next
    case False
    obtain i ok w1 where f: "handle_frame cfg fam s ip imei p w = (Inr (i, ok), w1)"
      using handle_frame_returns by (metis surj_pair)
    with False Cons [of i w1] show ?thesis by (cases ok) (simp_all add: bindM_def)
  qed
qed simp

text \<open>A connection that gets its bytes in several reads.\<close>

fun run_reads :: "config \<Rightarrow> sock \<Rightarrow> string \<Rightarrow> phase \<Rightarrow> bytes list \<Rightarrow> phase act" where
  "run_reads cfg s ip ph [] = ret ph"
| "run_reads cfg s ip ph (d # ds) =
     bindM (conn_turn cfg s ip ph (Data d)) (\<lambda>ph'. run_reads cfg s ip ph' ds)"

lemma run_reads_ending: "run_reads cfg s ip (Ending imei) ds w = (Inr (Ending imei), w)"
  by (induction ds) (simp_all add: bindM_def)

section \<open>Properties of a connection\<close>

text \<open>Reads that the framer accepts one by one.\<close>

lemma reads_joined:
  assumes "feed (framer_of cfg fam) b ds = Inr (fs, r)" and "ds \<noteq> []" and "\<forall>d \<in> set ds. d \<noteq> []"
  shows "run_reads cfg s ip (Serving fam imei b) ds w =
    conn_turn cfg s ip (Serving fam imei b) (Data (concat ds)) w"
  using assms
proof (induction ds arbitrary: b imei w fs)
  case (Cons d ds)
  then obtain ps r1 qs where f: "framer_of cfg fam (b @ d) = Inr (ps, r1)"
    and g: "feed (framer_of cfg fam) r1 ds = Inr (qs, r)"
    by (auto simp: bindR_eq_Inr_iff)
  show ?case
  proof (cases "ds = []")
    case True
    then show ?thesis
      using Cons.prems by (simp add: bindM_def split: prod.split sum.split)
  next
    case False
    let ?c = "concat ds"
    have c: "?c \<noteq> []" using False Cons.prems(3) by (cases ds) auto
    have "framer_of cfg fam (r1 @ ?c) = Inr (qs, r)"
      using g pipeline.rest_waits [OF f] by (rule pipeline.feed_eq_extract)
    then have all: "framer_of cfg fam (b @ d @ ?c) = Inr (ps @ qs, r)"
      using pipeline.extract_append [OF f, of ?c] by simp
    obtain i ok w1 where h: "handle_packets cfg fam s ip imei ps w = (Inr (i, ok), w1)"
      using handle_packets_returns by (metis surj_pair)
    have "run_reads cfg s ip (Serving fam i r1) ds w1 = run_batch cfg s ip fam i (r1 @ ?c) w1"
      using Cons.IH [OF g False, of i w1] Cons.prems(3) c by simp
    with all f h c Cons.prems(3) \<open>framer_of cfg fam (r1 @ ?c) = Inr (qs, r)\<close> show ?thesis
      by (cases ok) (simp_all add: run_batch_def bindM_def handle_packets_append run_reads_ending)
  qed
qed simp

text \<open>A read that the framer refuses ends the connection, and none of its frames is handled.\<close>

lemma refused_read:
  "framer_of cfg fam (b @ d) = Inl e \<Longrightarrow> d \<noteq> [] \<Longrightarrow>
   run_reads cfg s ip (Serving fam imei b) (d # ds) w = (Inr (Ending imei), w)"
  by (simp add: run_batch_def bindM_def run_reads_ending)

text \<open>
  The stream is acceptable: what has arrived is recognised or still too short to be, and the framer
  of its family takes each read.
\<close>

fun accepted :: "config \<Rightarrow> phase \<Rightarrow> bytes list \<Rightarrow> bool" where
  "accepted cfg (Probing b) ds \<longleftrightarrow>
     (case detect_protocol (b @ concat ds) (cfg_enabled_protocols cfg) of
        None \<Rightarrow> length (b @ concat ds) < 5
      | Some fam \<Rightarrow> \<not> isl (feed (framer_of cfg fam) b ds))"
| "accepted cfg (Serving fam imei b) ds \<longleftrightarrow> \<not> isl (feed (framer_of cfg fam) b ds)"
| "accepted cfg (Ending imei) ds \<longleftrightarrow> True"

lemma gt06_accepted: "accepted cfg (Serving GT06 imei b) ds"
proof -
  have "framer_of cfg GT06 = (\<lambda>b. Inr (extract_packets b))" by (intro ext) simp
  then have "feed (framer_of cfg GT06) b ds \<noteq> Inl e" for e by (simp only: gt06_feed not_False_eq_True)
  then show ?thesis by (cases "feed (framer_of cfg GT06) b ds") auto
qed

lemma feed_merge:
  assumes "\<not> isl (feed (framer_of cfg fam) b (d # ds))" and "ds \<noteq> []"
  shows "\<not> isl (feed (framer_of cfg fam) (b @ d) ds)"
proof -
  obtain d2 es where ds: "ds = d2 # es" using assms(2) by (cases ds) auto
  obtain fs r where "feed (framer_of cfg fam) b (d # ds) = Inr (fs, r)"
    using assms(1) by (cases "feed (framer_of cfg fam) b (d # ds)") auto
  then obtain ps r1 qs r2 gs where f: "framer_of cfg fam (b @ d) = Inr (ps, r1)"
    "framer_of cfg fam (r1 @ d2) = Inr (qs, r2)" "feed (framer_of cfg fam) r2 es = Inr (gs, r)"
    unfolding ds by (auto simp: bindR_eq_Inr_iff)
  have "framer_of cfg fam ((b @ d) @ d2) = Inr (ps @ qs, r2)" using pipeline.extract_append [OF f(1), of d2] f(2) by simp
  with f(3) show ?thesis by (simp add: ds)
qed

text \<open>Five bytes are enough to recognise what is recognised at all.\<close>

lemma detect_prefix:
  assumes "detect_protocol (b @ c) en = Some fam" and "5 \<le> length b"
  shows "detect_protocol b en = Some fam"
proof -
  have t: "take 2 (b @ c) = take 2 b" using assms(2) by simp
  have p: "starts_with p (b @ c) \<longleftrightarrow> starts_with p b" if "length p \<le> 5" for p :: bytes
    using that assms(2) by (simp add: starts_with_def)
  have d: "list_all is_digit_byte (slice (b @ c) 2 17) \<Longrightarrow> list_all is_digit_byte (slice b 2 17)"
    by (auto simp: slice_def take_append drop_append list_all_iff dest!: in_set_takeD
        intro: in_set_takeD elim!: in_set_takeD)
  have "sniff (b @ c) = Some f \<Longrightarrow> sniff b = Some f" for f
    using assms(2) d unfolding sniff_def t by (auto simp: p simp del: starts_with_Cons split: if_splits)
  with assms(1) show ?thesis by (auto simp: detect_protocol_def split: option.splits if_splits)
qed

lemma probing_joined:
  assumes "accepted cfg (Probing b) ds" and "ds \<noteq> []" and "\<forall>d \<in> set ds. d \<noteq> []"
  shows "run_reads cfg s ip (Probing b) ds w = conn_turn cfg s ip (Probing b) (Data (concat ds)) w"
  using assms
proof (induction ds arbitrary: b)
  case (Cons d ds)
  show ?case
  proof (cases "ds = []")
    case True
    then show ?thesis using Cons.prems(3) by (simp add: bindM_def split: prod.split sum.split)
  next
    case False
    have d: "d \<noteq> []" and c: "concat ds \<noteq> []" using False Cons.prems(3) by (cases ds; auto)+
    show ?thesis
    proof (cases "length (b @ d) < 5")
      case True
      have "accepted cfg (Probing (b @ d)) ds"
        using Cons.prems(1) feed_merge [OF _ False] by (auto split: option.splits)
      then have ih: "run_reads cfg s ip (Probing (b @ d)) ds w = conn_turn cfg s ip (Probing (b @ d)) (Data (concat ds)) w"
        using Cons.prems(3) by (intro Cons.IH False) simp_all
      have "run_reads cfg s ip (Probing b) (d # ds) w = run_reads cfg s ip (Probing (b @ d)) ds w"
        using True d by (simp add: bindM_def)
      also note ih
      also have "conn_turn cfg s ip (Probing (b @ d)) (Data (concat ds)) w = conn_turn cfg s ip (Probing b) (Data (concat (d # ds))) w"
        using d c by (simp del: concat_eq_Nil_conv)
      finally show ?thesis .
    next
      case long: False
      then obtain fam where fam: "detect_protocol (b @ concat (d # ds)) (cfg_enabled_protocols cfg) = Some fam"
        and ok: "\<not> isl (feed (framer_of cfg fam) b (d # ds))"
        using Cons.prems(1) by (auto split: option.splits)
      then obtain fs r where feed: "feed (framer_of cfg fam) b (d # ds) = Inr (fs, r)"
        by (cases "feed (framer_of cfg fam) b (d # ds)") auto
      have "detect_protocol (b @ d) (cfg_enabled_protocols cfg) = Some fam"
        by (rule detect_prefix [where c = "concat ds"]) (use fam long in simp_all)
      then have "conn_turn cfg s ip (Probing b) (Data d) = conn_turn cfg s ip (Serving fam None b) (Data d)"
        using long d by (simp only: conn_turn.simps read_event.case open_stream_def option.case if_False)
      then have "run_reads cfg s ip (Probing b) (d # ds) w = run_reads cfg s ip (Serving fam None b) (d # ds) w"
        by (simp only: run_reads.simps)
      also have "\<dots> = conn_turn cfg s ip (Serving fam None b) (Data (concat (d # ds))) w"
        by (rule reads_joined [OF feed]) (use Cons.prems(3) in auto)
      also have "conn_turn cfg s ip (Serving fam None b) (Data (concat (d # ds))) = conn_turn cfg s ip (Probing b) (Data (concat (d # ds)))"
      proof -
        have "concat (d # ds) \<noteq> []" "\<not> length (b @ concat (d # ds)) < 5" using long d by simp_all
        with fam show ?thesis by (simp only: conn_turn.simps read_event.case open_stream_def option.case if_False)
      qed
      finally show ?thesis .
    qed
  qed
qed simp

text \<open>
  C10. How TCP cuts an acceptable stream into reads does not matter, from the first byte of a
  connection on: the connection ends up in the phase, and the whole gateway in the state, that one
  read of all the bytes gives, with every frame handled once and in order, whatever fails.
  Acceptable means that the stream is recognised and that the framer takes each read; a GT06
  connection takes everything. Where a framer refuses a read (a GPS103 overflow, a length that no
  Teltonika packet has) the cut does matter: the frames of earlier reads have been handled, and
  none of the refused read's is.
\<close>

theorem segmentation_irrelevant:
  assumes "accepted cfg ph ds \<or> (\<exists>imei b. ph = Serving GT06 imei b)" and "ds \<noteq> []" and "\<forall>d \<in> set ds. d \<noteq> []"
  shows "run_reads cfg s ip ph ds w = conn_turn cfg s ip ph (Data (concat ds)) w"
proof (cases ph)
  case (Probing b)
  with assms show ?thesis using probing_joined by simp
next
  case (Serving fam imei b)
  with assms(1) gt06_accepted [of cfg imei b ds] have "\<not> isl (feed (framer_of cfg fam) b ds)" by auto
  then obtain fs r where "feed (framer_of cfg fam) b ds = Inr (fs, r)" by (cases "feed (framer_of cfg fam) b ds") auto
  from reads_joined [OF this assms(2,3)] show ?thesis by (simp add: Serving)
qed (simp add: run_reads_ending)

text \<open>A GPS103 login and a heartbeat that arrive in four pieces, the first too short to be recognised.\<close>

definition pieces :: "bytes list" where
  "pieces = map (map of_char) [''##'', '',imei:1234567'', ''89012345,A;1234'', ''56789012345;'']"

theorem segmentation_irrelevant_witness:
  "run_reads default_config 7 ''10.0.0.7'' (Probing []) pieces (start_world empty_database) =
   conn_turn default_config 7 ''10.0.0.7'' (Probing []) (Data (map of_char ''##,imei:123456789012345,A;123456789012345;''))
     (start_world empty_database)"
proof -
  have "accepted default_config (Probing []) pieces" "pieces \<noteq> []" "list_all (\<lambda>d. d \<noteq> []) pieces"
    "concat pieces = map of_char ''##,imei:123456789012345,A;123456789012345;''"
    by code_simp+
  then show ?thesis
    using segmentation_irrelevant [of default_config "Probing []" pieces 7 "''10.0.0.7''" "start_world empty_database"]
    by (simp only: list_all_iff simp_thms)
qed

section \<open>A whole connection\<close>

lemma run_connection_keeps:
  assumes "\<And>ph ev. keeps I (conn_turn cfg s ip ph ev)"
  shows "keeps I (run_connection cfg s ip ph evs)"
proof (induction evs arbitrary: ph)
  case Nil
  have last: "keeps I (case ph' of Ending imei \<Rightarrow> ret imei
      | _ \<Rightarrow> bindM (conn_turn cfg s ip ph' (Data [])) (\<lambda>ph''. ret (case ph'' of Ending imei \<Rightarrow> imei | _ \<Rightarrow> None)))" for ph'
    by (cases ph'; simp only: phase.case) (intro keeps_bindM keeps_ret assms)+
  show ?case
    by (cases ph; simp only: run_connection.simps) (intro keeps_bindM keeps_ret assms last)+
next
  case (Cons ev evs)
  show ?case
    by (cases ph; simp only: run_connection.simps) (intro keeps_bindM keeps_ret assms Cons)+
qed

text \<open>However the reads end, the loop of a connection returns to the \<^verbatim>\<open>finally\<close> block.\<close>

lemma run_connection_returns: "\<exists>i w'. run_connection cfg s ip ph evs w = (Inr i, w')"
proof (induction evs arbitrary: ph w)
  case Nil
  have two: "\<exists>i w'. bindM (conn_turn cfg s ip ph (Data [])) (\<lambda>ph'. case ph' of Ending imei \<Rightarrow> ret imei
      | _ \<Rightarrow> bindM (conn_turn cfg s ip ph' (Data [])) (\<lambda>ph''. ret (case ph'' of Ending imei \<Rightarrow> imei | _ \<Rightarrow> None))) w = (Inr i, w')"
  proof -
    obtain ph' w1 where 1: "conn_turn cfg s ip ph (Data []) w = (Inr ph', w1)" using conn_turn_returns by blast
    obtain ph'' w2 where 2: "conn_turn cfg s ip ph' (Data []) w1 = (Inr ph'', w2)" using conn_turn_returns by blast
    from 1 2 show ?thesis by (cases ph') (simp_all add: bindM_def del: conn_turn.simps)
  qed
  then show ?case by (cases ph) simp_all
next
  case (Cons ev evs)
  obtain ph' w1 where 1: "conn_turn cfg s ip ph ev w = (Inr ph', w1)" using conn_turn_returns by blast
  obtain i w' where "run_connection cfg s ip ph' evs w1 = (Inr i, w')" using Cons by blast
  with 1 show ?case by (cases ph) (simp_all add: bindM_def del: conn_turn.simps)
qed

text \<open>
  C9. The slot of a connection, for any finite list of reads and any failures: it is given back and the
  socket is closed, except when the coroutine is left by the exception of \<^verbatim>\<open>set_device_offline\<close> for a
  device registered on this very socket. Then nothing comes after that call, and the slot stays
  taken. No other failure, a transport that does not close included, loses a slot, and when no call
  fails it is always back.
\<close>

theorem slot_balance:
  "\<exists>r w'. handle_device cfg s ip evs w = (r, w') \<and>
     (case r of
        Inr _ \<Rightarrow> connection_count w' = connection_count w \<and> s \<in> closing w'
      | Inl err \<Rightarrow> connection_count w' = connection_count w + 1 \<and>
          (\<exists>i e v. get_device (reg v) i = Some e \<and> e_socket e = s \<and>
             set_device_offline (e_device_id e) v = (Inl err, w'))) \<and>
     (healthy w \<longrightarrow> r = Inr ())"
proof (cases "connection_count w \<ge> cfg_max_connections cfg")
  case True
  then show ?thesis by (simp add: handle_device_def bindM_def try_acquire_slot_def close_socket_def)
next
  case False
  let ?w = "w \<lparr> connection_count := connection_count w + 1 \<rparr>"
  obtain i w1 where 1: "run_connection cfg s ip (Probing []) evs ?w = (Inr i, w1)"
    using run_connection_returns by blast
  have k: "outside_inv I \<Longrightarrow> keeps I (run_connection cfg s ip (Probing []) evs)" for I
    by (intro run_connection_keeps conn_turn_outside)
  have w1: "connection_count w1 = connection_count w + 1" "outcomes w1 = outcomes w"
    using keepsD2 [OF k [OF outside_inv_parts(1)] 1] keepsD2 [OF k [OF outside_inv_parts(2)] 1]
    by (simp_all add: part_defs)
  obtain r w' where 2: "cleanup s i w1 = (r, w')" by (cases "cleanup s i w1")
  from False 1 2 have h: "handle_device cfg s ip evs w = (r, w')"
    by (simp add: handle_device_def bindM_def try_acquire_slot_def)
  have healthy: "healthy w \<Longrightarrow> r = Inr ()"
    using cleanup_healthy [of w1 s i] 2 w1 by (auto simp: healthy_def)
  show ?thesis
  proof (cases r)
    case (Inl err)
    with cleanup_raises [of s i w1 err w'] cleanup_slot [OF 2] 2 h healthy w1(1) show ?thesis by fastforce
  next
    case (Inr u)
    with closing_after [of s i w1 u w'] cleanup_slot [OF 2] 2 h w1(1) show ?thesis by simp
  qed
qed

text \<open>One connection that ends well, and one whose device cannot be marked offline.\<close>

theorem slot_balance_witness:
  "\<exists>w'. handle_device default_config 7 ''10.0.0.7'' [Data [0x78, 0x78, 0x05], Timeout] (start_world empty_database) = (Inr (), w') \<and>
     connection_count w' = 0 \<and> 7 \<in> closing w'"
  using slot_balance [of default_config 7 "''10.0.0.7''" "[Data [0x78, 0x78, 0x05], Timeout]" "start_world empty_database"]
  by auto

text \<open>
  C37. How the slot is lost: when a device that is still registered on its socket disconnects while
  the database does not answer, the clean-up raises before it closes the socket, releases the slot
  or removes the registration, so the device stays listed as online.
\<close>

theorem failed_offline_leaks:
  assumes "imei \<noteq> ''''" and "get_device (reg w) imei = Some e" and "e_socket e = s"
    and "outcomes w (Suc (calls w)) \<noteq> Succeeds" "s \<notin> closing w"
  shows "\<exists>err w'. cleanup s (Some imei) w = (Inl err, w') \<and> connection_count w' = connection_count w \<and>
    s \<notin> closing w' \<and> is_online (reg w') imei \<and> get_socket (reg w') imei = Some s"
proof -
  have "is_online (reg w) imei"
    using assms(2) by (auto simp: is_online_def get_device_def dest!: map_of_SomeD intro: rev_image_eqI)
  moreover have "\<exists>v. set_device_offline (e_device_id e) w = (Inl DbError, v) \<and> reg v = reg w \<and>
      closing v = closing w \<and> connection_count v = connection_count w"
    using assms(4)
    by (simp add: set_device_offline_def bindM_def now_utc_def managed_connection_def thenM_def acquire_def
        tick_def split: outcome.split)
  ultimately show ?thesis
    using assms(1-3,5)
    by (auto simp: cleanup_def cleanup_imei_def teardown_def bindM_def thenM_def reg_device_def get_socket_def)
qed

definition one_device :: world where
  "one_device =
     (start_world empty_database) \<lparr> reg :=
        register_device ''123456789012345'' ''10.0.0.7'' ''d1'' 7 GT06 0 0 empty_registry,
        connection_count := 1, outcomes := (\<lambda>_. FailsClean) \<rparr>"

theorem failed_offline_leaks_witness:
  "\<exists>err w'. cleanup 7 (Some ''123456789012345'') one_device = (Inl err, w') \<and> connection_count w' = 1 \<and> 7 \<notin> closing w'"
  using failed_offline_leaks [of "''123456789012345''" one_device
      "new_entry ''10.0.0.7'' ''d1'' 7 GT06 0 0" 7]
  by (auto simp: one_device_def register_device_def put_entry_def get_device_def new_entry_def empty_registry_def)

section \<open>What one connection may touch\<close>

text \<open>
  Whatever bytes a connection reads, its turn returns, and it writes to no socket but its own,
  takes back nothing it wrote, authenticates and displaces nobody else's socket with an identity of
  its choice (other sockets only lose theirs), returns every database connection and holds on to
  its slot.
\<close>

lemma connection_isolated:
  "\<exists>ph' w'. conn_turn cfg s ip ph ev w = (Inr ph', w') \<and>
     (\<forall>t. t \<noteq> s \<longrightarrow> sent w' t = sent w t) \<and> prefix (sent w s) (sent w' s) \<and>
     (\<forall>t i. t \<noteq> s \<longrightarrow> get_imei_by_socket (reg w') t = Some i \<longrightarrow> get_imei_by_socket (reg w) t = Some i) \<and>
     pool_in_use w' = pool_in_use w \<and> connection_count w' = connection_count w"
proof -
  obtain ph' w' where c: "conn_turn cfg s ip ph ev w = (Inr ph', w')" using conn_turn_returns by blast
  let ?A = "\<lambda>t i. t \<noteq> s \<longrightarrow> get_imei_by_socket (reg w) t = Some i"
  have "only_socket s (sent w) w'" using keepsD2 [OF conn_turn_own_socket c] by (simp add: only_socket_refl)
  moreover have "on_reg (auth_within ?A) w'"
    by (rule keepsD2 [OF conn_turn_auth c]) (simp_all add: on_reg_def auth_within_def)
  moreover have "pool_in_use w' = pool_in_use w"
    using keepsD2 [OF conn_turn_pool c, of "pool_in_use w"] by (simp add: pool_is_def)
  moreover have "connection_count w' = connection_count w"
    using outside_step [OF c conn_turn_outside] by simp
  ultimately show ?thesis using c by (auto simp: only_socket_def on_reg_def auth_within_def)
qed

text \<open>
  C12. The contract of a frame, for all three families: after a handler has run, however it ended,
  the registry and the tables are as consistent as before, every database connection is back, and
  only the frame's own socket can be newly authenticated, as an IMEI that the tables admit.
\<close>

theorem frame_contract:
  assumes "reg_ok (reg w)" and "db_ok (db w)" and "handler_of fam cfg raw s ip w = (r, w')"
  shows "reg_ok (reg w') \<and> db_ok (db w') \<and> pool_in_use w' = pool_in_use w \<and>
    (\<forall>t i. get_imei_by_socket (reg w') t = Some i \<longrightarrow>
       get_imei_by_socket (reg w) t = Some i \<or> (t = s \<and> admitted (db w) i))"
proof -
  obtain c where "auth_within (may_auth w s c) (reg w')"
  proof (cases fam)
    case GT06
    with assms(3) gt06_handler.auth [of w s raw cfg ip] that show ?thesis by simp
  next
    case GPS103
    with assms(3) gps103_handler.auth [of w s raw cfg ip] that show ?thesis by simp
  next
    case TELTONIKA
    with assms(3) teltonika_handler.auth [of w s raw cfg ip] that show ?thesis by simp
  qed
  then show ?thesis
    using keepsD2 [OF handler_registry assms(3)] keepsD2 [OF handler_tables assms(3)]
      keepsD2 [OF handler_pool assms(3), of "pool_in_use w"] assms(1,2)
    by (auto simp: part_defs auth_within_def may_auth_def)
qed

theorem frame_contract_witness:
  "db_ok (db (snd (handler_of GT06 default_config [0x78, 0x78, 0x05, 0x13, 0x00] 7 ''10.0.0.7'' one_device)))"
proof -
  have "reg_ok (reg one_device)" "db_ok (db one_device)"
    by (simp_all add: one_device_def reg_ok_register reg_ok_empty db_ok_def stored_rows_ok_def empty_database_def)
  from frame_contract [OF this surjective_pairing, of GT06 default_config] show ?thesis by blast
qed

section \<open>The clean-up touches its own device only\<close>

lemma execute_statuses:
  assumes "\<And>d. device_statuses (f d) x = device_statuses d x"
  shows "keeps (on_db (\<lambda>d. device_statuses d x = v)) (managed_connection (execute f))"
  by (intro keeps_managed_db keeps_execute_db) (simp add: assms)

lemma offline_other:
  "x \<noteq> dev \<Longrightarrow> keeps (on_db (\<lambda>d. device_statuses d x = v)) (set_device_offline dev)"
  unfolding set_device_offline_def
  by (intro keeps_bindM keeps_oracle_db execute_statuses) (simp add: update_status_def)

lemma offline_Inr:
  assumes "set_device_offline dev w = (Inr (), w')" and "device_statuses (db w') dev = Some row"
  shows "\<not> st_is_online row"
  using assms
  by (auto simp: set_device_offline_def bindM_def now_utc_def managed_connection_def thenM_def acquire_def
      finallyM_def release_def execute_def statement_def external_def update_status_def
      split: outcome.splits option.splits)

text \<open>What is left of the clean-up once the device is dealt with.\<close>

lemma cleanup_after_teardown:
  assumes "keeps I (close_socket s)" "keeps I wait_closed" "keeps I release_slot"
    and "\<And>r w1. teardown s (cleanup_imei s imei w) w = (r, w1) \<Longrightarrow> I w1"
  shows "I (snd (cleanup s imei w))"
proof -
  have rest: "keeps I (thenM (close_socket s) (thenM (tryM wait_closed (\<lambda>_. ret ())) release_slot))"
    by (intro keeps_thenM keeps_tryM keeps_ret assms(1-3))
  obtain r w1 where t: "teardown s (cleanup_imei s imei w) w = (r, w1)"
    by (cases "teardown s (cleanup_imei s imei w) w")
  from keepsD [OF rest assms(4) [OF t]] assms(4) [OF t] t show ?thesis
    by (cases r) (simp_all add: cleanup_def bindM_def thenM_def)
qed

lemma teardown_own:
  assumes "teardown s c w = (r, w')"
  shows "(\<forall>j e. get_device (reg w) j = Some e \<and> e_socket e \<noteq> s \<longrightarrow> get_device (reg w') j = Some e) \<and>
    (\<forall>x. (\<forall>j e. get_device (reg w) j = Some e \<and> e_socket e = s \<longrightarrow> e_device_id e \<noteq> x) \<longrightarrow>
       device_statuses (db w') x = device_statuses (db w) x)"
proof (cases "\<exists>i e. c = Some i \<and> i \<noteq> '''' \<and> get_device (reg w) i = Some e \<and> e_socket e = s")
  case True
  then obtain i e where c: "c = Some i" "i \<noteq> ''''" and e: "get_device (reg w) i = Some e" "e_socket e = s" by blast
  obtain r1 w1 where o: "set_device_offline (e_device_id e) w = (r1, w1)"
    by (cases "set_device_offline (e_device_id e) w")
  have reg: "reg w1 = reg w"
    using keepsD2 [OF offline_keeps(1) [where I = "on_reg (\<lambda>r. r = reg w)"] o] by (simp add: on_reg_def)
  have rows: "device_statuses (db w1) x = device_statuses (db w) x" if "x \<noteq> e_device_id e" for x
    using keepsD2 [OF offline_other [OF that] o, of "device_statuses (db w) x"] by (simp add: on_db_def)
  have w': "reg w' = reg w \<or> reg w' = unregister_device i (reg w)" "db w' = db w1"
    using assms c e o reg
    by (cases r1; auto simp: teardown_def bindM_def thenM_def reg_device_def with_reg_def)+
  have "get_device (reg w') j = Some f" if "get_device (reg w) j = Some f" "e_socket f \<noteq> s" for j f
    using w'(1) that e by (auto simp: get_device_unregister)
  moreover have "device_statuses (db w') x = device_statuses (db w) x"
    if "\<forall>j e. get_device (reg w) j = Some e \<and> e_socket e = s \<longrightarrow> e_device_id e \<noteq> x" for x
    using rows that e w'(2) by metis
  ultimately show ?thesis by blast
next
  case False
  then have "w' = w"
    using assms by (auto simp: teardown_def bindM_def reg_device_def split: option.splits if_splits)
  then show ?thesis by simp
qed

text \<open>
  When a connection ends, however it ends, only its own registration is torn down: entries that
  hold another socket stay as they are (a device that has reconnected is not knocked off), the
  status rows of devices that are not on this socket are not written, and if the clean-up gets
  through, the device it served is gone from the registry and marked offline.
\<close>

lemma cleanup_own_registration:
  assumes "cleanup s imei w = (r, w')"
  shows "(\<forall>j e. get_device (reg w) j = Some e \<and> e_socket e \<noteq> s \<longrightarrow> get_device (reg w') j = Some e) \<and>
    (\<forall>x. (\<forall>j e. get_device (reg w) j = Some e \<and> e_socket e = s \<longrightarrow> e_device_id e \<noteq> x) \<longrightarrow>
       device_statuses (db w') x = device_statuses (db w) x) \<and>
    (\<forall>i e row. r = Inr () \<and> cleanup_imei s imei w = Some i \<and> i \<noteq> '''' \<and>
       get_device (reg w) i = Some e \<and> e_socket e = s \<longrightarrow>
       get_device (reg w') i = None \<and>
       (device_statuses (db w') (e_device_id e) = Some row \<longrightarrow> \<not> st_is_online row))"
proof -
  obtain r1 w1 where t: "teardown s (cleanup_imei s imei w) w = (r1, w1)"
    by (cases "teardown s (cleanup_imei s imei w) w")
  let ?I = "\<lambda>v. on_reg (\<lambda>x. x = reg w1) v \<and> on_db (\<lambda>x. x = db w1) v"
  have "?I (snd (cleanup s imei w))"
    by (rule cleanup_after_teardown [where I = ?I])
      (use t in \<open>auto simp: keeps_def part_defs close_socket_def wait_closed_def release_slot_def external_def
         split: outcome.split\<close>)
  then have parts: "reg w' = reg w1" "db w' = db w1" using assms by (simp_all add: part_defs)
  have own: "get_device (reg w1) i = None \<and> (device_statuses (db w1) (e_device_id e) = Some row \<longrightarrow> \<not> st_is_online row)"
    if "r = Inr ()" "cleanup_imei s imei w = Some i" "i \<noteq> ''''" "get_device (reg w) i = Some e" "e_socket e = s" for i e row
  proof -
    from that(1) assms t have "r1 = Inr ()" by (cases r1) (auto simp: cleanup_def bindM_def thenM_def)
    with t that obtain w2 where "set_device_offline (e_device_id e) w = (Inr (), w2)"
      and "w1 = w2 \<lparr> reg := unregister_device i (reg w2) \<rparr>"
      by (auto simp: teardown_def bindM_def thenM_def reg_device_def with_reg_def split: sum.splits prod.splits)
    then show ?thesis using offline_Inr by (auto simp: get_device_unregister)
  qed
  from teardown_own [OF t] own show ?thesis unfolding parts by blast
qed

section \<open>The gateway\<close>

text \<open>What a connection holds while it waits for more bytes.\<close>

fun phase_ok :: "config \<Rightarrow> phase \<Rightarrow> bool" where
  "phase_ok cfg (Probing data) \<longleftrightarrow> length data < 5"
| "phase_ok cfg (Serving fam imei buffer) \<longleftrightarrow>
     fam \<in> cfg_enabled_protocols cfg \<and> framer_of cfg fam buffer = Inr ([], buffer) \<and>
     int (length buffer) \<le> buffer_limit cfg fam"
| "phase_ok cfg (Ending imei) \<longleftrightarrow> True"

lemma run_batch_phase:
  assumes "fam \<in> cfg_enabled_protocols cfg" and "run_batch cfg s ip fam imei b w = (Inr ph, w')"
  shows "phase_ok cfg ph"
proof (cases "framer_of cfg fam b")
  case (Inr x)
  obtain ps r where x: "x = (ps, r)" by (cases x)
  with Inr have f: "framer_of cfg fam b = Inr (ps, r)" by simp
  obtain i ok w1 where "handle_packets cfg fam s ip imei ps w = (Inr (i, ok), w1)"
    using handle_packets_returns by (metis surj_pair)
  with assms f show ?thesis
    using rest_limit [OF f] pipeline.rest_stable [OF f] by (cases ok) (auto simp: run_batch_def bindM_def)
qed (use assms in \<open>auto simp: run_batch_def\<close>)

lemma open_stream_phase: "open_stream cfg s ip b w = (Inr ph, w') \<Longrightarrow> phase_ok cfg ph"
  by (auto simp: open_stream_def detect_protocol_def split: option.splits if_splits intro: run_batch_phase)

lemma conn_turn_phase: "conn_turn cfg s ip ph ev w = (Inr ph', w') \<Longrightarrow> phase_ok cfg ph \<Longrightarrow> phase_ok cfg ph'"
  by (cases ph; cases ev) (auto split: if_splits dest: open_stream_phase run_batch_phase)

lemma step_phases:
  "gateway_step cfg g g' \<Longrightarrow> \<forall>s ph. g_conns g s = Some ph \<longrightarrow> phase_ok cfg ph \<Longrightarrow>
   \<forall>s ph. g_conns g' s = Some ph \<longrightarrow> phase_ok cfg ph"
  by (induction rule: gateway_step.induct) (auto split: if_splits dest: conn_turn_phase)

text \<open>
  C1. In every reachable state of the gateway, whatever connections, poller, command API and other
  users of the database have done and however their calls failed: the registry and the stored
  positions are consistent, every database connection is back in the pool, the slots taken are at
  least the open connections and at most the configured maximum, and exactly the open
  connections as long as no call fails.
\<close>

theorem gateway_invariant:
  assumes "gateway_reachable cfg g"
  shows "reg_ok (reg (g_world g)) \<and> db_ok (db (g_world g)) \<and> pool_in_use (g_world g) = 0 \<and>
    int (card (dom (g_conns g))) \<le> connection_count (g_world g) \<and>
    connection_count (g_world g) \<le> max 0 (cfg_max_connections cfg) \<and>
    (healthy (g_world g) \<longrightarrow> connection_count (g_world g) = int (card (dom (g_conns g))))"
  using gateway_reachable_ok [OF assms] by (simp add: gateway_ok_def world_ok_def slots_ok_def)

definition sample_gateway :: gateway where
  "sample_gateway =
     \<lparr> g_world = (start_world empty_database) \<lparr> connection_count := 1 \<rparr>, g_conns = [7 \<mapsto> Probing []] \<rparr>"

lemma sample_gateway_reachable: "gateway_reachable default_config sample_gateway"
proof -
  have "gateway_reachable default_config \<lparr> g_world = start_world empty_database, g_conns = Map.empty \<rparr>"
    by (rule gateway_reachable.start) (simp_all add: db_ok_def stored_rows_ok_def empty_database_def)
  moreover have "gateway_step default_config \<lparr> g_world = start_world empty_database, g_conns = Map.empty \<rparr>
      sample_gateway"
    unfolding sample_gateway_def
    by (rule gateway_step.accept)
      (simp_all add: fresh_socket_def start_world_def empty_registry_def try_acquire_slot_def default_config_def)
  ultimately show ?thesis by (rule gateway_reachable.step)
qed

theorem gateway_invariant_witness: "connection_count (g_world sample_gateway) = 1 \<and> db_ok (db (g_world sample_gateway))"
  using gateway_invariant [OF sample_gateway_reachable] by (simp add: sample_gateway_def)

text \<open>
  C22. No connection makes the gateway hoard memory: in every reachable state a connection that has
  not been recognised holds fewer than five bytes, and one that has belongs to an enabled family and
  holds less than one frame of it, within the family's limit, which yields nothing until more arrives.
\<close>

theorem buffers_bounded:
  assumes "gateway_reachable cfg g" and "g_conns g s = Some ph"
  shows "(\<forall>data. ph = Probing data \<longrightarrow> length data < 5) \<and>
    (\<forall>fam imei buffer. ph = Serving fam imei buffer \<longrightarrow>
       fam \<in> cfg_enabled_protocols cfg \<and> framer_of cfg fam buffer = Inr ([], buffer) \<and>
       int (length buffer) \<le> buffer_limit cfg fam)"
proof -
  have "\<forall>s ph. g_conns g s = Some ph \<longrightarrow> phase_ok cfg ph"
    using assms(1)
  proof (induction rule: gateway_reachable.induct)
    case (step g g')
    from step.hyps(2) step.IH show ?case by (rule step_phases)
  qed simp
  with assms(2) have "phase_ok cfg ph" by blast
  then show ?thesis by auto
qed

theorem buffers_bounded_witness: "\<exists>data. g_conns sample_gateway 7 = Some (Probing data) \<and> length data < 5"
  using buffers_bounded [OF sample_gateway_reachable, of 7 "Probing []"] by (simp add: sample_gateway_def)

text \<open>A step moves at most one connection.\<close>

lemma step_one_connection:
  assumes "gateway_step cfg g g'"
  shows "\<exists>s. \<forall>t. t \<noteq> s \<longrightarrow> g_conns g' t = g_conns g t"
  using assms by (auto elim!: gateway_stepE)

section \<open>A connection run alone is a path of the gateway\<close>

abbreviation gateway_path :: "config \<Rightarrow> gateway \<Rightarrow> gateway \<Rightarrow> bool" where
  "gateway_path cfg \<equiv> (gateway_step cfg)\<^sup>*\<^sup>*"

lemma read_path:
  assumes "conns s = Some ph" and "conn_turn cfg s ip ph ev w = (Inr ph', w')"
    and "gateway_path cfg \<lparr> g_world = w', g_conns = conns(s \<mapsto> ph') \<rparr> g"
  shows "gateway_path cfg \<lparr> g_world = w, g_conns = conns \<rparr> g"
proof (rule converse_rtranclp_into_rtranclp [OF _ assms(3)])
  show "gateway_step cfg \<lparr> g_world = w, g_conns = conns \<rparr> \<lparr> g_world = w', g_conns = conns(s \<mapsto> ph') \<rparr>"
    using assms(1,2) by (rule gateway_step.read)
qed

lemma ended_path:
  assumes "run_connection cfg s ip (Ending j) evs w = (Inr i, w')" and "conns s = Some (Ending j)"
  shows "gateway_path cfg \<lparr> g_world = w, g_conns = conns \<rparr> \<lparr> g_world = w', g_conns = conns(s \<mapsto> Ending i) \<rparr>"
proof -
  from assms(1) have "j = i" "w' = w" by simp_all
  moreover from this assms(2) have "conns(s \<mapsto> Ending i) = conns" by (intro fun_upd_idem) simp
  ultimately show ?thesis by simp
qed

lemma end_of_stream: "conn_turn cfg s ip ph (Data []) w = (Inr ph', w') \<Longrightarrow> (\<exists>i. ph' = Ending i) \<or> (\<exists>d. ph = Probing d)"
  by (cases ph) auto

lemma end_of_stream_probing:
  "conn_turn cfg s ip (Probing d) (Data []) w = (Inr ph', w') \<Longrightarrow> (\<forall>d'. ph' \<noteq> Probing d')"
  by (auto simp: open_stream_def run_batch_def bindM_def split: if_splits option.splits sum.splits prod.splits)

lemma run_connection_path:
  assumes "run_connection cfg s ip ph evs w = (Inr i, w')" and "conns s = Some ph"
  shows "gateway_path cfg \<lparr> g_world = w, g_conns = conns \<rparr> \<lparr> g_world = w', g_conns = conns(s \<mapsto> Ending i) \<rparr>"
  using assms
proof (induction evs arbitrary: ph w conns)
  case Nil
  show ?case
  proof (cases "\<exists>j. ph = Ending j")
    case True
    with Nil show ?thesis using ended_path by blast
  next
    case False
    obtain ph1 w1 where 1: "conn_turn cfg s ip ph (Data []) w = (Inr ph1, w1)" using conn_turn_returns by blast
    obtain ph2 w2 where 2: "conn_turn cfg s ip ph1 (Data []) w1 = (Inr ph2, w2)" using conn_turn_returns by blast
    show ?thesis
    proof (cases "\<exists>j. ph1 = Ending j")
      case True
      with Nil(1) 1 False have "w' = w1" "ph1 = Ending i"
        by (cases ph; auto simp: bindM_def simp del: conn_turn.simps)+
      with read_path [where s = s and conns = conns, OF Nil(2) 1] show ?thesis by blast
    next
      case ne: False
      then obtain d where "ph = Probing d" using end_of_stream [OF 1] by blast
      with end_of_stream_probing 1 ne obtain j where j: "ph2 = Ending j" using end_of_stream [OF 2] by blast
      with Nil(1) 1 2 ne False have "w' = w2" "j = i"
        by (cases ph; cases ph1; auto simp: bindM_def simp del: conn_turn.simps)+
      with j have "gateway_path cfg \<lparr> g_world = w2, g_conns = (conns(s \<mapsto> ph1))(s \<mapsto> ph2) \<rparr>
          \<lparr> g_world = w', g_conns = conns(s \<mapsto> Ending i) \<rparr>"
        by (simp only: fun_upd_upd rtranclp.rtrancl_refl)
      from read_path [where s = s, OF _ 2 this]
      have "gateway_path cfg \<lparr> g_world = w1, g_conns = conns(s \<mapsto> ph1) \<rparr> \<lparr> g_world = w', g_conns = conns(s \<mapsto> Ending i) \<rparr>"
        by simp
      with read_path [where s = s and conns = conns, OF Nil(2) 1] show ?thesis by blast
    qed
  qed
next
  case (Cons ev evs)
  show ?case
  proof (cases "\<exists>j. ph = Ending j")
    case True
    with Cons.prems show ?thesis using ended_path by blast
  next
    case False
    obtain ph1 w1 where 1: "conn_turn cfg s ip ph ev w = (Inr ph1, w1)" using conn_turn_returns by blast
    with Cons.prems(1) False have "run_connection cfg s ip ph1 evs w1 = (Inr i, w')"
      by (cases ph) (auto simp: bindM_def simp del: conn_turn.simps)
    from Cons.IH [OF this, of "conns(s \<mapsto> ph1)"]
    have "gateway_path cfg \<lparr> g_world = w1, g_conns = conns(s \<mapsto> ph1) \<rparr> \<lparr> g_world = w', g_conns = conns(s \<mapsto> Ending i) \<rparr>"
      by (simp only: fun_upd_same fun_upd_upd simp_thms)
    then show ?thesis by (rule read_path [where s = s and conns = conns, OF Cons.prems(2) 1])
  qed
qed

text \<open>
  The step relation covers the coroutine: a connection run from its acceptance to its end, alone
  and on any reads, is a path of the gateway that leads from the state before it to the state after
  it, with the same other connections. What holds of all reachable states holds after it.
\<close>

lemma connection_refines_gateway:
  assumes "s \<notin> dom conns" and "fresh_socket s w" and "handle_device cfg s ip evs w = (r, w')"
  shows "gateway_path cfg \<lparr> g_world = w, g_conns = conns \<rparr> \<lparr> g_world = w', g_conns = conns \<rparr>"
proof (cases "connection_count w \<ge> cfg_max_connections cfg")
  case True
  then have "try_acquire_slot cfg w = (Inr False, w)" by (simp add: try_acquire_slot_def)
  moreover from this assms(3) have "w' = snd (close_socket s w)" by (simp add: handle_device_def bindM_def)
  ultimately show ?thesis using gateway_step.refuse [OF assms(1,2)] by fastforce
next
  case False
  define w0 where "w0 = w \<lparr> connection_count := connection_count w + 1 \<rparr>"
  from False have a: "try_acquire_slot cfg w = (Inr True, w0)" by (simp add: try_acquire_slot_def w0_def)
  obtain i w1 where c: "run_connection cfg s ip (Probing []) evs w0 = (Inr i, w1)"
    using run_connection_returns by blast
  with assms(3) a have f: "cleanup s i w1 = (r, w')" by (simp add: handle_device_def bindM_def)
  have "gateway_path cfg \<lparr> g_world = w0, g_conns = conns(s \<mapsto> Probing []) \<rparr>
      \<lparr> g_world = w1, g_conns = (conns(s \<mapsto> Probing []))(s \<mapsto> Ending i) \<rparr>"
    using c by (rule run_connection_path) simp
  moreover have "gateway_step cfg \<lparr> g_world = w1, g_conns = (conns(s \<mapsto> Probing []))(s \<mapsto> Ending i) \<rparr>
      \<lparr> g_world = w', g_conns = ((conns(s \<mapsto> Probing []))(s \<mapsto> Ending i))(s := None) \<rparr>"
    using f by (rule gateway_step.finish [rotated]) (rule fun_upd_same)
  moreover have "((conns(s \<mapsto> Probing []))(s \<mapsto> Ending i))(s := None) = conns"
    using assms(1) by (simp only: fun_upd_upd) (rule fun_upd_idem, blast)
  moreover have "gateway_step cfg \<lparr> g_world = w, g_conns = conns \<rparr> \<lparr> g_world = w0, g_conns = conns(s \<mapsto> Probing []) \<rparr>"
    using assms(1,2) a by (rule gateway_step.accept)
  ultimately show ?thesis
    by (metis converse_rtranclp_into_rtranclp rtranclp.rtrancl_into_rtrancl)
qed

end
