(* ===== verification/Startup.thy ===== *)
theory Startup
  imports Config Effects
begin

text \<open>
  The start and the end of the process: database.py's pool as the state of a module, the Command API's
  thread, and \<^verbatim>\<open>main()\<close> of tcp_server.py. What the operating system and the database answer to the
  attempts of the start is given as \<open>site\<close>; what runs while the listener serves is the gateway of
  theory \<open>Server\<close>.
\<close>

section \<open>The process\<close>

record pool =
  pl_min :: int
  pl_max :: int

record process =
  pr_pool :: "pool option"
  pr_loop :: bool
  pr_api :: bool
  pr_listening :: bool
  pr_poller :: bool

type_synonym 'a boot = "(process, 'a) io"

record site =
  si_db_reachable :: bool
  si_api_port_free :: bool
  si_port_free :: bool
  si_pool_closes :: bool

definition idle_process :: process where
  "idle_process = \<lparr> pr_pool = None, pr_loop = False, pr_api = False, pr_listening = False, pr_poller = False \<rparr>"

section \<open>The pool\<close>

text \<open>\<^verbatim>\<open>DB_POOL_MIN\<close> and \<^verbatim>\<open>DB_POOL_MAX\<close>, converted when the module is imported.\<close>

definition pool_sizes :: "environ \<Rightarrow> (int \<times> int) result" where
  "pool_sizes env =
     bindR (getenv_int env ''DB_POOL_MIN'' ''5'') (\<lambda>mn.
     bindR (getenv_int env ''DB_POOL_MAX'' ''150'') (\<lambda>mx. Inr (mn, mx)))"

definition database_url :: "environ \<Rightarrow> string option" where
  "database_url env = (case env ''DATABASE_URL'' of None \<Rightarrow> None | Some u \<Rightarrow> if u = '''' then None else Some u)"

definition init_pool :: "environ \<Rightarrow> int \<times> int \<Rightarrow> site \<Rightarrow> pool boot" where
  "init_pool env sizes site =
     bindM (getsM pr_pool) (\<lambda>current.
       case current of
         Some p \<Rightarrow> ret p
       | None \<Rightarrow>
           (if database_url env = None then raise RuntimeError
            else if \<not> si_db_reachable site then raise DbError
            else (let p = \<lparr> pl_min = fst sizes, pl_max = snd sizes \<rparr>
                  in thenM (modifyM (\<lambda>pr. pr \<lparr> pr_pool := Some p \<rparr>)) (ret p))))"

definition get_pool :: "pool boot" where
  "get_pool = bindM (getsM pr_pool) (\<lambda>p. case p of None \<Rightarrow> raise RuntimeError | Some q \<Rightarrow> ret q)"

definition close_pool :: "site \<Rightarrow> unit boot" where
  "close_pool site =
     bindM (getsM pr_pool) (\<lambda>p.
       whenM (p \<noteq> None)
         (if si_pool_closes site then modifyM (\<lambda>pr. pr \<lparr> pr_pool := None \<rparr>) else raise DbError))"

section \<open>The Command API's thread\<close>

text \<open>Without a key the API is not served at all; an exception ends its thread, not the process.\<close>

definition start_command_api :: "string \<Rightarrow> site \<Rightarrow> unit boot" where
  "start_command_api key site =
     (if key = '''' then ret ()
      else if \<not> si_api_port_free site then raise OSError
      else modifyM (\<lambda>pr. pr \<lparr> pr_api := True \<rparr>))"

definition start_command_api_thread :: "string \<Rightarrow> site \<Rightarrow> unit boot" where
  "start_command_api_thread key site =
     thenM (modifyM (\<lambda>pr. pr \<lparr> pr_loop := True \<rparr>)) (tryM (start_command_api key site) (\<lambda>_. ret ()))"

section \<open>main()\<close>

definition start_server :: "site \<Rightarrow> unit boot" where
  "start_server site =
     (if si_port_free site then modifyM (\<lambda>pr. pr \<lparr> pr_listening := True \<rparr>) else raise OSError)"

definition start_poller :: "config \<Rightarrow> unit boot" where
  "start_poller cfg =
     whenM (GPS103 \<in> cfg_enabled_protocols cfg \<and> cfg_poll_seconds cfg \<noteq> 0)
       (modifyM (\<lambda>pr. pr \<lparr> pr_poller := True \<rparr>))"

text \<open>Everything before the listener serves.\<close>

definition boot :: "config \<Rightarrow> environ \<Rightarrow> int \<times> int \<Rightarrow> string \<Rightarrow> site \<Rightarrow> unit boot" where
  "boot cfg env sizes key site =
     bindM (init_pool env sizes site) (\<lambda>_.
     thenM (start_command_api_thread key site)
     (thenM (start_server site) (start_poller cfg)))"

text \<open>
  Leaving \<^verbatim>\<open>async with server\<close> closes the listener, as asyncio documents; then the \<^verbatim>\<open>finally\<close> block.
\<close>

definition serve :: "unit result \<Rightarrow> unit boot" where
  "serve ending = thenM (modifyM (\<lambda>pr. pr \<lparr> pr_listening := False \<rparr>)) (liftR ending)"

definition shut_down :: "site \<Rightarrow> unit boot" where
  "shut_down site = thenM (modifyM (\<lambda>pr. pr \<lparr> pr_poller := False \<rparr>)) (close_pool site)"

definition main :: "config \<Rightarrow> environ \<Rightarrow> int \<times> int \<Rightarrow> string \<Rightarrow> site \<Rightarrow> unit result \<Rightarrow> unit boot" where
  "main cfg env sizes key site ending =
     thenM (boot cfg env sizes key site) (finallyM (serve ending) (shut_down site))"

section \<open>Facts\<close>

lemma idle_process_parts: "pr_pool idle_process = None" "\<not> pr_listening idle_process"
  "\<not> pr_poller idle_process" "\<not> pr_api idle_process"
  by (simp_all add: idle_process_def)

text \<open>Once made, the pool is the pool: a second \<^verbatim>\<open>init_pool()\<close> returns the first one.\<close>

lemma init_pool_once: "init_pool env sizes site pr = (Inr p, pr') \<Longrightarrow> init_pool env' sizes' site' pr' = (Inr p, pr')"
  by (auto simp: init_pool_def bindM_def thenM_def Let_def split: option.splits if_splits)

lemma get_pool_after_init: "init_pool env sizes site pr = (Inr p, pr') \<Longrightarrow> get_pool pr' = (Inr p, pr')"
  by (auto simp: init_pool_def get_pool_def bindM_def thenM_def Let_def split: option.splits if_splits)

lemma get_pool_after_close: "close_pool site pr = (Inr (), pr') \<Longrightarrow> get_pool pr' = (Inl RuntimeError, pr')"
  by (auto simp: close_pool_def get_pool_def bindM_def whenM_def split: if_splits option.splits)

lemma boot_run:
  "boot cfg env sizes key site idle_process =
     (if database_url env = None then (Inl RuntimeError, idle_process)
      else if \<not> si_db_reachable site then (Inl DbError, idle_process)
      else (let st = \<lparr> pr_pool = Some \<lparr> pl_min = fst sizes, pl_max = snd sizes \<rparr>, pr_loop = True,
                       pr_api = (key \<noteq> '''' \<and> si_api_port_free site), pr_listening = False, pr_poller = False \<rparr>
            in if \<not> si_port_free site then (Inl OSError, st)
               else (Inr (), st \<lparr> pr_listening := True,
                       pr_poller := (GPS103 \<in> cfg_enabled_protocols cfg \<and> cfg_poll_seconds cfg \<noteq> 0) \<rparr>)))"
  by (simp add: boot_def init_pool_def start_command_api_thread_def start_command_api_def start_server_def
      start_poller_def idle_process_def bindM_def thenM_def tryM_def whenM_def Let_def)

section \<open>Properties\<close>

text \<open>
  C38. The process listens exactly when it has a database address, the database answers and the port
  is free; it never listens without a pool; the Command API is served only with a key; the poller
  runs only when it is configured. Serving ends with the poller cancelled and the exception it ended
  with, or the one of closing the pool. The pool outlives \<^verbatim>\<open>main()\<close> in two cases: the port was
  taken, when \<^verbatim>\<open>main()\<close> fails between \<^verbatim>\<open>init_pool()\<close> and its \<^verbatim>\<open>try\<close>, and a pool that does not close.
\<close>

theorem startup_fails_closed:
  assumes "boot cfg env sizes key site idle_process = (r, st)"
    and "main cfg env sizes key site ending idle_process = (r', st')"
  shows "(r = Inr () \<longleftrightarrow> database_url env \<noteq> None \<and> si_db_reachable site \<and> si_port_free site) \<and>
    (pr_listening st \<longleftrightarrow> r = Inr ()) \<and> (pr_listening st \<longrightarrow> pr_pool st \<noteq> None) \<and>
    (pr_api st \<longrightarrow> key \<noteq> '''') \<and>
    (pr_poller st \<longleftrightarrow> r = Inr () \<and> GPS103 \<in> cfg_enabled_protocols cfg \<and> cfg_poll_seconds cfg \<noteq> 0) \<and>
    \<not> pr_poller st' \<and>
    r' = (case r of Inl e \<Rightarrow> Inl e | Inr _ \<Rightarrow> if si_pool_closes site then ending else Inl DbError) \<and>
    (pr_pool st' \<noteq> None \<longleftrightarrow> database_url env \<noteq> None \<and> si_db_reachable site \<and>
       (\<not> si_port_free site \<or> \<not> si_pool_closes site))"
  using assms
  by (auto simp: main_def boot_run serve_def shut_down_def close_pool_def finallyM_def thenM_def bindM_def
      whenM_def Let_def idle_process_parts split: if_splits)

definition good_site :: site where
  "good_site = \<lparr> si_db_reachable = True, si_api_port_free = True, si_port_free = True, si_pool_closes = True \<rparr>"

definition taken_port :: site where
  "taken_port = good_site \<lparr> si_port_free := False \<rparr>"

text \<open>A start that succeeds without a key, and one that finds the port taken.\<close>

theorem startup_fails_closed_witness:
  "pr_listening (snd (boot default_config [''DATABASE_URL'' \<mapsto> ''postgres''] (5, 150) '''' good_site idle_process)) \<and>
   \<not> pr_api (snd (boot default_config [''DATABASE_URL'' \<mapsto> ''postgres''] (5, 150) '''' good_site idle_process)) \<and>
   pr_pool (snd (main default_config [''DATABASE_URL'' \<mapsto> ''postgres''] (5, 150) '''' taken_port (Inr ()) idle_process)) \<noteq> None"
  using startup_fails_closed [OF surjective_pairing surjective_pairing,
      of default_config "[''DATABASE_URL'' \<mapsto> ''postgres'']" "(5, 150)" "''''" good_site "Inr ()"]
    startup_fails_closed [OF surjective_pairing surjective_pairing,
      of default_config "[''DATABASE_URL'' \<mapsto> ''postgres'']" "(5, 150)" "''''" taken_port "Inr ()"]
  by (simp add: database_url_def good_site_def taken_port_def)

end
