(* ===== verification/Logins.thy ===== *)
theory Logins
  imports Gateway
begin

text \<open>
  Logging in, in the three families alike: the tables are asked for the IMEI, the registry takes the
  socket, and the device is answered. When no call fails nothing keeps an admitted device out.
\<close>

section \<open>The claim of a frame and the answer to it\<close>

fun claim_of :: "family \<Rightarrow> bytes \<Rightarrow> string option" where
  "claim_of GT06 = gt06_claim"
| "claim_of GPS103 = gps103_claim"
| "claim_of TELTONIKA = teltonika_claim"

fun login_reply :: "family \<Rightarrow> bytes \<Rightarrow> bytes result" where
  "login_reply GT06 raw = build_ack raw"
| "login_reply GPS103 raw = Inr LOGIN_REPLY"
| "login_reply TELTONIKA raw = Inr LOGIN_ACCEPT"

text \<open>What a login leaves behind: the session, and everything said on other sockets as it was.\<close>

definition logged_in :: "family \<Rightarrow> sock \<Rightarrow> string \<Rightarrow> string \<Rightarrow> string \<Rightarrow> world \<Rightarrow> world \<Rightarrow> bool" where
  "logged_in fam s ip imei dev w w' \<longleftrightarrow>
     (\<exists>k1 k2. k1 < calls w' \<and> reg w' = register_device imei ip dev s fam (clock w k1) (clock w k2) (reg w)) \<and>
     closing w' = closing w \<and> healthy w' \<and> clock w' = clock w \<and> calls w \<le> calls w'"

lemma tick_more [simp]: "clock (tick w) = clock w" "calls (tick w) = Suc (calls w)"
  by (simp_all add: tick_def)

text \<open>The clock is the world's own and only goes forward.\<close>

definition since :: "(nat \<Rightarrow> datetime) \<Rightarrow> nat \<Rightarrow> world \<Rightarrow> bool" where
  "since c n w \<longleftrightarrow> clock w = c \<and> n \<le> calls w"

lemma since_parts [simp]: "session_inv (since c n)" "net_inv (since c n)" "cache_inv (since c n)"
  by (simp_all add: session_inv_def net_inv_def cache_inv_def since_def tick_def)

lemma register_runs:
  "\<exists>v. reg_register imei ip dev s fam w = (Inr (), v) \<and>
     reg v = register_device imei ip dev s fam (clock w (calls w)) (clock w (Suc (calls w))) (reg w) \<and>
     sent v = sent w \<and> closing v = closing w \<and> outcomes v = outcomes w \<and>
     clock v = clock w \<and> calls v = Suc (Suc (calls w))"
  by (simp add: reg_register_def bindM_def now_utc_def with_reg_def tick_def)

text \<open>A device with an identifier of its own that the tables know and do not refuse.\<close>

definition known_device :: "database \<Rightarrow> string \<Rightarrow> string \<Rightarrow> bool" where
  "known_device d imei dev \<longleftrightarrow> admitted d imei \<and> map_option gd_device_id (gps_devices d imei) = Some dev \<and> dev \<noteq> ''''"

lemma query_quiet:
  assumes "get_device_by_imei imei p m w = (r, w1)"
  shows "reg w1 = reg w \<and> sent w1 = sent w \<and> closing w1 = closing w \<and> outcomes w1 = outcomes w \<and>
    clock w1 = clock w \<and> calls w \<le> calls w1"
proof -
  have k: "session_inv I \<Longrightarrow> I w \<Longrightarrow> I w1" for I
    using keepsD2 [OF tables_onlyD(1) [OF tables_only_query(1)] assms] by blast
  from k [of "on_reg (\<lambda>x. x = reg w)"] k [of "on_net (\<lambda>a c. a = sent w \<and> c = closing w)"]
    k [of "oracle_is (outcomes w)"] k [of "since (clock w) (calls w)"]
  show ?thesis by (simp add: part_defs since_def)
qed

text \<open>Up to the registration the three logins are one.\<close>

lemma login_accepts:
  assumes "healthy w" and "known_device (db w) imei dev"
  shows "\<exists>v. bindM (get_device_by_imei imei p m) (\<lambda>device_id. case device_id of None \<Rightarrow> a
        | Some d \<Rightarrow> if d = [] then b else thenM (reg_register imei ip d s fam) (k d)) w = k dev v \<and>
    logged_in fam s ip imei dev w v \<and> sent v = sent w"
proof -
  obtain r w1 where q: "get_device_by_imei imei p m w = (Inr r, w1)" and "r = Some dev"
    using get_device_healthy [OF assms(1), of imei p m] assms(2) by (auto simp: known_device_def)
  moreover obtain v where "reg_register imei ip dev s fam w1 = (Inr (), v)"
    "reg v = register_device imei ip dev s fam (clock w1 (calls w1)) (clock w1 (Suc (calls w1))) (reg w1)"
    "sent v = sent w1" "closing v = closing w1" "outcomes v = outcomes w1"
    "clock v = clock w1" "calls v = Suc (Suc (calls w1))"
    using register_runs by blast
  moreover have "dev \<noteq> []" using assms(2) by (simp add: known_device_def)
  moreover have "\<exists>k1 k2. k1 < calls v \<and>
      reg v = register_device imei ip dev s fam (clock w k1) (clock w k2) (reg w)"
    using calculation(4,9) query_quiet [OF q]
    by (intro exI [of _ "calls w1"] exI [of _ "Suc (calls w1)"]) simp
  ultimately show ?thesis
    using query_quiet [OF q] assms(1)
    by (intro exI [of _ v]) (simp add: bindM_def thenM_def logged_in_def healthy_def)
qed

lemma logged_in_mono:
  assumes "logged_in fam s ip imei dev w v" and "reg v' = reg v" "closing v' = closing v" "outcomes v' = outcomes v"
    "clock v' = clock v" "calls v \<le> calls v'"
  shows "logged_in fam s ip imei dev w v'"
  using assms unfolding logged_in_def healthy_def by (metis le_trans less_le_trans)

text \<open>What follows the registration leaves the session alone.\<close>

lemma logged_in_after:
  assumes "logged_in fam s ip imei dev w v" and "k v = (r, w')"
    and "\<And>R. keeps (on_reg R) k" "\<And>c. keeps (on_net (\<lambda>_ x. x = c)) k" "\<And>f. keeps (oracle_is f) k"
    and "\<And>c n. keeps (since c n) k"
  shows "logged_in fam s ip imei dev w w'"
proof -
  have "reg w' = reg v" "closing w' = closing v" "outcomes w' = outcomes v" "clock w' = clock v" "calls v \<le> calls w'"
    using keepsD2 [OF assms(3,2), of "\<lambda>x. x = reg v"] keepsD2 [OF assms(4,2), of "closing v"]
      keepsD2 [OF assms(5,2), of "outcomes v"] keepsD2 [OF assms(6,2), of "clock v" "calls v"]
    by (simp_all add: part_defs since_def)
  with assms(1) show ?thesis by (rule logged_in_mono)
qed

section \<open>The three logins\<close>

lemma gt06_login_runs:
  assumes "healthy w" and "known_device (db w) imei dev" and "login_imei (parse_login_packet raw) = imei"
  shows "\<exists>w'. gt06_login cfg p raw s ip w = (Inr (Some imei), w') \<and>
    logged_in GT06 s ip imei dev w w' \<and> sent w' = sent w"
proof -
  let ?k = "\<lambda>dev. thenM (save_raw cfg dev p raw True True) (bindM (get_vehicle_by_device dev) (\<lambda>vehicle_id.
      thenM (create_event dev vehicle_id ''DEVICE_ONLINE'' LOW None None
        ''Device connected to the gateway'' []) (ret (Some imei))))"
  obtain v where v: "gt06_login cfg p raw s ip w = ?k dev v" "logged_in GT06 s ip imei dev w v" "sent v = sent w"
    using login_accepts [OF assms(1,2), of "''GT06''" gt06_model "ret None" "ret None" ip s GT06 ?k]
    unfolding gt06_login_def Let_def assms(3) by blast
  have "reliable (?k dev)" by (intro reliable_intros)
  then obtain x w' where k: "?k dev v = (Inr x, w')" using v(2) by (auto simp: reliable_def logged_in_def)
  then have "x = Some imei" by (auto simp: thenM_def bindM_eq_Inr_iff)
  moreover have keep: "session_inv I \<Longrightarrow> keeps I (?k dev)" for I
    by (intro keeps_thenM keeps_bindM keeps_ret keeps_tables)
  have "logged_in GT06 s ip imei dev w w'"
    by (rule logged_in_after [where k = "?k dev", OF v(2) k]) (intro keep session_inv_parts since_parts)+
  moreover have "sent w' = sent w"
    using keepsD2 [OF keep k, of "on_sent (sent v)"] v(3) by (simp add: on_sent_def)
  ultimately show ?thesis using v(1) k by auto
qed

lemma announce_never_raises: "never_raises (announce_online cfg p dev raw)"
  unfolding announce_online_def vehicle_or_none_def thenM_def safely_def
  by (intro never_raises_bindM never_raises_tryM never_raises_ret)

text \<open>The reply of the two other families and what is written to the tables after it.\<close>

lemma reply_runs:
  assumes "logged_in fam s ip imei dev w v" and "sent v = sent w" and "s \<notin> closing w"
  shows "\<exists>w'. thenM (send_reply s reply) (thenM (announce_online cfg p dev raw) (ret (Some imei))) v =
      (Inr (Some imei), w') \<and> logged_in fam s ip imei dev w w' \<and>
    sent w' = (sent w)(s := sent w s @ [reply])"
proof -
  let ?v = "snd (send_reply s reply v)"
  have reply: "send_reply s reply v = (Inr (), ?v)" "sent ?v = (sent w)(s := sent w s @ [reply])"
    "logged_in fam s ip imei dev w ?v"
  proof -
    have h: "healthy v" and c: "closing v = closing w" using assms(1) by (simp_all add: logged_in_def)
    then show "send_reply s reply v = (Inr (), ?v)" "sent ?v = (sent w)(s := sent w s @ [reply])"
      using assms(2,3) by (auto simp: send_reply_def tryM_def write_drain_def healthy_external push_bytes_def)
    show "logged_in fam s ip imei dev w ?v"
      by (rule logged_in_mono [OF assms(1)])
        (use h c assms(3) in \<open>auto simp: send_reply_def tryM_def write_drain_def healthy_external push_bytes_def\<close>)
  qed
  let ?k = "thenM (announce_online cfg p dev raw) (ret (Some imei))"
  obtain w' where k: "?k ?v = (Inr (Some imei), w')"
  proof -
    obtain u w' where "announce_online cfg p dev raw ?v = (Inr u, w')"
      using announce_never_raises [of cfg p dev raw] unfolding never_raises_def by blast
    with that show ?thesis by (simp add: thenM_def bindM_def)
  qed
  have keep: "session_inv I \<Longrightarrow> keeps I ?k" for I
    by (intro keeps_thenM keeps_ret announce_online_keeps keeps_tables)
  have "logged_in fam s ip imei dev w w'"
    by (rule logged_in_after [where k = ?k, OF reply(3) k]) (intro keep session_inv_parts since_parts)+
  moreover have "sent w' = sent ?v"
    using keepsD2 [OF keep k, of "on_sent (sent ?v)"] by (simp add: on_sent_def)
  ultimately show ?thesis
    using reply k thenM_Inr [where m = "send_reply s reply" and s = v and k = ?k, OF reply(1)] by auto
qed

lemma gps103_login_runs:
  assumes "healthy w" and "known_device (db w) imei dev" and "gps103_parse_login text = Inr imei"
    and "s \<notin> closing w"
  shows "\<exists>w'. gps103_login cfg text raw s ip w = (Inr (Some imei), w') \<and>
    logged_in GPS103 s ip imei dev w w' \<and> sent w' = (sent w)(s := sent w s @ [LOGIN_REPLY])"
proof -
  let ?k = "\<lambda>dev. thenM (send_reply s LOGIN_REPLY) (thenM (announce_online cfg ''GPS103'' dev raw) (ret (Some imei)))"
  let ?no = "thenM (close_socket s) (ret None)"
  obtain v where v: "gps103_login cfg text raw s ip w = ?k dev v" "logged_in GPS103 s ip imei dev w v" "sent v = sent w"
    using login_accepts [OF assms(1,2), of "''GPS103''" gps103_model ?no ?no ip s GPS103 ?k] assms(3)
    by (auto simp: gps103_login_def bindM_def)
  from reply_runs [OF v(2,3) assms(4)] show ?thesis unfolding v(1) by blast
qed

lemma teltonika_accept_runs:
  assumes "healthy w" and "known_device (db w) imei dev" and "s \<notin> closing w"
  shows "\<exists>w'. teltonika_accept cfg imei raw s ip w = (Inr (Some imei), w') \<and>
    logged_in TELTONIKA s ip imei dev w w' \<and> sent w' = (sent w)(s := sent w s @ [LOGIN_ACCEPT])"
proof -
  let ?k = "\<lambda>dev. thenM (forget_device dev) (thenM (send_reply s LOGIN_ACCEPT)
      (thenM (announce_online cfg ''TELTONIKA'' dev raw) (ret (Some imei))))"
  let ?no = "thenM (close_socket s) (ret None)"
  obtain v where v: "teltonika_accept cfg imei raw s ip w = ?k dev v"
    "logged_in TELTONIKA s ip imei dev w v" "sent v = sent w"
    using login_accepts [OF assms(1,2), of "''TELTONIKA''" teltonika_model ?no ?no ip s TELTONIKA ?k]
    unfolding teltonika_accept_def by blast
  let ?v = "snd (forget_device dev v)"
  have f: "forget_device dev v = (Inr (), ?v)" "logged_in TELTONIKA s ip imei dev w ?v" "sent ?v = sent w"
    using v(2,3) by (auto simp: forget_device_def logged_in_def healthy_def)
  have "?k dev v = thenM (send_reply s LOGIN_ACCEPT)
      (thenM (announce_online cfg ''TELTONIKA'' dev raw) (ret (Some imei))) ?v"
    by (rule thenM_Inr [where m = "forget_device dev" and s = v, OF f(1)])
  with reply_runs [OF f(2,3) assms(3)] v(1) show ?thesis by simp
qed

section \<open>The handler\<close>

lemma gt06_ack_runs:
  assumes "build_ack raw = Inr a" and "healthy w" and "s \<notin> closing w"
  shows "gt06_ack raw s w = (Inr (), (tick w) \<lparr> sent := (sent w)(s := sent w s @ [a]) \<rparr>)"
  using assms by (simp add: gt06_ack_def bindM_def tryM_def write_drain_def healthy_external push_bytes_def)

lemma login_runs:
  assumes "healthy w" and "known_device (db w) imei dev" and "claim_of fam raw = Some imei"
    and "login_reply fam raw = Inr reply" and "s \<notin> closing w"
  shows "\<exists>w'. handler_of fam cfg raw s ip w = (Inr (Some imei), w') \<and>
    logged_in fam s ip imei dev w w' \<and> sent w' = (sent w)(s := sent w s @ [reply])"
proof (cases fam)
  case GT06
  with assms(3) have p: "gt06_protocol raw = Inr (Some ''01'')" and i: "login_imei (parse_login_packet raw) = imei"
    by (auto simp: gt06_claim_def split: if_splits)
  from gt06_login_runs [OF assms(1,2) i] obtain w1 where
    l: "gt06_login cfg ''01'' raw s ip w = (Inr (Some imei), w1)"
      "logged_in GT06 s ip imei dev w w1" "sent w1 = sent w" by blast
  let ?w2 = "(tick w1) \<lparr> sent := (sent w1)(s := sent w1 s @ [reply]) \<rparr>"
  have ack: "gt06_ack raw s w1 = (Inr (), ?w2)"
    using assms(4,5) l(2) GT06 by (intro gt06_ack_runs) (simp_all add: logged_in_def)
  have "process_packet cfg raw s ip w = (Inr (Some imei), ?w2)"
    using l(1) ack thenM_Inr [where m = "gt06_ack raw s" and s = w1 and k = "ret (Some imei)", OF ack]
    by (simp add: process_packet_def p bindM_def reg_imei_of_def tryM_def gt06_branch_def)
  moreover have "logged_in GT06 s ip imei dev w ?w2" by (rule logged_in_mono [OF l(2)]) simp_all
  ultimately show ?thesis using l(3) GT06 by simp
next
  case GPS103
  with assms(3) obtain msg where k: "gps103_classify raw = (KLogin, msg)"
    and i: "gps103_parse_login msg = Inr imei"
    by (auto simp: gps103_claim_def split: prod.splits kind.splits sum.splits)
  from gps103_login_runs [OF assms(1,2) i assms(5), of cfg raw ip] k GPS103 assms(4) show ?thesis
    by (auto simp: process_gps103_message_def gps103_branch_def tryM_def)
next
  case TELTONIKA
  with assms(3) have "is_login_frame raw" "teltonika_parse_login raw = Inr imei"
    by (auto simp: teltonika_claim_def split: if_splits sum.splits)
  with teltonika_accept_runs [OF assms(1,2,5), of cfg raw ip] TELTONIKA assms(4) show ?thesis
    by (auto simp: process_teltonika_frame_def teltonika_branch_def teltonika_login_def tryM_def)
qed

text \<open>
  C16. No admitted device is kept out: in all three families, when no call fails, the login frame of a
  device that the tables know and do not refuse authenticates its socket as that device, takes the
  device's session over from whatever socket held it, leaves the socket open, and is answered with
  the reply its family expects and nothing else.
\<close>

theorem known_login_served:
  assumes "healthy w" and "known_device (db w) imei dev" and "claim_of fam raw = Some imei"
    and "login_reply fam raw = Inr reply" and "s \<notin> closing w"
  shows "\<exists>e w'. handler_of fam cfg raw s ip w = (Inr (Some imei), w') \<and>
    get_imei_by_socket (reg w') s = Some imei \<and> get_device (reg w') imei = Some e \<and>
    e_socket e = s \<and> e_device_id e = dev \<and> e_protocol e = fam \<and>
    s \<notin> closing w' \<and> sent w' = (sent w)(s := sent w s @ [reply])"
proof -
  obtain w' where w': "handler_of fam cfg raw s ip w = (Inr (Some imei), w')"
    "logged_in fam s ip imei dev w w'" "sent w' = (sent w)(s := sent w s @ [reply])"
    using login_runs [OF assms] by blast
  then obtain t1 t2 where r: "reg w' = register_device imei ip dev s fam t1 t2 (reg w)"
    and c: "closing w' = closing w"
    by (auto simp: logged_in_def)
  have "get_imei_by_socket (reg w') s = Some imei"
    using registry.auth_put_same [of imei "new_entry ip dev s fam t1 t2"] by (simp add: r register_device_def new_entry_def)
  moreover have "get_device (reg w') imei = Some (new_entry ip dev s fam t1 t2)"
    by (simp add: r register_device_def get_device_put)
  ultimately show ?thesis using w' c assms(5) by (auto simp: new_entry_def)
qed

section \<open>A login as the first bytes of a connection\<close>

lemma login_opens:
  assumes "healthy w" and "known_device (db w) imei dev" and "imei \<noteq> ''''"
    and "claim_of fam raw = Some imei" and "login_reply fam raw = Inr reply" and "s \<notin> closing w"
    and "detect_protocol data (cfg_enabled_protocols cfg) = Some fam"
    and "framer_of cfg fam data = Inr ([raw], [])" and "5 \<le> length data"
  shows "\<exists>k1 t2 t3 t4 w'. conn_turn cfg s ip (Probing []) (Data data) w = (Inr (Serving fam (Some imei) []), w') \<and>
    reg w' = mark_packet_received t4 (update_last_seen imei t3 (register_device imei ip dev s fam (clock w k1) t2 (reg w))) \<and>
    k1 < calls w' \<and> calls w \<le> calls w' \<and> clock w' = clock w \<and>
    sent w' = (sent w)(s := sent w s @ [reply]) \<and> closing w' = closing w \<and> healthy w'"
proof -
  obtain w1 where h: "handler_of fam cfg raw s ip w = (Inr (Some imei), w1)" "logged_in fam s ip imei dev w w1"
    "sent w1 = (sent w)(s := sent w s @ [reply])"
    using login_runs [OF assms(1,2,4-6)] by blast
  then obtain k1 k2 where r: "reg w1 = register_device imei ip dev s fam (clock w k1) (clock w k2) (reg w)" "k1 < calls w1"
      "closing w1 = closing w" "healthy w1" "clock w1 = clock w" "calls w \<le> calls w1"
    by (auto simp: logged_in_def)
  obtain w2 where seen: "handle_frame cfg fam s ip None raw w = (Inr (Some imei, True), w2)"
    and w2: "reg w2 = mark_packet_received (clock w1 (Suc (calls w1))) (update_last_seen imei (clock w1 (calls w1)) (reg w1))"
      "sent w2 = sent w1" "closing w2 = closing w1" "healthy w2" "clock w2 = clock w1" "calls w2 = Suc (Suc (calls w1))"
    using h(1) r(4) assms(3)
    by (simp add: handle_frame_def tryM_def bindM_def thenM_def reg_seen_def reg_mark_packet_def now_utc_def
        with_reg_def tick_def healthy_def)
  have "conn_turn cfg s ip (Probing []) (Data data) w = (Inr (Serving fam (Some imei) []), w2)"
    using assms(6-9) seen by (auto simp: open_stream_def run_batch_def bindM_def)
  with w2 r h(3) show ?thesis
    by (intro exI [of _ k1] exI [of _ "clock w k2"] exI [of _ "clock w1 (calls w1)"]
        exI [of _ "clock w1 (Suc (calls w1))"] exI [of _ w2]) auto
qed

definition known_database :: database where
  "known_database = empty_database
     \<lparr> gps_devices := [''123456789012345'' \<mapsto> \<lparr> gd_device_id = ''d1'', gd_sim_number = None, gd_device_model = ''V5'',
         gd_protocol_type = ''GT06'', gd_activation_status = 1 \<rparr>] \<rparr>"

lemma sample_login_claim: "gt06_claim sample_login = Some ''123456789012345''"
proof -
  have "login_imei (parse_login_packet sample_login) = ''123456789012345''" by code_simp
  then show ?thesis by (simp add: gt06_claim_def sample_login_protocol)
qed

lemma known_sample: "known_device known_database ''123456789012345'' ''d1''"
  by (simp add: known_device_def admitted_def known_database_def empty_database_def)

theorem known_login_served_witness:
  "\<exists>a e w'. build_ack sample_login = Inr a \<and>
     process_packet default_config sample_login 7 ''10.0.0.7'' (start_world known_database) =
       (Inr (Some ''123456789012345''), w') \<and>
     get_device (reg w') ''123456789012345'' = Some e \<and> e_socket e = 7 \<and> sent w' 7 = [a]"
proof -
  obtain a where a: "build_ack sample_login = Inr a" using build_ack_total [OF sample_login_frame] by blast
  from known_login_served [of "start_world known_database" "''123456789012345''" "''d1''" GT06 sample_login a 7
      default_config "''10.0.0.7''"]
  show ?thesis by (simp add: known_sample sample_login_claim a) fastforce
qed

end
