(* ===== verification/Sessions.thy ===== *)
theory Sessions
  imports Logins
begin

text \<open>
  The end of a connection at the grain of its \<^verbatim>\<open>await\<close>s. The \<^verbatim>\<open>finally\<close> block of
  \<^verbatim>\<open>handle_device\<close> waits for the database between the check that the registration is its own and
  the removal of it, and for the transport before it gives the slot back; \<open>session_step\<close> lets every
  other coroutine run in between. It refines \<open>gateway_step\<close>, whose \<open>finish\<close> is these steps in a
  row, keeps its invariant, and shows what the coarser grain hides.
\<close>

section \<open>The finally block in segments\<close>

text \<open>
  The check: the registration to tear down and the device to mark offline, if the entry of the
  connection's IMEI still holds its socket.
\<close>

definition departure :: "sock \<Rightarrow> string option \<Rightarrow> world \<Rightarrow> (string \<times> string) option" where
  "departure s imei w =
     (case cleanup_imei s imei w of
        None \<Rightarrow> None
      | Some i \<Rightarrow> if i = '''' then None
          else (case get_device (reg w) i of
                  None \<Rightarrow> None
                | Some e \<Rightarrow> if e_socket e = s then Some (i, e_device_id e) else None))"

definition drop_registration :: "sock \<Rightarrow> string \<Rightarrow> unit act" where
  "drop_registration s imei = thenM (with_reg (unregister_device imei)) (close_socket s)"

definition leave :: "unit act" where
  "leave = thenM (tryM wait_closed (\<lambda>_. ret ())) release_slot"

text \<open>Run without interruption the segments are the \<^verbatim>\<open>finally\<close> block.\<close>

lemma cleanup_segments:
  "cleanup s imei w =
     (case departure s imei w of
        None \<Rightarrow> thenM (close_socket s) leave w
      | Some (i, dev) \<Rightarrow> thenM (set_device_offline dev) (thenM (drop_registration s i) leave) w)"
  by (auto simp: cleanup_def teardown_def departure_def drop_registration_def leave_def reg_device_def
      bindM_def thenM_def split: option.split sum.split prod.split)

text \<open>
  What a connection is doing: running its read loop, waiting for the database to mark its device
  offline, about to drop the registration, or waiting for its transport to close.
\<close>

datatype activity =
    Running phase
  | Marking string string
  | Dropping string
  | Closing

record sessions =
  n_world :: world
  n_conns :: "sock \<rightharpoonup> activity"

inductive session_step :: "config \<Rightarrow> sessions \<Rightarrow> sessions \<Rightarrow> bool" for cfg where
  accept: "s \<notin> dom conns \<Longrightarrow> fresh_socket s w \<Longrightarrow> try_acquire_slot cfg w = (Inr True, w') \<Longrightarrow>
     session_step cfg \<lparr> n_world = w, n_conns = conns \<rparr>
       \<lparr> n_world = w', n_conns = conns(s \<mapsto> Running (Probing [])) \<rparr>"
| refuse: "s \<notin> dom conns \<Longrightarrow> fresh_socket s w \<Longrightarrow> try_acquire_slot cfg w = (Inr False, w') \<Longrightarrow>
     session_step cfg \<lparr> n_world = w, n_conns = conns \<rparr>
       \<lparr> n_world = snd (close_socket s w'), n_conns = conns \<rparr>"
| read: "conns s = Some (Running ph) \<Longrightarrow> conn_turn cfg s ip ph ev w = (Inr ph', w') \<Longrightarrow>
     session_step cfg \<lparr> n_world = w, n_conns = conns \<rparr>
       \<lparr> n_world = w', n_conns = conns(s \<mapsto> Running ph') \<rparr>"
| check: "conns s = Some (Running (Ending imei)) \<Longrightarrow> departure s imei w = Some (i, dev) \<Longrightarrow>
     session_step cfg \<lparr> n_world = w, n_conns = conns \<rparr>
       \<lparr> n_world = w, n_conns = conns(s \<mapsto> Marking i dev) \<rparr>"
| pass: "conns s = Some (Running (Ending imei)) \<Longrightarrow> departure s imei w = None \<Longrightarrow>
     session_step cfg \<lparr> n_world = w, n_conns = conns \<rparr>
       \<lparr> n_world = snd (close_socket s w), n_conns = conns(s \<mapsto> Closing) \<rparr>"
| offline: "conns s = Some (Marking i dev) \<Longrightarrow> set_device_offline dev w = (Inr (), w') \<Longrightarrow>
     session_step cfg \<lparr> n_world = w, n_conns = conns \<rparr>
       \<lparr> n_world = w', n_conns = conns(s \<mapsto> Dropping i) \<rparr>"
| abort: "conns s = Some (Marking i dev) \<Longrightarrow> set_device_offline dev w = (Inl err, w') \<Longrightarrow>
     session_step cfg \<lparr> n_world = w, n_conns = conns \<rparr>
       \<lparr> n_world = w', n_conns = conns(s := None) \<rparr>"
| drop: "conns s = Some (Dropping i) \<Longrightarrow>
     session_step cfg \<lparr> n_world = w, n_conns = conns \<rparr>
       \<lparr> n_world = snd (drop_registration s i w), n_conns = conns(s \<mapsto> Closing) \<rparr>"
| leave: "conns s = Some Closing \<Longrightarrow>
     session_step cfg \<lparr> n_world = w, n_conns = conns \<rparr>
       \<lparr> n_world = snd (leave w), n_conns = conns(s := None) \<rparr>"
| poll: "poller_on cfg \<Longrightarrow> poller_turn cfg w = (r, w') \<Longrightarrow>
     session_step cfg \<lparr> n_world = w, n_conns = conns \<rparr> \<lparr> n_world = w', n_conns = conns \<rparr>"
| command: "do_POST api_key rq w = (reply, w') \<Longrightarrow>
     session_step cfg \<lparr> n_world = w, n_conns = conns \<rparr> \<lparr> n_world = w', n_conns = conns \<rparr>"
| backend: "db_ok d \<Longrightarrow>
     session_step cfg \<lparr> n_world = w, n_conns = conns \<rparr> \<lparr> n_world = w \<lparr> db := d \<rparr>, n_conns = conns \<rparr>"

inductive session_reachable :: "config \<Rightarrow> sessions \<Rightarrow> bool" for cfg where
  start: "reg w = empty_registry \<Longrightarrow> db_ok (db w) \<Longrightarrow> pool_in_use w = 0 \<Longrightarrow>
     connection_count w = 0 \<Longrightarrow> sent w = (\<lambda>_. []) \<Longrightarrow>
     session_reachable cfg \<lparr> n_world = w, n_conns = Map.empty \<rparr>"
| step: "session_reachable cfg n \<Longrightarrow> session_step cfg n n' \<Longrightarrow> session_reachable cfg n'"

inductive_cases session_stepE: "session_step cfg n n'"

abbreviation session_path :: "config \<Rightarrow> sessions \<Rightarrow> sessions \<Rightarrow> bool" where
  "session_path cfg \<equiv> (session_step cfg)\<^sup>*\<^sup>*"

lemma session_reachable_path: "session_path cfg n n' \<Longrightarrow> session_reachable cfg n \<Longrightarrow> session_reachable cfg n'"
  by (induction rule: rtranclp_induct) (auto intro: session_reachable.step)

section \<open>The invariant at this grain\<close>

lemma leave_parts:
  "keeps (on_reg R) leave" "keeps (on_db D) leave" "keeps (pool_is n) leave" "keeps (oracle_is f) leave"
  unfolding leave_def by (intro keeps_thenM keeps_tryM keeps_ret wait_closed_keeps release_slot_keeps; simp)+

lemma leave_count: "connection_count (snd (leave w)) = connection_count w - 1"
  by (simp add: leave_def thenM_def bindM_def tryM_def wait_closed_def external_def release_slot_def
      split: outcome.split)

lemma drop_registration_keeps:
  assumes "keeps I (with_reg (unregister_device i))" "keeps I (close_socket s)"
  shows "keeps I (drop_registration s i)"
  unfolding drop_registration_def by (intro keeps_thenM assms)

lemma drop_registration_parts:
  "keeps (on_reg reg_ok) (drop_registration s i)" "keeps (on_db D) (drop_registration s i)"
  "keeps (pool_is n) (drop_registration s i)" "outside_inv I \<Longrightarrow> keeps I (drop_registration s i)"
  by (intro drop_registration_keeps keeps_with_reg_reg reg_ok_unregister keeps_close net_inv_parts
      keeps_with_reg reg_inv_parts outside_invD; assumption?)+

lemma offline_parts:
  "keeps (on_reg R) (set_device_offline d)" "keeps (on_db db_ok) (set_device_offline d)"
  "keeps (pool_is n) (set_device_offline d)" "outside_inv I \<Longrightarrow> keeps I (set_device_offline d)"
  by (auto intro: offline_keeps outside_invD)

text \<open>The coarse view: a connection in its \<^verbatim>\<open>finally\<close> block is one that has ended.\<close>

fun phase_of :: "activity \<Rightarrow> phase" where
  "phase_of (Running ph) = ph"
| "phase_of _ = Ending None"

definition coarse :: "sessions \<Rightarrow> gateway" where
  "coarse n = \<lparr> g_world = n_world n, g_conns = map_option phase_of \<circ> n_conns n \<rparr>"

lemma dom_coarse [simp]: "dom (map_option phase_of \<circ> conns) = dom conns"
  by (auto simp: dom_def)

lemma coarse_same:
  assumes "gateway_ok cfg (coarse \<lparr> n_world = w, n_conns = conns \<rparr>)" and "world_ok w'"
    and "connection_count w' = connection_count w" "outcomes w' = outcomes w" and "dom conns' = dom conns"
  shows "gateway_ok cfg (coarse \<lparr> n_world = w', n_conns = conns' \<rparr>)"
  using assms by (simp add: gateway_ok_def coarse_def slots_ok_def healthy_def)

text \<open>A step that runs a computation of the kept kind and keeps the connection open.\<close>

lemma coarse_step:
  assumes "gateway_ok cfg (coarse \<lparr> n_world = w, n_conns = conns \<rparr>)" and "m w = (r, w')"
    and "keeps (on_reg reg_ok) m" "keeps (on_db db_ok) m" "\<And>n. keeps (pool_is n) m"
    and "\<And>I. outside_inv I \<Longrightarrow> keeps I m" and "dom conns' = dom conns"
  shows "gateway_ok cfg (coarse \<lparr> n_world = w', n_conns = conns' \<rparr>)"
proof (rule coarse_same [OF assms(1) _ _ _ assms(7)])
  have "world_ok w" using assms(1) by (simp add: gateway_ok_def coarse_def)
  then show "world_ok w'" using assms(2-5) by (rule world_ok_step)
  show "connection_count w' = connection_count w" "outcomes w' = outcomes w"
    using outside_step [OF assms(2,6)] by auto
qed

lemma coarse_leaves:
  assumes ok: "gateway_ok cfg (coarse \<lparr> n_world = w, n_conns = conns \<rparr>)" and s: "s \<in> dom conns"
    and w': "world_ok w'" "outcomes w' = outcomes w"
    and c: "connection_count w' = connection_count w - 1 \<or> (connection_count w' = connection_count w \<and> \<not> healthy w)"
  shows "gateway_ok cfg (coarse \<lparr> n_world = w', n_conns = conns(s := None) \<rparr>)"
proof -
  have fin: "finite (dom conns)" using ok by (simp add: gateway_ok_def coarse_def slots_ok_def)
  have "card (dom conns) = Suc (card (dom conns - {s}))" using fin s by (rule card.remove)
  with ok w' c show ?thesis by (auto simp: gateway_ok_def coarse_def slots_ok_def healthy_def)
qed

lemma session_step_ok:
  assumes "session_step cfg n n'" and "gateway_ok cfg (coarse n)"
  shows "gateway_ok cfg (coarse n')"
  using assms
proof (induction rule: session_step.induct)
  case (accept s conns w w')
  then show ?case
    by (auto simp: gateway_ok_def coarse_def world_ok_def slots_ok_def healthy_def try_acquire_slot_def
        dom_def [symmetric] simp del: map_option_o_map_upd split: if_splits)
next
  case (refuse s conns w w')
  then show ?case
    by (auto simp: gateway_ok_def coarse_def world_ok_def slots_ok_def healthy_def try_acquire_slot_def
        close_socket_def split: if_splits)
next
  case (read conns s ph ip ev w ph' w')
  show ?case
    by (rule coarse_step [where m = "conn_turn cfg s ip ph ev", OF read(3,2) conn_turn_registry
          conn_turn_tables conn_turn_pool conn_turn_outside]) (use read in auto)
next
  case (check conns s imei w i dev)
  show ?case by (rule coarse_same [OF check(3)]) (use check in \<open>auto simp: gateway_ok_def coarse_def\<close>)
next
  case (pass conns s imei w)
  show ?case
    by (rule coarse_same [OF pass(3)])
      (use pass in \<open>auto simp: gateway_ok_def coarse_def world_ok_def close_socket_def\<close>)
next
  case (offline conns s i dev w w')
  show ?case
    by (rule coarse_step [where m = "set_device_offline dev", OF offline(3,2) offline_parts(1-4)])
      (use offline in auto)
next
  case (abort conns s i dev w err w')
  have "\<not> healthy w" using abort(2) offline_healthy [of w dev] by auto
  moreover have "gateway_ok cfg (coarse \<lparr> n_world = w', n_conns = conns \<rparr>)"
    by (rule coarse_step [where m = "set_device_offline dev", OF abort(3,2) offline_parts(1-4) refl])
  moreover have "connection_count w' = connection_count w \<and> outcomes w' = outcomes w"
    by (rule outside_step [where m = "set_device_offline dev", OF abort(2) offline_parts(4)])
  ultimately show ?case
    by (intro coarse_leaves [OF abort(3)]) (use abort in \<open>auto simp: gateway_ok_def coarse_def\<close>)
next
  case (drop conns s i w)
  show ?case
    by (rule coarse_step [where m = "drop_registration s i", OF drop(2) surjective_pairing
          drop_registration_parts]) (use drop in auto)
next
  case (leave conns s w)
  have "world_ok (snd (leave w))"
    by (rule world_ok_step [where m = leave and w = w, OF _ surjective_pairing leave_parts(1-3)])
      (use leave in \<open>simp add: gateway_ok_def coarse_def\<close>)
  moreover have "outcomes (snd (leave w)) = outcomes w"
    using keepsD [OF leave_parts(4), of "outcomes w" w] by (simp add: oracle_is_def)
  ultimately show ?case
    by (intro coarse_leaves [OF leave(2)]) (use leave in \<open>auto simp: leave_count\<close>)
next
  case (poll w r w' conns)
  show ?case
    by (rule coarse_step [where m = "poller_turn cfg", OF poll(3,2) poller_turn_parts]) simp_all
next
  case (command api_key rq w reply w' conns)
  show ?case
    by (rule coarse_step [where m = "do_POST api_key rq", OF command(2,1) do_POST_parts]) simp_all
next
  case (backend d w conns)
  then show ?case by (simp add: gateway_ok_def coarse_def world_ok_def slots_ok_def)
qed

lemma session_reachable_ok: "session_reachable cfg n \<Longrightarrow> gateway_ok cfg (coarse n)"
proof (induction rule: session_reachable.induct)
  case (start w)
  then show ?case by (simp add: coarse_def gateway_ok_def world_ok_def slots_ok_def reg_ok_empty)
next
  case (step n n')
  then show ?case by (blast intro: session_step_ok)
qed

section \<open>The coarser gateway is one of its schedules\<close>

text \<open>All connections of the coarser gateway are in their read loop.\<close>

definition fine :: "gateway \<Rightarrow> sessions" where
  "fine g = \<lparr> n_world = g_world g, n_conns = map_option Running \<circ> g_conns g \<rparr>"

lemma fine_upd: "map_option Running \<circ> (conns(s := v)) = (map_option Running \<circ> conns)(s := map_option Running v)"
  by auto

lemma dom_fine [simp]: "dom (map_option Running \<circ> conns) = dom conns"
  by (auto simp: dom_def)

text \<open>The segments in a row, from the check to the end.\<close>

lemma segments_path:
  assumes "conns s = Some (Running (Ending imei))" and "cleanup s imei w = (r, w')"
  shows "session_path cfg \<lparr> n_world = w, n_conns = conns \<rparr> \<lparr> n_world = w', n_conns = conns(s := None) \<rparr>"
proof -
  have out: "session_step cfg \<lparr> n_world = v, n_conns = conns(s \<mapsto> Closing) \<rparr>
      \<lparr> n_world = snd (leave v), n_conns = conns(s := None) \<rparr>" for v
    using session_step.leave [where conns = "conns(s \<mapsto> Closing)" and s = s and w = v] by (simp only: fun_upd_upd fun_upd_same)
  show ?thesis
  proof (cases "departure s imei w")
    case None
    with assms(2) have "w' = snd (leave (snd (close_socket s w)))"
      by (simp add: cleanup_segments thenM_def bindM_def close_socket_def)
    with session_step.pass [where conns = conns, OF assms(1) None] out [of "snd (close_socket s w)"] show ?thesis
      by (metis rtranclp.rtrancl_into_rtrancl rtranclp.rtrancl_refl)
  next
    case (Some x)
    obtain i dev where x: "departure s imei w = Some (i, dev)" using Some by (cases x) auto
    note ch = session_step.check [where conns = conns, OF assms(1) x]
    obtain r1 w1 where o: "set_device_offline dev w = (r1, w1)" by (cases "set_device_offline dev w")
    show ?thesis
    proof (cases r1)
      case (Inl e)
      with o assms(2) x have "w' = w1" by (simp add: cleanup_segments thenM_def bindM_def)
      moreover have "session_step cfg \<lparr> n_world = w, n_conns = conns(s \<mapsto> Marking i dev) \<rparr>
          \<lparr> n_world = w1, n_conns = conns(s := None) \<rparr>"
        using session_step.abort [where conns = "conns(s \<mapsto> Marking i dev)" and s = s] o Inl
        by (simp only: fun_upd_upd fun_upd_same)
      ultimately show ?thesis using ch by (metis rtranclp.rtrancl_into_rtrancl rtranclp.rtrancl_refl)
    next
      case (Inr u)
      let ?w2 = "snd (drop_registration s i w1)"
      have "fst (drop_registration s i w1) = Inr ()"
        by (simp add: drop_registration_def thenM_def bindM_def with_reg_def close_socket_def)
      with o Inr assms(2) x have "w' = snd (leave ?w2)"
        by (cases "drop_registration s i w1") (simp add: cleanup_segments thenM_def bindM_def)
      moreover have "session_step cfg \<lparr> n_world = w, n_conns = conns(s \<mapsto> Marking i dev) \<rparr>
          \<lparr> n_world = w1, n_conns = conns(s \<mapsto> Dropping i) \<rparr>"
        using session_step.offline [where conns = "conns(s \<mapsto> Marking i dev)" and s = s and i = i and dev = dev
            and w = w and w' = w1] o Inr
        by (cases u) (simp only: fun_upd_upd fun_upd_same simp_thms)
      moreover have "session_step cfg \<lparr> n_world = w1, n_conns = conns(s \<mapsto> Dropping i) \<rparr>
          \<lparr> n_world = ?w2, n_conns = conns(s \<mapsto> Closing) \<rparr>"
        using session_step.drop [where conns = "conns(s \<mapsto> Dropping i)" and s = s and w = w1] by (simp only: fun_upd_upd fun_upd_same)
      ultimately show ?thesis
        using ch out [of ?w2] by (metis rtranclp.rtrancl_into_rtrancl rtranclp.rtrancl_refl)
    qed
  qed
qed

lemma step_refined:
  assumes "gateway_step cfg g g'"
  shows "session_path cfg (fine g) (fine g')"
  using assms
proof cases
  case (finish conns s imei w r w')
  have "(map_option Running \<circ> conns) s = Some (Running (Ending imei))" using finish by simp
  from segments_path [where conns = "map_option Running \<circ> conns", OF this finish(4)] finish show ?thesis by (simp add: fine_def fine_upd)
next
  case (accept s conns w w')
  then have "session_step cfg (fine g) (fine g')"
    unfolding fine_def by (simp add: fine_upd session_step.accept)
  then show ?thesis by (rule r_into_rtranclp)
next
  case (refuse s conns w w')
  then have "session_step cfg (fine g) (fine g')"
    unfolding fine_def by (simp add: session_step.refuse)
  then show ?thesis by (rule r_into_rtranclp)
next
  case (read conns s ph ip ev w ph' w')
  then have "(map_option Running \<circ> conns) s = Some (Running ph)" by simp
  then have "session_step cfg (fine g) (fine g')"
    unfolding fine_def read using session_step.read [where conns = "map_option Running \<circ> conns", OF _ read(4)]
    by (simp only: gateway.select_convs fine_upd option.map)
  then show ?thesis by (rule r_into_rtranclp)
next
  case (poll w r w' conns)
  then have "session_step cfg (fine g) (fine g')"
    unfolding fine_def by (simp add: session_step.poll)
  then show ?thesis by (rule r_into_rtranclp)
next
  case (command api_key rq w reply w' conns)
  then have "session_step cfg (fine g) (fine g')"
    unfolding fine_def by (simp add: session_step.command)
  then show ?thesis by (rule r_into_rtranclp)
next
  case (backend d w conns)
  then have "session_step cfg (fine g) (fine g')"
    unfolding fine_def by (simp add: session_step.backend)
  then show ?thesis by (rule r_into_rtranclp)
qed

text \<open>
  C2. The coarser gateway is one of the schedules of the finer one: each of its steps is a sequence of
  steps at the grain of the awaits, the uninterrupted \<^verbatim>\<open>finally\<close> block among them, and each of its
  reachable states can be reached there. And the finer one keeps what the coarser one keeps: the
  registry and the stored positions stay consistent, every database connection comes back, and the
  slots cover the open connections, including those that are waiting in their \<^verbatim>\<open>finally\<close> block.
\<close>

theorem awaits_refine_gateway:
  "(gateway_step cfg g g' \<longrightarrow> session_path cfg (fine g) (fine g')) \<and>
   (gateway_reachable cfg g \<longrightarrow> session_reachable cfg (fine g)) \<and>
   (session_reachable cfg n \<longrightarrow>
      reg_ok (reg (n_world n)) \<and> db_ok (db (n_world n)) \<and> pool_in_use (n_world n) = 0 \<and>
      int (card (dom (n_conns n))) \<le> connection_count (n_world n) \<and>
      connection_count (n_world n) \<le> max 0 (cfg_max_connections cfg) \<and>
      (healthy (n_world n) \<longrightarrow> connection_count (n_world n) = int (card (dom (n_conns n)))))"
proof (intro conjI)
  show "gateway_step cfg g g' \<longrightarrow> session_path cfg (fine g) (fine g')" using step_refined by blast
  have "gateway_reachable cfg g \<Longrightarrow> session_reachable cfg (fine g)"
  proof (induction rule: gateway_reachable.induct)
    case (start w)
    then have "session_reachable cfg \<lparr> n_world = w, n_conns = Map.empty \<rparr>" by (rule session_reachable.start)
    then show ?case by (simp add: fine_def comp_def)
  next
    case (step g g')
    then show ?case using step_refined session_reachable_path by blast
  qed
  then show "gateway_reachable cfg g \<longrightarrow> session_reachable cfg (fine g)" by blast
  show "session_reachable cfg n \<longrightarrow>
      reg_ok (reg (n_world n)) \<and> db_ok (db (n_world n)) \<and> pool_in_use (n_world n) = 0 \<and>
      int (card (dom (n_conns n))) \<le> connection_count (n_world n) \<and>
      connection_count (n_world n) \<le> max 0 (cfg_max_connections cfg) \<and>
      (healthy (n_world n) \<longrightarrow> connection_count (n_world n) = int (card (dom (n_conns n))))"
    using session_reachable_ok [of cfg n]
    by (simp add: coarse_def gateway_ok_def world_ok_def slots_ok_def)
qed

theorem awaits_refine_gateway_witness:
  "session_reachable default_config (fine sample_gateway) \<and> reg_ok (reg (n_world (fine sample_gateway)))"
  using awaits_refine_gateway [of default_config sample_gateway sample_gateway "fine sample_gateway"]
    sample_gateway_reachable by blast

section \<open>Who can take a session away\<close>

text \<open>An invariant of the registry that logins on \<open>s\<close> and the notes about positions keep.\<close>

lemma handler_on_reg:
  assumes "\<And>k dev p t1 t2 r. R r \<Longrightarrow> R (register_device k ip dev s p t1 t2 r)"
    and "\<And>i v t r. R r \<Longrightarrow> R (note_position i v t r)"
  shows "keeps (on_reg R) (handler_of fam cfg raw s ip)"
proof -
  have register: "keeps (on_reg R) (reg_register i ip dev s p)" for i dev p
    unfolding reg_register_def by (intro keeps_bindM keeps_oracle_part session_inv_parts keeps_with_reg_reg assms(1))
  have memo: "keeps (on_reg R) (with_reg (note_position i v t))" for i v t
    by (intro keeps_with_reg_reg assms(2))
  show ?thesis
  proof (cases fam)
    case GT06
    then show ?thesis
      by (simp, intro process_packet_keeps gt06_branch_keeps keeps_close keeps_write_drain net_inv_parts
          session_inv_parts register)
  next
    case GPS103
    then show ?thesis
      by (simp, intro process_gps103_keeps gps103_branch_keeps keeps_close keeps_write_drain net_inv_parts
          session_inv_parts register memo)
  next
    case TELTONIKA
    then show ?thesis
      by (simp, intro process_teltonika_keeps avl_session_keeps accept_session_keeps keeps_close
          keeps_write_drain net_inv_parts session_inv_parts cache_inv_parts register)
  qed
qed

lemma conn_turn_on_reg:
  assumes "\<And>k dev p t1 t2 r. R r \<Longrightarrow> R (register_device k ip dev s p t1 t2 r)"
    and "\<And>i v t r. R r \<Longrightarrow> R (note_position i v t r)"
    and "\<And>i t r. R r \<Longrightarrow> R (update_last_seen i t r)" "\<And>t r. R r \<Longrightarrow> R (mark_packet_received t r)"
  shows "keeps (on_reg R) (conn_turn cfg s ip ph ev)"
  by (intro conn_turn_keeps handler_on_reg seen_keeps assms)

text \<open>The notes of the registry change neither sessions nor authentications.\<close>

lemma get_socket_map_entry:
  assumes "\<And>e. e_socket (f e) = e_socket e"
  shows "get_socket (r \<lparr> by_imei := AList.map_entry i f (by_imei r) \<rparr>) j = get_socket r j"
  using assms by (simp add: get_socket_def get_device_map_entry option.map_comp comp_def)

lemma notes_sessions [simp]:
  "get_socket (note_position i v t r) j = get_socket r j" "get_socket (update_last_seen i t r) j = get_socket r j"
  "get_socket (note_poll i t r) j = get_socket r j" "get_socket (mark_packet_received t r) j = get_socket r j"
  "by_socket (note_position i v t r) = by_socket r" "by_socket (update_last_seen i t r) = by_socket r"
  "by_socket (note_poll i t r) = by_socket r" "by_socket (mark_packet_received t r) = by_socket r"
  by (simp_all add: note_position_def update_last_seen_def note_poll_def get_socket_map_entry)
    (simp_all add: mark_packet_received_def get_socket_def get_device_def)

lemma get_socket_register:
  "get_socket (register_device i ip dev s p t1 t2 r) j = (if j = i then Some s else get_socket r j)"
  by (simp add: get_socket_def register_device_def get_device_put new_entry_def)

lemma by_socket_register:
  "by_socket (register_device i ip dev s p t1 t2 r) x =
     (if x = s then Some i else if get_socket r i = Some x then None else by_socket r x)"
  by (auto simp: register_device_def by_socket_put new_entry_def get_socket_def split: option.split)

text \<open>
  The registry once other connections than \<open>t\<close> have logged in on \<open>u\<close>: \<open>t\<close> is authenticated, or an
  IMEI whose entry held \<open>t\<close> in \<open>r0\<close> is now \<open>u\<close>'s.
\<close>

definition taken_over :: "registry \<Rightarrow> sock \<Rightarrow> sock \<Rightarrow> registry \<Rightarrow> bool" where
  "taken_over r0 t u r \<longleftrightarrow>
     (by_socket r t \<noteq> None \<or> (\<exists>j. get_socket r0 j = Some t \<and> get_socket r j = Some u)) \<and>
     (\<forall>j. get_socket r j = Some t \<longrightarrow> get_socket r0 j = Some t)"

lemma taken_over_register:
  assumes "taken_over r0 t u r" and "t \<noteq> u"
  shows "taken_over r0 t u (register_device i ip dev u p t1 t2 r)"
proof -
  let ?r = "register_device i ip dev u p t1 t2 r"
  have held: "get_socket r0 j = Some t" if "get_socket ?r j = Some t" for j
    using assms that by (auto simp: taken_over_def get_socket_register split: if_splits)
  consider "by_socket r t \<noteq> None" | j where "get_socket r0 j = Some t" "get_socket r j = Some u"
    using assms(1) unfolding taken_over_def by blast
  then have "by_socket ?r t \<noteq> None \<or> (\<exists>j. get_socket r0 j = Some t \<and> get_socket ?r j = Some u)"
  proof cases
    case 1
    show ?thesis
    proof (cases "get_socket r i = Some t")
      case True
      with assms(1) have "get_socket r0 i = Some t" by (simp add: taken_over_def)
      then show ?thesis by (auto simp: get_socket_register)
    next
      case False
      with 1 show ?thesis by (simp add: by_socket_register)
    qed
  next
    case 2
    then show ?thesis by (auto simp: get_socket_register)
  qed
  with held show ?thesis by (simp add: taken_over_def)
qed

lemma taken_over_notes:
  "taken_over r0 t u r \<Longrightarrow> taken_over r0 t u (note_position i v x r)"
  "taken_over r0 t u r \<Longrightarrow> taken_over r0 t u (update_last_seen i x r)"
  "taken_over r0 t u r \<Longrightarrow> taken_over r0 t u (mark_packet_received x r)"
  by (simp_all add: taken_over_def)

lemma turn_deauthenticates:
  assumes "conn_turn cfg u ip ph ev w = (x, w')"
    and "by_socket (reg w) t \<noteq> None" and "by_socket (reg w') t = None"
  shows "u \<noteq> t \<and> (\<exists>j. get_socket (reg w) j = Some t \<and> get_socket (reg w') j = Some u)"
proof -
  have "u \<noteq> t"
  proof
    assume "u = t"
    then have "keeps (on_reg (\<lambda>r. by_socket r t \<noteq> None)) (conn_turn cfg u ip ph ev)"
      by (intro conn_turn_on_reg) (simp_all add: by_socket_register)
    from keepsD2 [OF this assms(1)] assms(2,3) show False by (simp add: on_reg_def)
  qed
  moreover from this have "keeps (on_reg (taken_over (reg w) t u)) (conn_turn cfg u ip ph ev)"
    by (intro conn_turn_on_reg taken_over_register taken_over_notes) simp_all
  from keepsD2 [OF this assms(1)] assms(2) have "taken_over (reg w) t u (reg w')"
    by (simp add: on_reg_def taken_over_def)
  ultimately show ?thesis using assms(3) by (auto simp: taken_over_def)
qed

lemma by_socket_dropped:
  "by_socket (reg (snd (drop_registration s i w))) t =
     (if get_socket (reg w) i = Some t then None else by_socket (reg w) t)"
  by (auto simp: drop_registration_def thenM_def bindM_def with_reg_def close_socket_def by_socket_unregister
      get_socket_def split: option.split)

text \<open>
  C7. A session is never lost without a cause that can be named: in any step of the gateway, at the
  grain of the awaits, a socket stops being authenticated only because another connection has just
  logged in under an IMEI whose entry held that socket, or because a connection in its \<^verbatim>\<open>finally\<close>
  block removes such an entry. Nothing a device says on its own connection, no command, no poll and
  no failure of the database logs it out.
\<close>

theorem logout_has_a_cause:
  assumes "session_step cfg n n'" and "get_imei_by_socket (reg (n_world n)) t \<noteq> None"
    and "get_imei_by_socket (reg (n_world n')) t = None"
  shows "(\<exists>u ph j. u \<noteq> t \<and> n_conns n u = Some (Running ph) \<and> get_socket (reg (n_world n)) j = Some t \<and>
      get_socket (reg (n_world n')) j = Some u) \<or>
    (\<exists>s j. n_conns n s = Some (Dropping j) \<and> get_socket (reg (n_world n)) j = Some t)"
proof -
  have same: "reg (n_world n') \<noteq> reg (n_world n)" using assms(2,3) by auto
  from assms(1) show ?thesis
  proof cases
    case (read conns s ph ip ev w ph' w')
    with assms(2,3) turn_deauthenticates [OF read(4), of t] show ?thesis
      by (auto simp: get_imei_by_socket_def)
  next
    case (drop conns s i w)
    with assms(2,3) by_socket_dropped [of s i w t] show ?thesis
      by (auto simp: get_imei_by_socket_def split: if_splits)
  next
    case (accept s conns w w')
    with same show ?thesis by (auto simp: try_acquire_slot_def split: if_splits)
  next
    case (refuse s conns w w')
    with same show ?thesis by (auto simp: try_acquire_slot_def close_socket_def split: if_splits)
  next
    case (offline conns s i dev w w')
    with keepsD2 [OF offline_parts(1) offline(4), of "\<lambda>x. x = reg w"] same show ?thesis by (simp add: on_reg_def)
  next
    case (abort conns s i dev w err w')
    with keepsD2 [OF offline_parts(1) abort(4), of "\<lambda>x. x = reg w"] same show ?thesis by (simp add: on_reg_def)
  next
    case (leave conns s w)
    with keepsD [OF leave_parts(1), of "\<lambda>x. x = reg w" w] same show ?thesis by (simp add: on_reg_def)
  next
    case (poll w r w' conns)
    have "keeps (on_reg (\<lambda>r. by_socket r t \<noteq> None)) (poller_turn cfg)"
      by (intro poller_turn_keeps net_inv_parts keeps_with_reg_reg) simp
    with poll assms(2,3) keepsD2 [OF this poll(4)] show ?thesis
      by (simp add: on_reg_def get_imei_by_socket_def)
  next
    case (command api_key rq w reply w' conns)
    with keepsD2 [OF do_POST_keeps [OF net_inv_parts(1) serial_inv_parts(1)] command(3), of "\<lambda>x. x = reg w"] same
    show ?thesis by (simp add: on_reg_def)
  qed (use same in \<open>auto simp: close_socket_def\<close>)
qed

theorem logout_has_a_cause_witness:
  "\<exists>s j. [8 \<mapsto> Dropping ''123456789012345''] s = Some (Dropping j) \<and> get_socket (reg one_device) j = Some 7"
proof -
  let ?c = "[8 \<mapsto> Dropping ''123456789012345'']"
  have e: "get_socket (reg one_device) ''123456789012345'' = Some 7" "by_socket (reg one_device) 7 = Some ''123456789012345''"
    by (simp_all add: one_device_def get_socket_register by_socket_register)
  have "session_step default_config \<lparr> n_world = one_device, n_conns = ?c \<rparr>
      \<lparr> n_world = snd (drop_registration 8 ''123456789012345'' one_device), n_conns = ?c(8 \<mapsto> Closing) \<rparr>"
    by (rule session_step.drop) simp
  from logout_has_a_cause [OF this, of 7] show ?thesis
    by (simp add: get_imei_by_socket_def by_socket_dropped e split: if_splits)
qed

section \<open>The race\<close>

text \<open>A login frame as the first bytes of a connection.\<close>

lemma opening_login:
  assumes "healthy w" and "known_device (db w) imei dev" and "imei \<noteq> ''''"
    and "gt06_frame raw" and "gt06_claim raw = Some imei" and "s \<notin> closing w"
    and "detect_protocol raw (cfg_enabled_protocols cfg) = Some GT06"
  shows "\<exists>w'. conn_turn cfg s ip (Probing []) (Data raw) w = (Inr (Serving GT06 (Some imei) []), w') \<and>
    healthy w' \<and> closing w' = closing w \<and>
    (\<forall>j. get_socket (reg w') j = (if j = imei then Some s else get_socket (reg w) j)) \<and>
    by_socket (reg w') s = Some imei \<and>
    map_option (\<lambda>e. (e_socket e, e_device_id e)) (get_device (reg w') imei) = Some (s, dev)"
proof -
  obtain a where a: "build_ack raw = Inr a" using build_ack_total [OF assms(4)] by blast
  have five: "5 \<le> length raw" using gt06_frame_length [OF assms(4)] by simp
  have frames: "framer_of cfg GT06 raw = Inr ([raw], [])" using extract_packets_concat [of "[raw]"] assms(4) by simp
  obtain t1 t2 t3 t4 w' where w': "conn_turn cfg s ip (Probing []) (Data raw) w = (Inr (Serving GT06 (Some imei) []), w')"
    "reg w' = mark_packet_received t4 (update_last_seen imei t3 (register_device imei ip dev s GT06 t1 t2 (reg w)))"
    "closing w' = closing w" "healthy w'"
    using login_opens [OF assms(1-3) _ _ assms(6,7) frames five, of a ip] assms(5) a by auto
  moreover have "map_option (\<lambda>e. (e_socket e, e_device_id e)) (get_device (reg w') imei) = Some (s, dev)"
    by (simp add: w' update_last_seen_def get_device_map_entry register_device_def get_device_put new_entry_def)
  ultimately show ?thesis by (simp add: get_socket_register by_socket_register)
qed

text \<open>A status frame on a socket that is not authenticated closes it.\<close>

lemma status_closes:
  assumes "gt06_protocol q = Inr (Some ''13'')" and "get_imei_by_socket (reg w) t = None"
  shows "t \<in> closing (snd (process_packet cfg q t ip w))"
proof -
  let ?I = "on_net (\<lambda>_ c. t \<in> c)"
  have "tryM (gt06_branch cfg ''13'' q t ip None) (\<lambda>_. ret None) w = (Inr None, w \<lparr> closing := insert t (closing w) \<rparr>)"
    by (simp add: gt06_branch_def gt06_status_def for_device_def gt06_device_def tryM_def bindM_def thenM_def
        close_socket_def)
  moreover have "keeps ?I (gt06_ack q t)"
    by (intro gt06_ack_keeps) (auto simp: write_drain_def external_def push_bytes_def keeps_def on_net_def
        split: outcome.split)
  moreover obtain r v where ack: "gt06_ack q t (w \<lparr> closing := insert t (closing w) \<rparr>) = (r, v)"
    by (cases "gt06_ack q t (w \<lparr> closing := insert t (closing w) \<rparr>)")
  ultimately have "t \<in> closing v" using keepsD2 [of ?I "gt06_ack q t", OF _ ack] by (simp add: on_net_def)
  with ack assms \<open>tryM _ _ w = _\<close> show ?thesis
    by (cases r) (simp_all add: process_packet_def bindM_def thenM_def reg_imei_of_def)
qed

text \<open>
  C6. The race the check in the \<^verbatim>\<open>finally\<close> block is there to exclude: the device reconnects while the
  old connection waits for the database to mark it offline. The login on the new connection succeeds
  and the device is served; then the old connection, whose check has passed, removes whatever entry
  the IMEI has by now, which is the new one. From any state in which a connection waits there, with
  no call failing, the gateway can so come to a state in which the device's live connection is open
  and in its read loop, but the IMEI is not online, the socket is authenticated as nobody, a status
  row of the device says offline, and the next status frame gets the healthy connection closed.
\<close>

theorem reconnect_race:
  assumes "healthy w" and "known_device (db w) imei dev" and "imei \<noteq> ''''"
    and "conns s = Some (Marking imei dev)" and "conns t = Some (Running (Probing []))" and "t \<noteq> s" and "t \<notin> closing w"
    and "gt06_frame raw" and "gt06_claim raw = Some imei"
    and "detect_protocol raw (cfg_enabled_protocols cfg) = Some GT06"
  shows "\<exists>n. session_path cfg \<lparr> n_world = w, n_conns = conns \<rparr> n \<and>
    n_conns n t = Some (Running (Serving GT06 (Some imei) [])) \<and> t \<notin> closing (n_world n) \<and>
    get_socket (reg (n_world n)) imei = None \<and> get_imei_by_socket (reg (n_world n)) t = None \<and>
    (\<forall>row. device_statuses (db (n_world n)) dev = Some row \<longrightarrow> \<not> st_is_online row) \<and>
    (\<forall>q. gt06_protocol q = Inr (Some ''13'') \<longrightarrow> t \<in> closing (snd (process_packet cfg q t ip (n_world n))))"
proof -
  obtain w1 where login: "conn_turn cfg t ip (Probing []) (Data raw) w = (Inr (Serving GT06 (Some imei) []), w1)"
    and w1: "healthy w1" "closing w1 = closing w" "get_socket (reg w1) imei = Some t"
      "by_socket (reg w1) t = Some imei"
    using opening_login [OF assms(1-3,8,9,7,10), of ip] by auto
  obtain w2 where off: "set_device_offline dev w1 = (Inr (), w2)" using offline_healthy [OF w1(1)] by blast
  have w2: "reg w2 = reg w1" "closing w2 = closing w1"
    using keepsD2 [OF offline_parts(1) off, of "\<lambda>x. x = reg w1"]
      keepsD2 [OF offline_keeps(1) off, of "on_net (\<lambda>_ c. c = closing w1)"]
    by (simp_all add: part_defs)
  let ?w3 = "snd (drop_registration s imei w2)"
  let ?serving = "Running (Serving GT06 (Some imei) [])"
  let ?c1 = "conns(t \<mapsto> ?serving)"
  have w3: "reg ?w3 = unregister_device imei (reg w2)" "db ?w3 = db w2" "closing ?w3 = insert s (closing w2)"
    by (simp_all add: drop_registration_def thenM_def bindM_def with_reg_def close_socket_def)
  have "session_step cfg \<lparr> n_world = w, n_conns = conns \<rparr> \<lparr> n_world = w1, n_conns = ?c1 \<rparr>"
    using assms(5) login by (rule session_step.read)
  moreover have "session_step cfg \<lparr> n_world = w1, n_conns = ?c1 \<rparr> \<lparr> n_world = w2, n_conns = ?c1(s \<mapsto> Dropping imei) \<rparr>"
    by (rule session_step.offline) (use assms(4,6) off in simp_all)
  moreover have "session_step cfg \<lparr> n_world = w2, n_conns = ?c1(s \<mapsto> Dropping imei) \<rparr>
      \<lparr> n_world = ?w3, n_conns = (?c1(s \<mapsto> Dropping imei))(s \<mapsto> Closing) \<rparr>"
    by (rule session_step.drop) simp
  ultimately have "session_path cfg \<lparr> n_world = w, n_conns = conns \<rparr>
      \<lparr> n_world = ?w3, n_conns = (?c1(s \<mapsto> Dropping imei))(s \<mapsto> Closing) \<rparr>"
    by (metis rtranclp.rtrancl_into_rtrancl rtranclp.rtrancl_refl)
  moreover have "get_socket (reg ?w3) imei = None" by (simp add: w3 get_socket_def get_device_unregister)
  moreover have auth: "get_imei_by_socket (reg ?w3) t = None"
    using w1(3) by (simp add: get_imei_by_socket_def by_socket_dropped w2)
  moreover have "\<not> st_is_online row" if "device_statuses (db ?w3) dev = Some row" for row
    using offline_Inr [OF off] that by (simp add: w3)
  moreover have "t \<notin> closing ?w3" using assms(6,7) by (simp add: w3 w2 w1)
  moreover note status_closes [OF _ auth]
  ultimately show ?thesis
    using assms(6) by (intro exI [of _ "\<lparr> n_world = ?w3, n_conns = (?c1(s \<mapsto> Dropping imei))(s \<mapsto> Closing) \<rparr>"]) simp
qed

text \<open>
  Such a state is reached by two connections of one device: the first logs in and ends, the second is
  accepted before the first has told the database.
\<close>

lemma race_state_reachable:
  "\<exists>w conns. session_reachable default_config \<lparr> n_world = w, n_conns = conns \<rparr> \<and> healthy w \<and>
     db w = known_database \<and> closing w = {} \<and> conns 7 = Some (Marking ''123456789012345'' ''d1'') \<and>
     conns 8 = Some (Running (Probing []))"
proof -
  let ?i = "''123456789012345''" and ?w0 = "start_world known_database" and ?open = "Running (Probing [])"
  let ?w1 = "?w0 \<lparr> connection_count := 1 \<rparr>" and ?w2 = "?w0 \<lparr> connection_count := 2 \<rparr>"
  let ?c = "[7 \<mapsto> ?open, 8 \<mapsto> ?open]" and ?serving = "Serving GT06 (Some ?i) []"
  note world = fresh_socket_def start_world_def empty_registry_def try_acquire_slot_def default_config_def
  have db: "db_ok known_database" by (simp add: db_ok_def stored_rows_ok_def known_database_def empty_database_def)
  have "session_reachable default_config \<lparr> n_world = ?w0, n_conns = Map.empty \<rparr>"
    by (rule session_reachable.start) (simp_all add: db start_world_def)
  moreover have "session_step default_config \<lparr> n_world = ?w0, n_conns = Map.empty \<rparr> \<lparr> n_world = ?w1, n_conns = [7 \<mapsto> ?open] \<rparr>"
    by (rule session_step.accept) (simp_all add: world)
  moreover have "session_step default_config \<lparr> n_world = ?w1, n_conns = [7 \<mapsto> ?open] \<rparr> \<lparr> n_world = ?w2, n_conns = ?c \<rparr>"
    by (rule session_step.accept) (simp_all add: world)
  ultimately have r2: "session_reachable default_config \<lparr> n_world = ?w2, n_conns = ?c \<rparr>"
    by (meson session_reachable.step)
  have sniffed: "detect_protocol sample_login (cfg_enabled_protocols default_config) = Some GT06"
    using sniff_gt06 [of sample_login] by (simp add: detect_protocol_def sample_login_def default_config_def)
  obtain w3 e where login: "conn_turn default_config 7 ''10.0.0.7'' (Probing []) (Data sample_login) ?w2 = (Inr ?serving, w3)"
    and w3: "healthy w3" "closing w3 = {}"
    and e: "get_device (reg w3) ?i = Some e" "e_socket e = 7" "e_device_id e = ''d1''"
    using opening_login [of ?w2 ?i "''d1''" sample_login 7 default_config "''10.0.0.7''"] known_sample
      sample_login_frame sample_login_claim sniffed
    by (auto simp: healthy_def)
  let ?w4 = "w3 \<lparr> db := known_database \<rparr>"
  have "departure 7 (Some ?i) ?w4 = Some (?i, ''d1'')"
    using e by (simp add: departure_def cleanup_imei_def)
  then have "session_step default_config \<lparr> n_world = ?w4, n_conns = ?c(7 \<mapsto> Running (Ending (Some ?i))) \<rparr>
      \<lparr> n_world = ?w4, n_conns = (?c(7 \<mapsto> Running (Ending (Some ?i))))(7 \<mapsto> Marking ?i ''d1'') \<rparr>"
    by (rule session_step.check [rotated]) simp
  moreover have "session_step default_config \<lparr> n_world = w3, n_conns = ?c(7 \<mapsto> Running (Ending (Some ?i))) \<rparr>
      \<lparr> n_world = ?w4, n_conns = ?c(7 \<mapsto> Running (Ending (Some ?i))) \<rparr>"
    using db by (rule session_step.backend)
  moreover have "session_step default_config \<lparr> n_world = w3, n_conns = ?c(7 \<mapsto> Running ?serving) \<rparr>
      \<lparr> n_world = w3, n_conns = (?c(7 \<mapsto> Running ?serving))(7 \<mapsto> Running (Ending (Some ?i))) \<rparr>"
    by (rule session_step.read [where ip = "''10.0.0.7''" and ev = "Data []"], rule fun_upd_same)
      (simp add: conn_turn.simps(2))
  moreover have "session_step default_config \<lparr> n_world = ?w2, n_conns = ?c \<rparr> \<lparr> n_world = w3, n_conns = ?c(7 \<mapsto> Running ?serving) \<rparr>"
    by (rule session_step.read [OF _ login]) simp
  ultimately have "session_reachable default_config \<lparr> n_world = ?w4, n_conns = ?c(7 \<mapsto> Marking ?i ''d1'') \<rparr>"
    using r2 by (simp only: fun_upd_upd) (meson session_reachable.step)
  then show ?thesis using w3
    by (intro exI [of _ ?w4] exI [of _ "?c(7 \<mapsto> Marking ?i ''d1'')"]) simp
qed

theorem reconnect_race_witness:
  "\<exists>n. session_reachable default_config n \<and>
     n_conns n 8 = Some (Running (Serving GT06 (Some ''123456789012345'') [])) \<and> 8 \<notin> closing (n_world n) \<and>
     get_socket (reg (n_world n)) ''123456789012345'' = None \<and> get_imei_by_socket (reg (n_world n)) 8 = None"
proof -
  obtain w conns where r: "session_reachable default_config \<lparr> n_world = w, n_conns = conns \<rparr>"
    and w: "healthy w" "db w = known_database" "closing w = {}"
    and c: "conns 7 = Some (Marking ''123456789012345'' ''d1'')" "conns 8 = Some (Running (Probing []))"
    using race_state_reachable by blast
  have "detect_protocol sample_login (cfg_enabled_protocols default_config) = Some GT06"
    using sniff_gt06 [of sample_login] by (simp add: detect_protocol_def sample_login_def default_config_def)
  then have "\<exists>n. session_path default_config \<lparr> n_world = w, n_conns = conns \<rparr> n \<and>
    n_conns n 8 = Some (Running (Serving GT06 (Some ''123456789012345'') [])) \<and> 8 \<notin> closing (n_world n) \<and>
    get_socket (reg (n_world n)) ''123456789012345'' = None \<and> get_imei_by_socket (reg (n_world n)) 8 = None \<and>
    (\<forall>row. device_statuses (db (n_world n)) ''d1'' = Some row \<longrightarrow> \<not> st_is_online row) \<and>
    (\<forall>q. gt06_protocol q = Inr (Some ''13'') \<longrightarrow> 8 \<in> closing (snd (process_packet default_config q 8 ''10.0.0.7'' (n_world n))))"
    by (intro reconnect_race [OF w(1) _ _ c _ _ sample_login_frame sample_login_claim])
      (simp_all add: w known_sample)
  then obtain n where "session_path default_config \<lparr> n_world = w, n_conns = conns \<rparr> n"
    "n_conns n 8 = Some (Running (Serving GT06 (Some ''123456789012345'') []))" "8 \<notin> closing (n_world n)"
    "get_socket (reg (n_world n)) ''123456789012345'' = None" "get_imei_by_socket (reg (n_world n)) 8 = None"
    by blast
  with session_reachable_path [OF _ r] show ?thesis by blast
qed

end
