(* ===== verification/Wire_Types.thy ===== *)
theory Wire_Types
  imports Sessions
begin

text \<open>
  What the gateway says to a device, as a type: every message written to a socket is a well-formed
  message of one device family, the family of the connection, and every registry entry on the socket
  carries that family's name. Here a polling cycle runs uninterrupted; \<open>Tasks\<close> has the property at
  the grain of the cycle's \<^verbatim>\<open>await\<close>s, where it needs that no request is stale.
\<close>

section \<open>Messages of a family\<close>

text \<open>\<^verbatim>\<open>**,imei:<imei>,<code>;\<close>, which the help-me confirmation and the commands share.\<close>

definition gps103_coded :: "bytes \<Rightarrow> bool" where
  "gps103_coded b \<longleftrightarrow> (\<exists>imei code. code \<in> {''B'', ''K'', ''E''} \<and>
     encode_ascii (''**,imei:'' @ imei @ '','' @ code @ '';'') = Inr b)"

text \<open>
  A GT06 message is sealed: start marker, checksum, stop marker. It is a complete frame, except that
  the acknowledgement of a five-byte frame, which has no serial to echo, is a byte short.
\<close>

fun wire_message :: "family \<Rightarrow> bytes \<Rightarrow> bool" where
  "wire_message GT06 b \<longleftrightarrow> gt06_sealed b \<and> (gt06_frame b \<or> length b = 9)"
| "wire_message GPS103 b \<longleftrightarrow> b = LOGIN_REPLY \<or> b = HEARTBEAT_REPLY \<or> gps103_coded b"
| "wire_message TELTONIKA b \<longleftrightarrow> b = LOGIN_ACCEPT \<or> (\<exists>n < 2 ^ 32. b = be_bytes 4 n)"

text \<open>The acknowledgement of a five-byte frame announces ten bytes and has nine.\<close>

lemma short_frame_ack:
  assumes "length f = 5" and "build_ack f = Inr a"
  shows "length a = 9 \<and> unat (a ! 2) + 5 = 10 \<and> gt06_sealed a"
proof -
  have "length (py_slice f (- 6) (- 4)) = 1" using assms(1) by (simp add: py_slice_def clamp_index_def)
  moreover from assms(2) obtain p where a:
    "a = GT06_START @ (0x05 # p # py_slice f (- 6) (- 4)) @
         be_bytes 2 (crc16_x25 (0x05 # p # py_slice f (- 6) (- 4))) @ GT06_STOP"
    by (auto simp: build_ack_def Let_def result_simps split: if_splits)
  moreover have "gt06_sealed a" by (unfold gt06_sealed_def, rule exI, rule a)
  ultimately show ?thesis by (simp add: GT06_START_def GT06_STOP_def)
qed

lemma ack_message:
  assumes "gt06_frame f" and "build_ack f = Inr a"
  shows "wire_message GT06 a"
proof (cases "6 \<le> length f")
  case True
  from build_ack_shape [OF assms(1) True assms(2)] show ?thesis by simp
next
  case False
  then have "length f = 5" using gt06_frame_length [OF assms(1)] by simp
  from short_frame_ack [OF this assms(2)] show ?thesis by simp
qed

lemma command_message: "command_frame n c = Inr f \<Longrightarrow> wire_message GT06 f"
  using command_frame_shape by simp

lemma gps103_reply_message: "gps103_reply b \<Longrightarrow> wire_message GPS103 b"
proof -
  have "gps103_coded b" if "build_help_me_ack imei = Inr b" for imei
    unfolding gps103_coded_def
    by (intro exI [of _ imei] exI [of _ "''E''"]) (use that in \<open>simp add: build_help_me_ack_def\<close>)
  then show "gps103_reply b \<Longrightarrow> ?thesis" by (auto simp: gps103_reply_def)
qed

lemma gps103_text_message: "gps103_command_frame imei code = Inr f \<Longrightarrow> code \<in> {''B'', ''K''} \<Longrightarrow> wire_message GPS103 f"
  by (auto simp: gps103_command_frame_def gps103_coded_def split: if_splits)

lemma teltonika_reply_message: "teltonika_reply b \<Longrightarrow> wire_message TELTONIKA b"
  by (auto simp: teltonika_reply_def avl_ack_def split: if_splits)

section \<open>A socket that speaks one family\<close>

definition speaks :: "family \<Rightarrow> sock \<Rightarrow> world \<Rightarrow> bool" where
  "speaks fam t w \<longleftrightarrow> list_all (wire_message fam) (sent w t) \<and>
     (\<forall>i e. get_device (reg w) i = Some e \<and> e_socket e = t \<longrightarrow> e_protocol e = fam)"

lemma speaks_parts [simp]:
  "session_inv (speaks fam t)" "cache_inv (speaks fam t)" "serial_inv (speaks fam t)"
  unfolding speaks_def session_inv_def cache_inv_def serial_inv_def tick_def by auto

lemma speaks_cong: "reg w' = reg w \<Longrightarrow> sent w' = sent w \<Longrightarrow> speaks fam t w' = speaks fam t w"
  by (simp only: speaks_def)

lemma speaks_tick [simp]: "speaks fam t (tick w) = speaks fam t w"
  by (rule speaks_cong) simp_all

lemma speaks_close: "keeps (speaks fam t) (close_socket s)"
  unfolding close_socket_def by (rule keeps_modifyM) (auto simp: speaks_def)

lemma speaks_write:
  assumes "t = s \<Longrightarrow> wire_message fam b"
  shows "keeps (speaks fam t) (write_drain s b)"
  unfolding write_drain_def
  by (rule keeps_external) (use assms in \<open>auto simp: speaks_def push_bytes_def tick_def\<close>)

lemma speaks_with_reg:
  assumes "\<And>r i e. get_device (f r) i = Some e \<Longrightarrow>
      \<exists>j d. get_device r j = Some d \<and> e_socket d = e_socket e \<and> e_protocol d = e_protocol e"
  shows "keeps (speaks fam t) (with_reg f)"
  unfolding with_reg_def by (rule keeps_modifyM) (use assms in \<open>fastforce simp: speaks_def\<close>)

lemma speaks_notes:
  "keeps (speaks fam t) (with_reg (note_position i v x))" "keeps (speaks fam t) (with_reg (update_last_seen i x))"
  "keeps (speaks fam t) (with_reg (note_poll i x))" "keeps (speaks fam t) (with_reg (mark_packet_received x))"
  "keeps (speaks fam t) (with_reg (unregister_device i))"
proof -
  show "keeps (speaks fam t) (with_reg (note_position i v x))"
    by (rule speaks_with_reg) (auto simp: note_position_def get_device_map_entry split: if_splits, blast)
  show "keeps (speaks fam t) (with_reg (update_last_seen i x))"
    by (rule speaks_with_reg) (auto simp: update_last_seen_def get_device_map_entry split: if_splits, blast)
  show "keeps (speaks fam t) (with_reg (note_poll i x))"
    by (rule speaks_with_reg) (auto simp: note_poll_def get_device_map_entry split: if_splits, blast)
  show "keeps (speaks fam t) (with_reg (mark_packet_received x))"
    by (rule speaks_with_reg) auto
  show "keeps (speaks fam t) (with_reg (unregister_device i))"
    by (rule speaks_with_reg) (auto simp: get_device_unregister split: if_splits)
qed

lemma speaks_register:
  assumes "t = s \<Longrightarrow> p = fam"
  shows "keeps (speaks fam t) (reg_register i ip dev s p)"
  unfolding reg_register_def
proof (intro keeps_bindM keeps_oracle_part speaks_parts)
  fix t1 t2
  show "keeps (speaks fam t) (with_reg (register_device i ip dev s p t1 t2))"
    unfolding with_reg_def
    by (rule keeps_modifyM)
      (use assms in \<open>auto simp: speaks_def register_device_def get_device_put new_entry_def split: if_splits\<close>)
qed

section \<open>Connections\<close>

lemma handler_speaks:
  assumes "frame_for cfg f raw" and "t = s \<Longrightarrow> f = fam"
  shows "keeps (speaks fam t) (handler_of f cfg raw s ip)"
proof (cases f)
  case GT06
  have "t = s \<Longrightarrow> build_ack raw = Inr a \<Longrightarrow> wire_message fam a" for a
    using ack_message assms GT06 by fastforce
  with GT06 assms(2) show ?thesis
    by (simp, intro process_packet_keeps gt06_branch_keeps speaks_close speaks_parts speaks_write
        speaks_register) simp_all
next
  case GPS103
  have "t = s \<Longrightarrow> gps103_reply b \<Longrightarrow> wire_message fam b" for b
    using gps103_reply_message assms(2) GPS103 by fastforce
  with GPS103 assms(2) show ?thesis
    by (simp, intro process_gps103_keeps gps103_branch_keeps speaks_close speaks_parts speaks_write
        speaks_notes speaks_register) simp_all
next
  case TELTONIKA
  have "t = s \<Longrightarrow> teltonika_reply b \<Longrightarrow> wire_message fam b" for b
    using teltonika_reply_message assms(2) TELTONIKA by fastforce
  with TELTONIKA assms(2) show ?thesis
    by (simp, intro process_teltonika_keeps avl_session_keeps accept_session_keeps speaks_close
        speaks_parts speaks_write speaks_register) simp_all
qed

lemma frame_speaks:
  assumes "frame_for cfg f raw" and "t = s \<Longrightarrow> f = fam"
  shows "keeps (speaks fam t) (handle_frame cfg f s ip imei raw)"
  unfolding handle_frame_def reg_seen_def reg_mark_packet_def
  by (intro keeps_tryM keeps_bindM keeps_case_option keeps_if keeps_thenM keeps_ret handler_speaks
      keeps_oracle_part speaks_parts speaks_notes assms)

lemma packets_speak:
  assumes "list_all (frame_for cfg f) packets" and "t = s \<Longrightarrow> f = fam"
  shows "keeps (speaks fam t) (handle_packets cfg f s ip imei packets)"
  using assms(1)
proof (induction packets arbitrary: imei)
  case Nil
  show ?case unfolding handle_packets.simps by (rule keeps_ret)
next
  case (Cons p ps)
  then show ?case
    unfolding handle_packets.simps
    by (intro keeps_bindM keeps_getsM keeps_if keeps_ret keeps_case_prod frame_speaks assms(2) Cons.IH)
      simp_all
qed

lemma batch_speaks:
  assumes "t = s \<Longrightarrow> f = fam"
  shows "keeps (speaks fam t) (run_batch cfg s ip f imei b)"
proof (cases "framer_of cfg f b")
  case (Inl e)
  then show ?thesis by (simp add: run_batch_def keeps_ret)
next
  case (Inr x)
  obtain ps r where x: "x = (ps, r)" by (cases x)
  have "list_all (frame_for cfg f) ps" using pipeline.frames_ok Inr x by blast
  then show ?thesis
    unfolding run_batch_def Inr x
    by (simp, intro keeps_bindM keeps_case_prod keeps_ret packets_speak assms)
qed

text \<open>What is known of the family of a socket by what its connection is doing.\<close>

fun activity_speaks :: "activity option \<Rightarrow> sock \<Rightarrow> world \<Rightarrow> bool" where
  "activity_speaks (Some (Running (Probing data))) s w \<longleftrightarrow> (\<forall>fam. speaks fam s w)"
| "activity_speaks (Some (Running (Serving fam imei buffer))) s w \<longleftrightarrow> speaks fam s w"
| "activity_speaks _ s w \<longleftrightarrow> (\<exists>fam. speaks fam s w)"

lemma activity_speaks_weak: "activity_speaks a s w \<Longrightarrow> \<exists>fam. speaks fam s w"
  by (cases "(a, s, w)" rule: activity_speaks.cases) auto

lemma activity_speaks_mono:
  "(\<And>fam. speaks fam s w \<Longrightarrow> speaks fam s w') \<Longrightarrow> activity_speaks a s w \<Longrightarrow> activity_speaks a s w'"
  by (cases "(a, s, w)" rule: activity_speaks.cases) auto

lemma turn_speaks_other:
  assumes "t \<noteq> s"
  shows "keeps (speaks fam t) (conn_turn cfg s ip ph ev)"
proof -
  have "keeps (speaks fam t) (run_batch cfg s ip f i b)" for f i b
    by (rule batch_speaks) (use assms in simp)
  then show ?thesis
    by (cases ph; cases ev) (simp_all add: open_stream_def keeps_ret keeps_if keeps_case_option conn_turn.simps)
qed

lemma batch_speaks_own:
  assumes "run_batch cfg s ip f imei b w = (Inr ph', w')" and "speaks f s w"
  shows "activity_speaks (Some (Running ph')) s w'"
proof -
  have "speaks f s w'" using keepsD2 [OF batch_speaks assms(1)] assms(2) by simp
  moreover have "(\<exists>i r. ph' = Serving f i r) \<or> (\<exists>i. ph' = Ending i)"
    using assms(1) by (auto simp: run_batch_def bindM_def split: sum.splits prod.splits if_splits)
  ultimately show ?thesis by auto
qed

lemma turn_speaks_own:
  assumes "conn_turn cfg s ip ph ev w = (Inr ph', w')" and "activity_speaks (Some (Running ph)) s w"
  shows "activity_speaks (Some (Running ph')) s w'"
proof -
  have op: "activity_speaks (Some (Running ph')) s w'"
    if "open_stream cfg s ip d w = (Inr ph', w')" "\<forall>fam. speaks fam s w" for d
    using that by (auto simp: open_stream_def split: option.splits intro: batch_speaks_own)
  show ?thesis
    using assms
    by (cases ph; cases ev)
      (auto simp: conn_turn.simps split: if_splits intro: op batch_speaks_own)
qed

section \<open>Commands and polls\<close>

lemma send_command_speaks:
  assumes "wire_message GT06 f"
  shows "keeps (speaks fam t) (send_command imei f)"
proof (unfold keeps_def, intro allI impI)
  fix w assume sp: "speaks fam t w"
  show "speaks fam t (snd (send_command imei f w))"
  proof (cases "get_device (reg w) imei")
    case None
    with sp show ?thesis by (simp add: send_command_def bindM_def get_socket_def raise_def)
  next
    case (Some e)
    have "t = e_socket e \<Longrightarrow> e_protocol e = GT06 \<Longrightarrow> wire_message fam f"
      using sp Some assms by (auto simp: speaks_def)
    with sp Some keepsD [OF speaks_write, of t "e_socket e" fam f w] show ?thesis
      by (simp add: send_command_def bindM_def Let_def get_socket_def raise_def)
  qed
qed

lemma send_gps103_speaks: "keeps (speaks fam t) (send_gps103_command imei c)"
proof (unfold keeps_def, intro allI impI)
  fix w assume sp: "speaks fam t w"
  show "speaks fam t (snd (send_gps103_command imei c w))"
  proof (cases "get_device (reg w) imei")
    case None
    with sp show ?thesis by (simp add: send_gps103_command_def bindM_def get_socket_def raise_def)
  next
    case (Some e)
    have "speaks fam t (snd (bindM (liftR (build imei)) (\<lambda>payload. write_drain (e_socket e) payload) w))"
      if "map_of GPS103_SUPPORTED c = Some build" "e_protocol e = GPS103" for build
    proof (rule bindM_lift_at [where I = "speaks fam t", OF sp])
      fix f assume "build imei = Inr f"
      from gps103_supported_frame [OF that(1) this] have "wire_message GPS103 f"
        by (rule gps103_text_message) simp
      moreover have "t = e_socket e \<Longrightarrow> fam = GPS103" using sp Some that(2) by (auto simp: speaks_def)
      ultimately show "speaks fam t (snd (write_drain (e_socket e) f w))"
        by (intro keepsD [OF speaks_write] sp) auto
    qed
    with sp Some show ?thesis
      by (simp add: send_gps103_command_def bindM_def get_socket_def raise_def split: option.split)
  qed
qed

lemma sends_speaks:
  assumes "sends imei m"
  shows "keeps (speaks fam t) m"
proof (unfold keeps_def, intro allI impI)
  fix w assume sp: "speaks fam t w"
  obtain b where b: "builds b" "m = send_built imei b" using assms by (auto simp: sends_def)
  obtain r w' where m: "m w = (r, w')" by (cases "m w")
  from send_built_cases [OF b(1), of imei w r w'] m b(2) obtain w1 where
    w1: "reg w1 = reg w" "sent w1 = sent w"
    and c: "w' = w1 \<or> (\<exists>f n c. command_frame n c = Inr f \<and> send_command imei f w1 = (r, w'))" by blast
  have "speaks fam t w1" using sp speaks_cong [OF w1] by blast
  with c keepsD2 [OF send_command_speaks [OF command_message]] have "speaks fam t w'" by metis
  with m show "speaks fam t (snd (m w))" by simp
qed

lemma run_async_speaks: "keeps (speaks fam t) m \<Longrightarrow> keeps (speaks fam t) (run_async m)"
  unfolding keeps_def by (auto intro!: run_async_at [where I = "speaks fam t"])

lemma run_command_speaks: "keeps (speaks fam t) (run_command imei c params)"
proof -
  have s: "keeps (speaks fam t) (case map_of SIMPLE_COMMANDS c of Some send \<Rightarrow> run_async (send imei)
             | None \<Rightarrow> bindM (liftR (param_command imei c params)) run_async)"
  proof (cases "map_of SIMPLE_COMMANDS c")
    case None
    have "keeps (speaks fam t) (bindM (liftR (param_command imei c params)) run_async)"
      by (rule keeps_liftR_bind) (intro run_async_speaks sends_speaks param_sends)
    with None show ?thesis by simp
  next
    case (Some send)
    with run_async_speaks [OF sends_speaks [OF simple_sends [OF Some]]] show ?thesis by simp
  qed
  show ?thesis
    unfolding run_command_def
    by (intro keeps_bindM keeps_getsM keeps_if s run_async_speaks send_gps103_speaks)
qed

lemma do_POST_speaks: "speaks fam t w \<Longrightarrow> speaks fam t (snd (do_POST key rq w))"
  by (rule do_POST_at [where I = "speaks fam t"]) (auto intro: keepsD [OF run_command_speaks])

lemma poll_device_speaks:
  assumes "speaks fam t w" and "\<And>e. get_device (reg w) i = Some e \<Longrightarrow> e_protocol e = GPS103"
  shows "speaks fam t (snd (poll_device i w))"
proof (cases "get_device (reg w) i")
  case None
  with assms(1) show ?thesis by (simp add: poll_device_def bindM_def)
next
  case (Some e)
  have "speaks fam t (snd (bindM (liftR (build_single_position i)) (\<lambda>payload.
      thenM (write_drain (e_socket e) payload)
        (bindM now_utc (\<lambda>now. thenM (with_reg (note_poll i now)) (ret (1 :: nat))))) w))"
  proof (rule bindM_lift_at [where I = "speaks fam t", OF assms(1)])
    fix f assume "build_single_position i = Inr f"
    then have "wire_message GPS103 f"
      unfolding build_single_position_def by (rule gps103_text_message) simp
    moreover have "t = e_socket e \<Longrightarrow> fam = GPS103" using assms Some by (auto simp: speaks_def)
    ultimately have "keeps (speaks fam t) (thenM (write_drain (e_socket e) f)
        (bindM now_utc (\<lambda>now. thenM (with_reg (note_poll i now)) (ret (1 :: nat)))))"
      by (intro keeps_thenM keeps_bindM keeps_oracle_part speaks_parts speaks_notes keeps_ret speaks_write) auto
    from keepsD [OF this assms(1)] show "speaks fam t (snd (thenM (write_drain (e_socket e) f)
        (bindM now_utc (\<lambda>now. thenM (with_reg (note_poll i now)) (ret (1 :: nat)))) w))" .
  qed
  with Some show ?thesis
    by (simp add: poll_device_def bindM_def [of "reg_device i"]) (rule tryM_at [where I = "speaks fam t"], simp, rule keeps_ret)
qed

lemma same_sessions_protocol:
  assumes "same_sessions r r'" and "get_device r' i = Some e"
  shows "\<exists>d. get_device r i = Some d \<and> e_protocol d = e_protocol e"
proof -
  have "map_option (\<lambda>e. (e_socket e, e_protocol e)) (get_device r' i) =
      map_option (\<lambda>e. (e_socket e, e_protocol e)) (get_device r i)"
    using assms(1) by (simp add: same_sessions_def)
  with assms(2) show ?thesis by (cases "get_device r i") auto
qed

lemma poll_all_speaks:
  assumes "speaks fam t w" and "\<forall>i \<in> set imeis. \<forall>e. get_device (reg w) i = Some e \<longrightarrow> e_protocol e = GPS103"
  shows "speaks fam t (snd (poll_all imeis w))"
  using assms
proof (induction imeis arbitrary: w)
  case (Cons i imeis)
  obtain n w1 where 1: "poll_device i w = (Inr n, w1)" using poll_device_returns by blast
  obtain m w2 where 2: "poll_all imeis w1 = (Inr m, w2)" using poll_all_returns by blast
  have "on_reg (same_sessions (reg w)) w" by (simp add: on_reg_def same_sessions_refl)
  from keepsD2 [OF poll_device_sessions 1 this] have "same_sessions (reg w) (reg w1)" by (simp add: on_reg_def)
  then have "\<forall>i \<in> set imeis. \<forall>e. get_device (reg w1) i = Some e \<longrightarrow> e_protocol e = GPS103"
    using Cons.prems(2) same_sessions_protocol by fastforce
  moreover have "speaks fam t w1" using poll_device_speaks [OF Cons.prems(1), of i] Cons.prems(2) 1 by auto
  ultimately have "speaks fam t w2" using Cons.IH [of w1] 2 by simp
  with 1 2 show ?case by (simp add: bindM_def)
qed simp

lemma poller_turn_speaks:
  assumes "speaks fam t w" and "reg_ok (reg w)"
  shows "speaks fam t (snd (poller_turn cfg w))"
proof -
  have "\<forall>i \<in> set (due_devices cfg now (reg w)). \<forall>e. get_device (reg w) i = Some e \<longrightarrow> e_protocol e = GPS103" for now
    using due_devices_gps103 [OF assms(2)] by (fastforce simp: is_due_def)
  then have "speaks fam t (snd (poll_all (due_devices cfg now (reg w)) (tick w)))" for now
    using assms(1) by (intro poll_all_speaks) simp_all
  then have "speaks fam t (snd (poll_once cfg None w))"
    by (simp add: poll_once_def bindM_def now_utc_def)
  then show ?thesis
    unfolding poller_turn_def by (intro tryM_at [where I = "speaks fam t"] bindM_at [where I = "speaks fam t"] keeps_ret)
qed

section \<open>Every step\<close>

lemma step_speaks:
  assumes "session_step cfg n n'" and "reg_ok (reg (n_world n))"
    and "\<forall>s. activity_speaks (n_conns n s) s (n_world n)"
  shows "activity_speaks (n_conns n' x) x (n_world n')"
proof -
  have sp: "\<exists>fam. speaks fam x (n_world n)" using assms(3) activity_speaks_weak by blast
  have mono: "activity_speaks (n_conns n x) x w'" if "\<And>fam. speaks fam x (n_world n) \<Longrightarrow> speaks fam x w'" for w'
    by (rule activity_speaks_mono [OF that assms(3) [rule_format]])
  have step: "activity_speaks (n_conns n x) x (snd (m (n_world n)))"
    if "\<And>fam. keeps (speaks fam x) m" for m :: "unit act"
    by (rule mono) (rule keepsD [OF that])
  from assms(1) show ?thesis
  proof cases
    case (accept s conns w w')
    then have w': "reg w' = reg w" "sent w' = sent w" by (auto simp: try_acquire_slot_def split: if_splits)
    have "speaks fam s w" for fam
      using accept(4)
      by (auto simp: speaks_def fresh_socket_def get_device_def list_all_iff dest!: map_of_SomeD)
    with accept mono [of w'] speaks_cong [OF w'] show ?thesis by (auto split: if_splits)
  next
    case (refuse s conns w w')
    then have w': "reg (snd (close_socket s w')) = reg w" "sent (snd (close_socket s w')) = sent w"
      by (auto simp: try_acquire_slot_def close_socket_def split: if_splits)
    from refuse mono [of "snd (close_socket s w')"] speaks_cong [OF w'] show ?thesis by simp
  next
    case (read conns s ph ip ev w ph' w')
    show ?thesis
    proof (cases "x = s")
      case True
      have "activity_speaks (Some (Running ph)) s w" using read assms(3) by (metis sessions.select_convs)
      from turn_speaks_own [OF read(4) this] True read show ?thesis by simp
    next
      case False
      from read mono [of w'] keepsD2 [OF turn_speaks_other [OF False] read(4)] False show ?thesis by simp
    qed
  next
    case (check conns s imei w i dev)
    with sp mono [of w] show ?thesis by auto
  next
    case (pass conns s imei w)
    with sp step [OF speaks_close, of s] keepsD [OF speaks_close, of _ x w s] show ?thesis by auto
  next
    case (offline conns s i dev w w')
    have k: "speaks fam x w \<Longrightarrow> speaks fam x w'" for fam
      by (rule keepsD2 [OF offline_keeps(1) offline(4)]) simp
    with offline sp mono [of w'] show ?thesis by auto
  next
    case (abort conns s i dev w err w')
    have k: "speaks fam x w \<Longrightarrow> speaks fam x w'" for fam
      by (rule keepsD2 [OF offline_keeps(1) abort(4)]) simp
    with abort sp mono [of w'] show ?thesis by auto
  next
    case (drop conns s i w)
    have k: "keeps (speaks fam x) (drop_registration s i)" for fam
      by (intro drop_registration_keeps speaks_notes speaks_close)
    from drop sp step [OF k] keepsD [OF k] show ?thesis by auto
  next
    case (leave conns s w)
    have parts: "reg (snd (leave w)) = reg w" "sent (snd (leave w)) = sent w"
      by (simp_all add: leave_def thenM_def bindM_def tryM_def wait_closed_def external_def release_slot_def
          split: outcome.split)
    from leave sp mono [of "snd (leave w)"] speaks_cong [OF parts] show ?thesis by auto
  next
    case (poll w r w' conns)
    with assms(2) poller_turn_speaks [of _ x w cfg] mono [of w'] show ?thesis by simp
  next
    case (command api_key rq w reply w' conns)
    with do_POST_speaks [of _ x w api_key rq] mono [of w'] show ?thesis by simp
  next
    case (backend d w conns)
    with mono [of "w \<lparr> db := d \<rparr>"] speaks_cong [of "w \<lparr> db := d \<rparr>" w] show ?thesis by simp
  qed
qed

lemma session_reachable_speaks:
  "session_reachable cfg n \<Longrightarrow> activity_speaks (n_conns n s) s (n_world n)"
proof (induction arbitrary: s rule: session_reachable.induct)
  case (start w)
  then show ?case by (simp add: speaks_def get_device_def empty_registry_def)
next
  case (step n n')
  have "reg_ok (reg (n_world n))"
    using session_reachable_ok [OF step.hyps(1)] by (simp add: coarse_def gateway_ok_def world_ok_def)
  with step show ?case by (blast intro: step_speaks)
qed

text \<open>
  Messages are well typed. In every state reached by \<open>session_step\<close>, and for every socket, there is
  one device family such that everything ever written to the socket (replies, acknowledgements,
  commands, polls, by whichever part of the gateway) is a well-formed message of that family, every
  registry entry on the socket carries that family, and it is the family of the connection while
  it is served. A GT06 message is sealed with its checksum and complete, up to the acknowledgement
  of a five-byte frame; GPS103 text is one of the two fixed words or a coded line, never the
  code that cuts an engine; a Teltonika message is the login reply or a four-byte count.
  A polling cycle is one step here; theory \<open>Tasks\<close> interrupts it.
\<close>

lemma activity_speaks_one_family:
  assumes "activity_speaks (n_conns n s) s (n_world n)"
  shows "\<exists>fam. list_all (wire_message fam) (sent (n_world n) s) \<and>
    (\<forall>i e. get_device (reg (n_world n)) i = Some e \<and> e_socket e = s \<longrightarrow> e_protocol e = fam) \<and>
    (\<forall>f imei buffer. n_conns n s = Some (Running (Serving f imei buffer)) \<longrightarrow> f = fam)"
proof (cases "\<exists>f imei buffer. n_conns n s = Some (Running (Serving f imei buffer))")
  case True
  then obtain f imei buffer where c: "n_conns n s = Some (Running (Serving f imei buffer))" by blast
  have "speaks f s (n_world n)" using assms c by simp
  with c show ?thesis by (intro exI [of _ f]) (auto simp: speaks_def)
next
  case False
  obtain fam where "speaks fam s (n_world n)"
    using activity_speaks_weak [OF assms] by blast
  with False show ?thesis unfolding speaks_def by blast
qed

end
