(* ===== verification/Tasks.thy ===== *)
theory Tasks
  imports Wire_Types
begin

text \<open>
  The poller and the command API cut where other coroutines can run. A polling cycle chooses the due
  devices once and then waits, for up to five seconds each, for every write to drain; the thread
  of the command API looks up the device's family before the coroutine of the command runs on the
  event loop. \<open>Sessions\<close> runs both without interruption; here connections may log in, end and be
  replaced between any two of their steps. One request is one step: while it drains the code lets others
  run too, and then notes the time on the entry it fetched before, so that a device that registered
  anew in between is due again sooner than here; what is written to whom is the same.
\<close>

section \<open>The pieces\<close>

text \<open>
  What the HTTP thread decides: the coroutine of the command, from the family the IMEI has at that
  moment and the request's parameters.
\<close>

definition chosen_command :: "family option \<Rightarrow> string \<Rightarrow> string \<Rightarrow> json \<Rightarrow> unit act result" where
  "chosen_command protocol imei command params =
     (if protocol = Some GPS103 then Inr (send_gps103_command imei command)
      else (case map_of SIMPLE_COMMANDS command of
              Some send \<Rightarrow> Inr (send imei)
            | None \<Rightarrow> param_command imei command params))"

text \<open>Put together they are the command as the API runs it.\<close>

lemma run_command_chosen:
  "run_command imei command params =
     bindM (getsM (\<lambda>w. device_protocol (reg w) imei)) (\<lambda>protocol.
       bindM (liftR (chosen_command protocol imei command params)) run_async)"
  by (rule ext) (simp add: run_command_def chosen_command_def bindM_def split: option.split)

text \<open>The state: the devices the running cycle has still to ask, and the commands handed over.\<close>

record tasks =
  k_sessions :: sessions
  k_due :: "string list"
  k_posted :: "unit act list"

inductive task_step :: "config \<Rightarrow> tasks \<Rightarrow> tasks \<Rightarrow> bool" for cfg where
  session: "session_step cfg n n' \<Longrightarrow>
     task_step cfg \<lparr> k_sessions = n, k_due = due, k_posted = ms \<rparr>
       \<lparr> k_sessions = n', k_due = due, k_posted = ms \<rparr>"
| cycle: "poller_on cfg \<Longrightarrow> due_devices cfg (clock w (calls w)) (reg w) = i # due \<Longrightarrow> poll_device i (tick w) = (r, w') \<Longrightarrow>
     task_step cfg \<lparr> k_sessions = \<lparr> n_world = w, n_conns = conns \<rparr>, k_due = [], k_posted = ms \<rparr>
       \<lparr> k_sessions = \<lparr> n_world = w', n_conns = conns \<rparr>, k_due = due, k_posted = ms \<rparr>"
| ask: "poll_device i w = (r, w') \<Longrightarrow>
     task_step cfg \<lparr> k_sessions = \<lparr> n_world = w, n_conns = conns \<rparr>, k_due = i # due, k_posted = ms \<rparr>
       \<lparr> k_sessions = \<lparr> n_world = w', n_conns = conns \<rparr>, k_due = due, k_posted = ms \<rparr>"
| post: "known_command command \<Longrightarrow> chosen_command (device_protocol (reg (n_world n)) imei) imei command params = Inr m \<Longrightarrow>
     task_step cfg \<lparr> k_sessions = n, k_due = due, k_posted = ms \<rparr>
       \<lparr> k_sessions = n, k_due = due, k_posted = ms @ [m] \<rparr>"
| deliver: "m w = (r, w') \<Longrightarrow>
     task_step cfg \<lparr> k_sessions = \<lparr> n_world = w, n_conns = conns \<rparr>, k_due = due, k_posted = ms @ m # ms' \<rparr>
       \<lparr> k_sessions = \<lparr> n_world = w', n_conns = conns \<rparr>, k_due = due, k_posted = ms @ ms' \<rparr>"

inductive task_reachable :: "config \<Rightarrow> tasks \<Rightarrow> bool" for cfg where
  start: "session_reachable cfg n \<Longrightarrow> task_reachable cfg \<lparr> k_sessions = n, k_due = [], k_posted = [] \<rparr>"
| step: "task_reachable cfg k \<Longrightarrow> task_step cfg k k' \<Longrightarrow> task_reachable cfg k'"

abbreviation task_path :: "config \<Rightarrow> tasks \<Rightarrow> tasks \<Rightarrow> bool" where
  "task_path cfg \<equiv> (task_step cfg)\<^sup>*\<^sup>*"

lemma task_reachable_path: "task_path cfg k k' \<Longrightarrow> task_reachable cfg k \<Longrightarrow> task_reachable cfg k'"
  by (induction rule: rtranclp_induct) (auto intro: task_reachable.step)

section \<open>Commands handed over\<close>

text \<open>What the API hands over is a command of the two services.\<close>

definition command_coroutine :: "unit act \<Rightarrow> bool" where
  "command_coroutine m \<longleftrightarrow> (\<exists>imei. sends imei m \<or> (\<exists>c. m = send_gps103_command imei c))"

lemma chosen_coroutine: "chosen_command p imei c params = Inr m \<Longrightarrow> command_coroutine m"
  by (auto simp: chosen_command_def command_coroutine_def dest: simple_sends param_sends
      split: if_splits option.splits)

lemma coroutine_speaks: "command_coroutine m \<Longrightarrow> keeps (speaks fam t) m"
  by (auto simp: command_coroutine_def intro: sends_speaks send_gps103_speaks)

lemma coroutine_keeps: "command_coroutine m \<Longrightarrow> net_inv I \<Longrightarrow> serial_inv I \<Longrightarrow> keeps I m"
  by (auto simp: command_coroutine_def intro: sends_keeps send_gps103_keeps)

lemma coroutine_parts:
  assumes "command_coroutine m"
  shows "keeps (on_reg R) m" "keeps (on_db D) m" "keeps (pool_is n) m" "outside_inv I \<Longrightarrow> keeps I m"
  by (intro coroutine_keeps assms net_inv_parts serial_inv_parts outside_invD; assumption?)+

lemma poll_device_parts:
  "keeps (on_reg reg_ok) (poll_device i)" "keeps (on_db D) (poll_device i)"
  "keeps (pool_is n) (poll_device i)" "outside_inv I \<Longrightarrow> keeps I (poll_device i)"
  by (intro poll_device_keeps keeps_with_reg_reg reg_ok_note_poll keeps_with_reg net_inv_parts
      reg_inv_parts outside_invD; assumption?)+

section \<open>The invariant at this grain\<close>

definition tasks_ok :: "config \<Rightarrow> tasks \<Rightarrow> bool" where
  "tasks_ok cfg k \<longleftrightarrow> gateway_ok cfg (coarse (k_sessions k)) \<and> list_all command_coroutine (k_posted k)"

lemma task_step_ok:
  assumes "task_step cfg k k'" and "tasks_ok cfg k"
  shows "tasks_ok cfg k'"
  using assms
proof (induction rule: task_step.induct)
  case (session n n' due ms)
  then show ?case by (simp add: tasks_ok_def session_step_ok)
next
  case (cycle w i due r w' conns ms)
  have g: "gateway_ok cfg (coarse \<lparr> n_world = w, n_conns = conns \<rparr>)" using cycle(4) by (simp add: tasks_ok_def)
  then have "world_ok (tick w)" by (simp add: gateway_ok_def coarse_def world_ok_def)
  from coarse_same [OF g this _ _ refl]
  have "gateway_ok cfg (coarse \<lparr> n_world = tick w, n_conns = conns \<rparr>)" by simp
  from coarse_step [where m = "poll_device i", OF this cycle(3) poll_device_parts refl] cycle(4)
  show ?case by (simp add: tasks_ok_def)
next
  case (ask i w r w' conns due ms)
  then have "gateway_ok cfg (coarse \<lparr> n_world = w, n_conns = conns \<rparr>)" by (simp add: tasks_ok_def)
  from coarse_step [where m = "poll_device i", OF this ask(1) poll_device_parts refl] ask(2)
  show ?case by (simp add: tasks_ok_def)
next
  case (post command n imei params m due ms)
  then show ?case by (simp add: tasks_ok_def chosen_coroutine)
next
  case (deliver m w r w' conns due ms ms')
  then have "gateway_ok cfg (coarse \<lparr> n_world = w, n_conns = conns \<rparr>)" and c: "command_coroutine m"
    by (simp_all add: tasks_ok_def)
  from coarse_step [where m = m, OF this(1) deliver(1) coroutine_parts [OF c] refl] deliver(2)
  show ?case by (simp add: tasks_ok_def)
qed

lemma task_reachable_ok: "task_reachable cfg k \<Longrightarrow> tasks_ok cfg k"
proof (induction rule: task_reachable.induct)
  case (start n)
  then show ?case by (simp add: tasks_ok_def session_reachable_ok)
next
  case (step k k')
  then show ?case by (blast intro: task_step_ok)
qed

section \<open>Whole cycles are schedules\<close>

text \<open>A cycle that nothing interrupts is the first request followed by the others.\<close>

lemma poll_all_path:
  "poll_all due w = (r, w') \<Longrightarrow>
   task_path cfg \<lparr> k_sessions = \<lparr> n_world = w, n_conns = conns \<rparr>, k_due = due, k_posted = ms \<rparr>
     \<lparr> k_sessions = \<lparr> n_world = w', n_conns = conns \<rparr>, k_due = [], k_posted = ms \<rparr>"
proof (induction due arbitrary: w r)
  case (Cons i due)
  obtain n w1 where 1: "poll_device i w = (Inr n, w1)" using poll_device_returns by blast
  obtain m w2 where 2: "poll_all due w1 = (Inr m, w2)" using poll_all_returns by blast
  with Cons.prems 1 have w': "w2 = w'" by (simp add: bindM_def)
  from Cons.IH [OF 2 [unfolded w']] task_step.ask [OF 1] show ?case by (metis converse_rtranclp_into_rtranclp)
qed simp

lemma cycle_path:
  assumes "poll_once cfg None w = (r, w')" and "poller_on cfg" and "due_devices cfg (clock w (calls w)) (reg w) \<noteq> []"
  shows "task_path cfg \<lparr> k_sessions = \<lparr> n_world = w, n_conns = conns \<rparr>, k_due = [], k_posted = ms \<rparr>
     \<lparr> k_sessions = \<lparr> n_world = w', n_conns = conns \<rparr>, k_due = [], k_posted = ms \<rparr>"
proof -
  obtain i due where d: "due_devices cfg (clock w (calls w)) (reg w) = i # due"
    using assms(3) by (cases "due_devices cfg (clock w (calls w)) (reg w)") auto
  obtain n w1 where 1: "poll_device i (tick w) = (Inr n, w1)" using poll_device_returns by blast
  obtain m w2 where 2: "poll_all due w1 = (Inr m, w2)" using poll_all_returns by blast
  with assms(1) d 1 have w': "w2 = w'" by (simp add: poll_once_def now_utc_def bindM_def)
  from poll_all_path [OF 2 [unfolded w']] task_step.cycle [OF assms(2) d 1] show ?thesis by (metis converse_rtranclp_into_rtranclp)
qed

section \<open>What a stale request says\<close>

lemma poll_text:
  assumes "build_single_position i = Inr f"
  shows "f ! 0 = 0x2A \<and> 12 \<le> length f"
proof -
  have "encode_ascii (''**,imei:'' @ i @ '',B;'') = Inr f" and "10 \<le> length i"
    using assms by (auto simp: build_single_position_def gps103_command_frame_def split: if_splits)
  then show ?thesis by (auto simp: encode_ascii_Inr_iff char_code_def)
qed

text \<open>It is no message of another family.\<close>

lemma poll_foreign:
  assumes "build_single_position i = Inr f" and "fam \<noteq> GPS103"
  shows "\<not> wire_message fam f"
  using poll_text [OF assms(1)] assms(2)
  by (cases fam) (auto simp: gt06_sealed_def GT06_START_def LOGIN_ACCEPT_def)

text \<open>A request for a device that is no GPS103 device any more changes its own socket only.\<close>

lemma poll_device_speaks_elsewhere:
  assumes "speaks fam t w" and "\<And>e. get_device (reg w) i = Some e \<Longrightarrow> e_socket e \<noteq> t"
  shows "speaks fam t (snd (poll_device i w))"
proof -
  obtain r w' where p: "poll_device i w = (r, w')" by (cases "poll_device i w")
  have "on_reg (same_sessions (reg w)) w" by (simp add: on_reg_def same_sessions_refl)
  from keepsD2 [OF poll_device_sessions p this] have r: "same_sessions (reg w) (reg w')" by (simp add: on_reg_def)
  have "sent w' t = sent w t" using poll_device_other [of w i t] assms(2) p by (auto simp: get_socket_def)
  moreover have "e_protocol e = fam" if g: "get_device (reg w') j = Some e" and s: "e_socket e = t" for j e
  proof -
    have "map_option (\<lambda>e. (e_socket e, e_protocol e)) (get_device (reg w) j) = Some (t, e_protocol e)"
      using r g s unfolding same_sessions_def by (metis option.simps(9))
    with assms(1) show ?thesis by (auto simp: speaks_def)
  qed
  ultimately show ?thesis using assms(1) p by (auto simp: speaks_def)
qed

section \<open>One family per socket\<close>

text \<open>Every socket has a family, of which everything ever written to it is a message.\<close>

definition one_family :: "tasks \<Rightarrow> bool" where
  "one_family k \<longleftrightarrow> (\<forall>s. activity_speaks (n_conns (k_sessions k) s) s (n_world (k_sessions k)))"

lemma task_step_speaks:
  assumes "task_step cfg k k'" and "tasks_ok cfg k" and "one_family k"
    and steady: "\<And>i e. k_due k = i # k_due k' \<Longrightarrow> get_device (reg (n_world (k_sessions k))) i = Some e \<Longrightarrow> e_protocol e = GPS103"
  shows "one_family k'"
proof (unfold one_family_def, intro allI)
  fix t
  have reg: "reg_ok (reg (n_world (k_sessions k)))"
    using assms(2) by (simp add: tasks_ok_def coarse_def gateway_ok_def world_ok_def)
  have now: "activity_speaks (n_conns (k_sessions k) t) t (n_world (k_sessions k))"
    using assms(3) by (simp add: one_family_def)
  from assms(1) show "activity_speaks (n_conns (k_sessions k') t) t (n_world (k_sessions k'))"
  proof cases
    case (session n n' due ms)
    with step_speaks [of cfg n n' t] reg assms(3) show ?thesis by (simp add: one_family_def)
  next
    case (cycle w i due r w' conns ms)
    then have "\<exists>e. get_device (reg w) i = Some e \<and> is_due cfg (clock w (calls w)) e"
      using reg by (intro due_devices_gps103) simp_all
    then have "speaks fam t w \<Longrightarrow> speaks fam t w'" for fam
      using poll_device_speaks [of fam t "tick w" i] cycle(5) by (auto simp: is_due_def)
    from activity_speaks_mono [OF this] cycle now show ?thesis by auto
  next
    case (ask i w r w' conns due ms)
    then have "speaks fam t w \<Longrightarrow> speaks fam t w'" for fam
      using poll_device_speaks [of fam t w i] steady by auto
    from activity_speaks_mono [OF this] ask now show ?thesis by auto
  next
    case (post command n imei params m due ms)
    with now show ?thesis by simp
  next
    case (deliver m w r w' conns due ms ms')
    have "command_coroutine m" using assms(2) deliver by (simp add: tasks_ok_def)
    then have "speaks fam t w \<Longrightarrow> speaks fam t w'" for fam
      using keepsD [OF coroutine_speaks, of m fam t w] deliver(3) by simp
    from activity_speaks_mono [OF this] deliver now show ?thesis by auto
  qed
qed

lemma stale_poll_steps:
  assumes "healthy w" and "known_device (db w) imei dev" and "imei \<noteq> ''''"
    and "conns t = Some (Running (Probing []))" and "t \<notin> closing w"
    and "gt06_frame raw" and "gt06_claim raw = Some imei" and "build_ack raw = Inr ack"
    and "detect_protocol raw (cfg_enabled_protocols cfg) = Some GT06"
    and "build_single_position imei = Inr f"
  shows "\<exists>w1 w2. session_step cfg \<lparr> n_world = w, n_conns = conns \<rparr>
      \<lparr> n_world = w1, n_conns = conns(t \<mapsto> Running (Serving GT06 (Some imei) [])) \<rparr> \<and>
    (\<exists>r. poll_device imei w1 = (r, w2)) \<and>
    map_option (\<lambda>e. (e_socket e, e_protocol e)) (get_device (reg w2) imei) = Some (t, GT06) \<and>
    sent w2 t = sent w t @ [ack, f] \<and> wire_message GT06 ack \<and> \<not> wire_message GT06 f"
proof -
  have five: "5 \<le> length raw" using gt06_frame_length [OF assms(6)] by simp
  have frames: "framer_of cfg GT06 raw = Inr ([raw], [])" using extract_packets_concat [of "[raw]"] assms(6) by simp
  obtain k1 t2 t3 t4 w1 where login: "conn_turn cfg t ip (Probing []) (Data raw) w = (Inr (Serving GT06 (Some imei) []), w1)"
    and w1: "reg w1 = mark_packet_received t4 (update_last_seen imei t3 (register_device imei ip dev t GT06 (clock w k1) t2 (reg w)))"
      "sent w1 = (sent w)(t := sent w t @ [ack])" "closing w1 = closing w" "healthy w1"
    using login_opens [OF assms(1-3) _ _ assms(5,9) frames five, of ack ip] assms(7,8) by auto
  have e: "map_option (\<lambda>e. (e_socket e, e_protocol e)) (get_device (reg w1) imei) = Some (t, GT06)"
    by (simp add: w1 update_last_seen_def get_device_map_entry register_device_def get_device_put new_entry_def)
  obtain n w2 where ask: "poll_device imei w1 = (Inr n, w2)" using poll_device_returns by blast
  have "same_sessions (reg w1) (reg w2)"
    using keepsD2 [OF poll_device_sessions ask, of "reg w1"] by (simp add: on_reg_def same_sessions_refl)
  with e have e2: "map_option (\<lambda>e. (e_socket e, e_protocol e)) (get_device (reg w2) imei) = Some (t, GT06)"
    by (simp add: same_sessions_def)
  have sent: "sent w2 t = sent w t @ [ack, f]"
    using ask e assms(5,10) w1
    by (auto simp: poll_device_def bindM_def tryM_def thenM_def write_drain_def healthy_external push_bytes_def
        now_utc_def with_reg_def)
  have "session_step cfg \<lparr> n_world = w, n_conns = conns \<rparr>
      \<lparr> n_world = w1, n_conns = conns(t \<mapsto> Running (Serving GT06 (Some imei) [])) \<rparr>"
    using assms(4) login by (rule session_step.read)
  then show ?thesis
    using ask e2 sent ack_message [OF assms(6,8)] poll_foreign [OF assms(10), of GT06] by blast
qed

section \<open>Schedules without a stale poll\<close>

text \<open>
  A request of a running cycle is stale when its device is not a GPS103 device any more. Without the
  poller there is no cycle, and no stale request.
\<close>

definition stale_poll :: "tasks \<Rightarrow> tasks \<Rightarrow> bool" where
  "stale_poll k k' \<longleftrightarrow> (\<exists>i e. k_due k = i # k_due k' \<and>
     get_device (reg (n_world (k_sessions k))) i = Some e \<and> e_protocol e \<noteq> GPS103)"

definition steady_step :: "config \<Rightarrow> tasks \<Rightarrow> tasks \<Rightarrow> bool" where
  "steady_step cfg k k' \<longleftrightarrow> task_step cfg k k' \<and> \<not> stale_poll k k'"

lemma steady_path_speaks:
  assumes "(steady_step cfg)\<^sup>*\<^sup>* k k'" and "tasks_ok cfg k" and "one_family k"
  shows "tasks_ok cfg k' \<and> one_family k'"
  using assms
proof (induction rule: rtranclp_induct)
  case (step k1 k2)
  then show ?case
    using task_step_ok [of cfg k1 k2] task_step_speaks [of cfg k1 k2] unfolding steady_step_def stale_poll_def by blast
qed simp

lemma idle_poller_steady:
  assumes "task_path cfg k k'" and "\<not> poller_on cfg" and "k_due k = []"
  shows "(steady_step cfg)\<^sup>*\<^sup>* k k' \<and> k_due k' = []"
  using assms
proof (induction rule: rtranclp_induct)
  case (step k1 k2)
  then have ih: "(steady_step cfg)\<^sup>*\<^sup>* k k1" "k_due k1 = []" by simp_all
  from step.hyps(2) ih(2) assms(2) have "k_due k2 = []" by (cases rule: task_step.cases) simp_all
  moreover have "steady_step cfg k1 k2" using step.hyps(2) ih(2) by (simp add: steady_step_def stale_poll_def)
  ultimately show ?case using ih(1) by (simp add: rtranclp.rtrancl_into_rtrancl)
qed simp

section \<open>Properties\<close>

text \<open>
  C3. Messages are well typed. Let connections, the poller, the command API and the \<^verbatim>\<open>finally\<close> blocks
  interleave at their awaits, by any schedule with the poller off, or by any schedule in which no
  request of a polling cycle goes to a device that has changed its family since the cycle chose
  it (C5 shows such a request, C4 that nothing else can break this). Then for every socket there is
  one device family such that everything ever written to the socket (replies, acknowledgements,
  commands, polls) is a well-formed message of that family, every registry entry on the socket
  carries that family, and it is the family of the connection while it is served. A GT06 message is
  sealed with its checksum and complete, up to the acknowledgement of a five-byte frame; GPS103
  text is one of the two fixed words or a coded line, never the code that cuts an engine; a
  Teltonika message is the login reply or a four-byte count.
\<close>

theorem sockets_speak_one_family:
  assumes "session_reachable cfg n"
    and "(steady_step cfg)\<^sup>*\<^sup>* \<lparr> k_sessions = n, k_due = [], k_posted = [] \<rparr> k \<or>
      (\<not> poller_on cfg \<and> task_path cfg \<lparr> k_sessions = n, k_due = [], k_posted = [] \<rparr> k)"
  shows "\<exists>fam. list_all (wire_message fam) (sent (n_world (k_sessions k)) s) \<and>
    (\<forall>i e. get_device (reg (n_world (k_sessions k))) i = Some e \<and> e_socket e = s \<longrightarrow> e_protocol e = fam) \<and>
    (\<forall>f imei buffer. n_conns (k_sessions k) s = Some (Running (Serving f imei buffer)) \<longrightarrow> f = fam)"
proof -
  let ?start = "\<lparr> k_sessions = n, k_due = [], k_posted = [] \<rparr>"
  have "(steady_step cfg)\<^sup>*\<^sup>* ?start k" using assms(2) idle_poller_steady [of cfg ?start k] by auto
  moreover have "tasks_ok cfg ?start" using task_reachable_ok [OF task_reachable.start [OF assms(1)]] .
  moreover have "one_family ?start" using session_reachable_speaks [OF assms(1)] by (simp add: one_family_def)
  ultimately have "one_family k" using steady_path_speaks by blast
  then show ?thesis using activity_speaks_one_family unfolding one_family_def by blast
qed

text \<open>With the poller off a device logs in on one connection while another one is being torn down.\<close>

theorem sockets_speak_one_family_witness:
  "\<exists>k a. task_reachable default_config k \<and> n_conns (k_sessions k) 8 = Some (Running (Serving GT06 (Some ''123456789012345'') [])) \<and>
     a \<in> set (sent (n_world (k_sessions k)) 8) \<and> wire_message GT06 a"
proof -
  obtain w conns where r: "session_reachable default_config \<lparr> n_world = w, n_conns = conns \<rparr>"
    and w: "healthy w" "db w = known_database" "closing w = {}" and c: "conns 8 = Some (Running (Probing []))"
    using race_state_reachable by blast
  obtain a where a: "build_ack sample_login = Inr a" using build_ack_total [OF sample_login_frame] by blast
  have known: "known_device (db w) ''123456789012345'' ''d1''" using known_sample w(2) by simp
  have frames: "framer_of default_config GT06 sample_login = Inr ([sample_login], [])"
    using extract_packets_concat [of "[sample_login]"] sample_login_frame by simp
  have "5 \<le> length sample_login" using gt06_frame_length [OF sample_login_frame] by simp
  moreover have "detect_protocol sample_login (cfg_enabled_protocols default_config) = Some GT06"
    using sniff_gt06 [of sample_login] by (simp add: detect_protocol_def sample_login_def default_config_def)
  ultimately obtain w1 where login: "conn_turn default_config 8 ''10.0.0.8'' (Probing []) (Data sample_login) w =
      (Inr (Serving GT06 (Some ''123456789012345'') []), w1)" and sent: "sent w1 = (sent w)(8 := sent w 8 @ [a])"
    using login_opens [OF w(1) known _ _ _ _ _ frames, of a 8 "''10.0.0.8''"] sample_login_claim a w(3) by auto
  let ?conns = "conns(8 \<mapsto> Running (Serving GT06 (Some ''123456789012345'') []))"
  let ?k = "\<lparr> k_sessions = \<lparr> n_world = w1, n_conns = ?conns \<rparr>, k_due = [], k_posted = [] \<rparr>"
  have "session_step default_config \<lparr> n_world = w, n_conns = conns \<rparr> \<lparr> n_world = w1, n_conns = ?conns \<rparr>"
    using c login by (rule session_step.read)
  then have path: "task_path default_config \<lparr> k_sessions = \<lparr> n_world = w, n_conns = conns \<rparr>, k_due = [], k_posted = [] \<rparr> ?k"
    by (intro r_into_rtranclp task_step.session)
  have "\<not> poller_on default_config" by (simp add: poller_on_def default_config_def)
  with path sockets_speak_one_family [OF r, of ?k 8]
  obtain fam where "list_all (wire_message fam) (sent w1 8)" "fam = GT06" by auto
  then have "wire_message GT06 a" by (simp add: sent)
  moreover have "task_reachable default_config ?k"
    using task_reachable_path [OF path task_reachable.start [OF r]] .
  ultimately show ?thesis by (intro exI [of _ ?k] exI [of _ a]) (simp add: sent)
qed

text \<open>
  C5. The poller's race, which the command services guard against and the poller does not: the cycle
  has chosen a device and waits for the writes to other devices to drain; meanwhile the IMEI logs in
  as a GT06 device on another connection. From any such state, with no call failing, the cycle goes
  on to write GPS103 text to the GT06 connection, which has just been served its acknowledgement.
\<close>

theorem poll_race:
  assumes "healthy w" and "known_device (db w) imei dev" and "imei \<noteq> ''''"
    and "conns t = Some (Running (Probing []))" and "t \<notin> closing w"
    and "gt06_frame raw" and "gt06_claim raw = Some imei" and "build_ack raw = Inr ack"
    and "detect_protocol raw (cfg_enabled_protocols cfg) = Some GT06"
    and "build_single_position imei = Inr f"
  shows "\<exists>k. task_path cfg
      \<lparr> k_sessions = \<lparr> n_world = w, n_conns = conns \<rparr>, k_due = imei # due, k_posted = ms \<rparr> k \<and>
    k_due k = due \<and> n_conns (k_sessions k) t = Some (Running (Serving GT06 (Some imei) [])) \<and>
    map_option (\<lambda>e. (e_socket e, e_protocol e)) (get_device (reg (n_world (k_sessions k))) imei) = Some (t, GT06) \<and>
    sent (n_world (k_sessions k)) t = sent w t @ [ack, f] \<and> wire_message GT06 ack \<and> \<not> wire_message GT06 f"
proof -
  let ?serving = "conns(t \<mapsto> Running (Serving GT06 (Some imei) []))"
  obtain w1 w2 r where login: "session_step cfg \<lparr> n_world = w, n_conns = conns \<rparr> \<lparr> n_world = w1, n_conns = ?serving \<rparr>"
    and ask: "poll_device imei w1 = (r, w2)"
    and facts: "map_option (\<lambda>e. (e_socket e, e_protocol e)) (get_device (reg w2) imei) = Some (t, GT06)"
      "sent w2 t = sent w t @ [ack, f]" "wire_message GT06 ack" "\<not> wire_message GT06 f"
    using stale_poll_steps [where conns = conns and cfg = cfg, OF assms] by blast
  have "task_path cfg \<lparr> k_sessions = \<lparr> n_world = w, n_conns = conns \<rparr>, k_due = imei # due, k_posted = ms \<rparr>
      \<lparr> k_sessions = \<lparr> n_world = w2, n_conns = ?serving \<rparr>, k_due = due, k_posted = ms \<rparr>"
    using task_step.session [OF login] task_step.ask [OF ask]
    by (metis converse_rtranclp_into_rtranclp r_into_rtranclp)
  with facts show ?thesis
    by (intro exI [of _ "\<lparr> k_sessions = \<lparr> n_world = w2, n_conns = ?serving \<rparr>, k_due = due, k_posted = ms \<rparr>"]) simp
qed

text \<open>
  Such a state is reached with two GPS103 devices: both log in, five minutes later the poller finds
  both due and asks the first.
\<close>

definition polling_config :: config where
  "polling_config = default_config \<lparr> cfg_poll_seconds := 60 \<rparr>"

definition two_trackers :: database where
  "two_trackers = known_database \<lparr> gps_devices := (gps_devices known_database)(''123456789012346'' \<mapsto>
     \<lparr> gd_device_id = ''d2'', gd_sim_number = None, gd_device_model = ''TK103'',
       gd_protocol_type = ''GPS103'', gd_activation_status = 1 \<rparr>) \<rparr>"

definition tk103_login :: "string \<Rightarrow> bytes" where
  "tk103_login imei = map (\<lambda>c. of_nat (char_code c)) (''##,imei:'' @ imei @ '',A;'')"

lemma tracker_logs_in:
  assumes "healthy w" and "known_device (db w) imei dev" and "s \<notin> closing w"
    and "imei \<in> {''123456789012345'', ''123456789012346''}"
  shows "\<exists>k1 t2 t3 t4 w'. conn_turn polling_config s ip (Probing []) (Data (tk103_login imei)) w =
      (Inr (Serving GPS103 (Some imei) []), w') \<and>
    reg w' = mark_packet_received t4 (update_last_seen imei t3 (register_device imei ip dev s GPS103 (clock w k1) t2 (reg w))) \<and>
    k1 < calls w' \<and> calls w \<le> calls w' \<and> clock w' = clock w \<and>
    sent w' = (sent w)(s := sent w s @ [LOGIN_REPLY]) \<and> closing w' = closing w \<and> healthy w'"
proof (rule login_opens [OF assms(1,2) _ _ _ assms(3)])
  show "imei \<noteq> ''''" using assms(4) by auto
  have "claim_of GPS103 (butlast (tk103_login ''123456789012345'')) = Some ''123456789012345''"
    "claim_of GPS103 (butlast (tk103_login ''123456789012346'')) = Some ''123456789012346''"
    by code_simp+
  then show "claim_of GPS103 (butlast (tk103_login imei)) = Some imei" using assms(4) by auto
  have "detect_protocol (tk103_login ''123456789012345'') (cfg_enabled_protocols polling_config) = Some GPS103"
    "detect_protocol (tk103_login ''123456789012346'') (cfg_enabled_protocols polling_config) = Some GPS103"
    by code_simp+
  then show "detect_protocol (tk103_login imei) (cfg_enabled_protocols polling_config) = Some GPS103"
    using assms(4) by auto
  have "framer_of polling_config GPS103 (tk103_login ''123456789012345'') = Inr ([butlast (tk103_login ''123456789012345'')], [])"
    "framer_of polling_config GPS103 (tk103_login ''123456789012346'') = Inr ([butlast (tk103_login ''123456789012346'')], [])"
    by code_simp+
  then show "framer_of polling_config GPS103 (tk103_login imei) = Inr ([butlast (tk103_login imei)], [])"
    using assms(4) by auto
qed (use assms(4) in \<open>auto simp: tk103_login_def\<close>)

lemma poll_device_quiet:
  "closing (snd (poll_device i w)) = closing w" "db (snd (poll_device i w)) = db w"
  "outcomes (snd (poll_device i w)) = outcomes w"
  by (auto simp: poll_device_def bindM_def tryM_def thenM_def write_drain_def external_def push_bytes_def
      reg_device_def now_utc_def with_reg_def split: option.split sum.split outcome.split)

lemma stale_poll_reachable:
  "\<exists>w conns. task_reachable polling_config
      \<lparr> k_sessions = \<lparr> n_world = w, n_conns = conns \<rparr>, k_due = [''123456789012345''], k_posted = [] \<rparr> \<and>
    one_family \<lparr> k_sessions = \<lparr> n_world = w, n_conns = conns \<rparr>, k_due = [''123456789012345''], k_posted = [] \<rparr> \<and>
    healthy w \<and> db w = two_trackers \<and> closing w = {} \<and> conns 9 = Some (Running (Probing []))"
proof -
  let ?a = "''123456789012346''" and ?b = "''123456789012345''" and ?open = "Running (Probing [])"
  let ?w0 = "(start_world two_trackers) \<lparr> clock := (\<lambda>k. int k * 1000000000) \<rparr>"
  let ?w1 = "?w0 \<lparr> connection_count := 1 \<rparr>" and ?w2 = "?w0 \<lparr> connection_count := 2 \<rparr>"
  let ?w3 = "?w0 \<lparr> connection_count := 3 \<rparr>"
  let ?c = "[7 \<mapsto> ?open, 8 \<mapsto> ?open, 9 \<mapsto> ?open]"
  let ?ca = "?c(7 \<mapsto> Running (Serving GPS103 (Some ?a) []))"
  let ?cb = "?ca(8 \<mapsto> Running (Serving GPS103 (Some ?b) []))"
  note world = fresh_socket_def start_world_def empty_registry_def try_acquire_slot_def polling_config_def default_config_def
  have db: "db_ok two_trackers" by (simp add: db_ok_def stored_rows_ok_def two_trackers_def known_database_def empty_database_def)
  have known: "known_device two_trackers ?a ''d2''" "known_device two_trackers ?b ''d1''"
    by (simp_all add: known_device_def admitted_def two_trackers_def known_database_def empty_database_def)
  have "session_reachable polling_config \<lparr> n_world = ?w0, n_conns = Map.empty \<rparr>"
    by (rule session_reachable.start) (simp_all add: db start_world_def)
  moreover have "session_step polling_config \<lparr> n_world = ?w0, n_conns = Map.empty \<rparr> \<lparr> n_world = ?w1, n_conns = [7 \<mapsto> ?open] \<rparr>"
    by (rule session_step.accept) (simp_all add: world)
  moreover have "session_step polling_config \<lparr> n_world = ?w1, n_conns = [7 \<mapsto> ?open] \<rparr>
      \<lparr> n_world = ?w2, n_conns = [7 \<mapsto> ?open, 8 \<mapsto> ?open] \<rparr>"
    by (rule session_step.accept) (simp_all add: world)
  moreover have "session_step polling_config \<lparr> n_world = ?w2, n_conns = [7 \<mapsto> ?open, 8 \<mapsto> ?open] \<rparr>
      \<lparr> n_world = ?w3, n_conns = ?c \<rparr>"
    by (rule session_step.accept) (simp_all add: world)
  ultimately have r3: "session_reachable polling_config \<lparr> n_world = ?w3, n_conns = ?c \<rparr>"
    by (meson session_reachable.step)
  obtain ka t2 t3 t4 wa where a: "conn_turn polling_config 7 ''10.0.0.7'' (Probing []) (Data (tk103_login ?a)) ?w3 =
      (Inr (Serving GPS103 (Some ?a) []), wa)"
    and wa: "reg wa = mark_packet_received t4 (update_last_seen ?a t3
        (register_device ?a ''10.0.0.7'' ''d2'' 7 GPS103 (clock ?w3 ka) t2 (reg ?w3)))"
      "ka < calls wa" "clock wa = clock ?w3" "closing wa = closing ?w3" "healthy wa"
    using tracker_logs_in [of ?w3 ?a "''d2''" 7 "''10.0.0.7''"] known(1) by (auto simp: healthy_def)
  let ?wa = "wa \<lparr> db := two_trackers \<rparr>"
  obtain kb u2 u3 u4 wb where b: "conn_turn polling_config 8 ''10.0.0.8'' (Probing []) (Data (tk103_login ?b)) ?wa =
      (Inr (Serving GPS103 (Some ?b) []), wb)"
    and wb: "reg wb = mark_packet_received u4 (update_last_seen ?b u3
        (register_device ?b ''10.0.0.8'' ''d1'' 8 GPS103 (clock wa kb) u2 (reg wa)))"
      "kb < calls wb" "calls wa \<le> calls wb" "clock wb = clock wa" "closing wb = closing wa" "healthy wb"
    using tracker_logs_in [of ?wa ?b "''d1''" 8 "''10.0.0.8''"] known(2) wa(4,5) by (auto simp: healthy_def)
  let ?wb = "wb \<lparr> db := two_trackers \<rparr>"
  have "session_step polling_config \<lparr> n_world = ?w3, n_conns = ?c \<rparr> \<lparr> n_world = wa, n_conns = ?ca \<rparr>"
    by (rule session_step.read [OF _ a]) simp
  moreover have "session_step polling_config \<lparr> n_world = wa, n_conns = ?ca \<rparr> \<lparr> n_world = ?wa, n_conns = ?ca \<rparr>"
    using db by (rule session_step.backend)
  moreover have "session_step polling_config \<lparr> n_world = ?wa, n_conns = ?ca \<rparr> \<lparr> n_world = wb, n_conns = ?cb \<rparr>"
    by (rule session_step.read [OF _ b]) simp
  moreover have "session_step polling_config \<lparr> n_world = wb, n_conns = ?cb \<rparr> \<lparr> n_world = ?wb, n_conns = ?cb \<rparr>"
    using db by (rule session_step.backend)
  ultimately have rb: "session_reachable polling_config \<lparr> n_world = ?wb, n_conns = ?cb \<rparr>"
    using r3 by (meson session_reachable.step)
  have "300 * usec \<le> int (calls wb) * 1000000000 - int ka * 1000000000"
    "300 * usec \<le> int (calls wb) * 1000000000 - int kb * 1000000000"
    using wa(2) wb(2,3) by simp_all
  then have "due_devices polling_config (clock ?wb (calls ?wb)) (reg ?wb) = [?a, ?b]"
    using wa(1,3) wb(1,4)
    by (simp add: due_devices_def get_all_devices_def is_due_def newest_contact_def interval_for_def new_entry_def
        mark_packet_received_def update_last_seen_def register_device_def put_entry_def empty_registry_def
        polling_config_def default_config_def)
  moreover obtain r wc where p: "poll_device ?a (tick ?wb) = (r, wc)" by (cases "poll_device ?a (tick ?wb)")
  ultimately have cycle: "task_step polling_config \<lparr> k_sessions = \<lparr> n_world = ?wb, n_conns = ?cb \<rparr>, k_due = [], k_posted = [] \<rparr>
      \<lparr> k_sessions = \<lparr> n_world = wc, n_conns = ?cb \<rparr>, k_due = [?b], k_posted = [] \<rparr>"
    by (intro task_step.cycle) (simp_all add: poller_on_def polling_config_def default_config_def)
  note r0 = task_reachable.start [OF rb]
  have "one_family \<lparr> k_sessions = \<lparr> n_world = ?wb, n_conns = ?cb \<rparr>, k_due = [], k_posted = [] \<rparr>"
    using session_reachable_speaks [OF rb] by (simp add: one_family_def)
  from task_step_speaks [OF cycle task_reachable_ok [OF r0] this]
  have "one_family \<lparr> k_sessions = \<lparr> n_world = wc, n_conns = ?cb \<rparr>, k_due = [?b], k_posted = [] \<rparr>" by simp
  moreover have "task_reachable polling_config
      \<lparr> k_sessions = \<lparr> n_world = wc, n_conns = ?cb \<rparr>, k_due = [?b], k_posted = [] \<rparr>"
    using r0 cycle by (rule task_reachable.step)
  moreover have "closing wc = {}" "db wc = two_trackers" "healthy wc"
    using poll_device_quiet [of ?a "tick ?wb"] p wa(4,5) wb(5,6) by (simp_all add: healthy_def)
  moreover have "?cb (9 :: sock) = Some ?open" by simp
  ultimately show ?thesis by blast
qed

lemma polling_sample:
  assumes "healthy w" and "db w = two_trackers"
  shows "known_device (db w) ''123456789012345'' ''d1''"
    and "detect_protocol sample_login (cfg_enabled_protocols polling_config) = Some GT06"
    and "\<exists>a. build_ack sample_login = Inr a" and "\<exists>f. build_single_position ''123456789012345'' = Inr f"
proof -
  show "known_device (db w) ''123456789012345'' ''d1''"
    by (simp add: assms known_device_def admitted_def two_trackers_def known_database_def empty_database_def)
  show "detect_protocol sample_login (cfg_enabled_protocols polling_config) = Some GT06"
    using sniff_gt06 [of sample_login]
    by (simp add: detect_protocol_def sample_login_def polling_config_def default_config_def)
  show "\<exists>a. build_ack sample_login = Inr a" using build_ack_total [OF sample_login_frame] by blast
  have "\<not> isl (build_single_position ''123456789012345'')" by code_simp
  then show "\<exists>f. build_single_position ''123456789012345'' = Inr f"
    by (cases "build_single_position ''123456789012345''") simp_all
qed

theorem poll_race_witness:
  "\<exists>f k. build_single_position ''123456789012345'' = Inr f \<and> task_reachable polling_config k \<and>
     n_conns (k_sessions k) 9 = Some (Running (Serving GT06 (Some ''123456789012345'') [])) \<and>
     f \<in> set (sent (n_world (k_sessions k)) 9) \<and> \<not> wire_message GT06 f"
proof -
  obtain w conns where r: "task_reachable polling_config
      \<lparr> k_sessions = \<lparr> n_world = w, n_conns = conns \<rparr>, k_due = [''123456789012345''], k_posted = [] \<rparr>"
    and w: "healthy w" "db w = two_trackers" "closing w = {}" and c: "conns 9 = Some (Running (Probing []))"
    using stale_poll_reachable by blast
  obtain a f where a: "build_ack sample_login = Inr a" and f: "build_single_position ''123456789012345'' = Inr f"
    using polling_sample [OF w(1,2)] by blast
  note k = polling_sample(1) [OF w(1,2)] and d = polling_sample(2) [OF w(1,2)]
  have "\<exists>k. task_path polling_config
      \<lparr> k_sessions = \<lparr> n_world = w, n_conns = conns \<rparr>, k_due = [''123456789012345''], k_posted = [] \<rparr> k \<and>
    k_due k = [] \<and> n_conns (k_sessions k) 9 = Some (Running (Serving GT06 (Some ''123456789012345'') [])) \<and>
    map_option (\<lambda>e. (e_socket e, e_protocol e)) (get_device (reg (n_world (k_sessions k))) ''123456789012345'') = Some (9, GT06) \<and>
    sent (n_world (k_sessions k)) 9 = sent w 9 @ [a, f] \<and> wire_message GT06 a \<and> \<not> wire_message GT06 f"
    by (rule poll_race [where conns = conns, OF w(1) k _ c _ sample_login_frame sample_login_claim a d f]) (simp_all add: w)
  with f task_reachable_path [OF _ r] show ?thesis by fastforce
qed

text \<open>
  C4. That race is the only way the gateway says a thing to a device that is not of its family. Let
  connections, the poller and the command API interleave at their awaits, with any frames, commands
  and failures, and let the device of a command change its family between the look-up in the HTTP
  thread and the write: as long as every socket has been sent messages of its own family only, a step
  that breaks this is a request of a running polling cycle, to a device that is not a GPS103 device
  any more.
\<close>

theorem only_a_stale_poll_mixes:
  assumes "task_reachable cfg k" and "task_step cfg k k'" and "one_family k" and "\<not> one_family k'"
  shows "\<exists>i e. k_due k = i # k_due k' \<and> get_device (reg (n_world (k_sessions k))) i = Some e \<and>
    e_protocol e \<noteq> GPS103 \<and> n_world (k_sessions k') = snd (poll_device i (n_world (k_sessions k)))"
proof -
  obtain i e where due: "k_due k = i # k_due k'"
    and e: "get_device (reg (n_world (k_sessions k))) i = Some e" "e_protocol e \<noteq> GPS103"
    using task_step_speaks [OF assms(2) task_reachable_ok [OF assms(1)] assms(3)] assms(4) by blast
  from assms(2) due have "n_world (k_sessions k') = snd (poll_device i (n_world (k_sessions k)))"
    by cases simp_all
  with due e show ?thesis by blast
qed

theorem only_a_stale_poll_mixes_witness:
  "\<exists>k k' i e. task_reachable polling_config k \<and> task_step polling_config k k' \<and> one_family k \<and> \<not> one_family k' \<and>
     k_due k = i # k_due k' \<and> get_device (reg (n_world (k_sessions k))) i = Some e \<and> e_protocol e \<noteq> GPS103"
proof -
  obtain w conns where r: "task_reachable polling_config
      \<lparr> k_sessions = \<lparr> n_world = w, n_conns = conns \<rparr>, k_due = [''123456789012345''], k_posted = [] \<rparr>"
    and fam: "one_family \<lparr> k_sessions = \<lparr> n_world = w, n_conns = conns \<rparr>, k_due = [''123456789012345''], k_posted = [] \<rparr>"
    and w: "healthy w" "db w = two_trackers" "closing w = {}" and c: "conns 9 = Some (Running (Probing []))"
    using stale_poll_reachable by blast
  note run = polling_sample [OF w(1,2)]
  obtain w1 w2 q where login: "session_step polling_config \<lparr> n_world = w, n_conns = conns \<rparr>
      \<lparr> n_world = w1, n_conns = conns(9 \<mapsto> Running (Serving GT06 (Some ''123456789012345'') [])) \<rparr>"
    and ask: "poll_device ''123456789012345'' w1 = (q, w2)"
    and facts: "map_option (\<lambda>e. (e_socket e, e_protocol e)) (get_device (reg w2) ''123456789012345'') = Some (9, GT06)"
      "\<exists>a f. sent w2 9 = sent w 9 @ [a, f] \<and> wire_message GT06 a \<and> \<not> wire_message GT06 f"
  proof -
    obtain a f where af: "build_ack sample_login = Inr a" "build_single_position ''123456789012345'' = Inr f"
      using run(3,4) by blast
    from stale_poll_steps [where conns = conns, OF w(1) run(1) _ c _ sample_login_frame sample_login_claim af(1) run(2) af(2)]
      w(3) that show ?thesis by fastforce
  qed
  let ?serving = "conns(9 \<mapsto> Running (Serving GT06 (Some ''123456789012345'') []))"
  let ?before = "\<lparr> k_sessions = \<lparr> n_world = w1, n_conns = ?serving \<rparr>, k_due = [''123456789012345''], k_posted = [] \<rparr>"
  let ?after = "\<lparr> k_sessions = \<lparr> n_world = w2, n_conns = ?serving \<rparr>, k_due = [], k_posted = [] \<rparr>"
  have s1: "task_step polling_config
      \<lparr> k_sessions = \<lparr> n_world = w, n_conns = conns \<rparr>, k_due = [''123456789012345''], k_posted = [] \<rparr> ?before"
    using login by (rule task_step.session)
  have f1: "one_family ?before" by (rule task_step_speaks [OF s1 task_reachable_ok [OF r] fam]) simp
  have s2: "task_step polling_config ?before ?after" using ask by (rule task_step.ask)
  have "\<not> speaks fam 9 w2" for fam
  proof
    assume "speaks fam 9 w2"
    moreover obtain e where "get_device (reg w2) ''123456789012345'' = Some e" "e_socket e = 9" "e_protocol e = GT06"
      using facts(1) by auto
    ultimately have "fam = GT06" by (auto simp: speaks_def)
    with \<open>speaks fam 9 w2\<close> facts(2) show False by (auto simp: speaks_def)
  qed
  then have "\<not> one_family ?after" by (auto simp: one_family_def intro!: exI [of _ "9 :: sock"])
  with only_a_stale_poll_mixes [OF task_reachable.step [OF r s1] s2 f1] task_reachable.step [OF r s1] s2 f1
  show ?thesis by metis
qed

end
