(* ===== verification/Command_Delivery.thy ===== *)
theory Command_Delivery
  imports Wire_Types
begin

text \<open>
  A command from the HTTP request to the device: what a success reported to the caller means, and
  when a command is delivered.
\<close>

section \<open>What a success means\<close>

lemma builds_Inr:
  assumes "builds b" and "b w = (Inr f, w1)"
  shows "(\<exists>n c. command_frame n c = Inr f) \<and> (\<exists>k. w1 = w \<lparr> command_serial := k \<rparr>)"
  using assms by (fastforce simp: builds_def)

lemma send_built_Inr:
  assumes "builds b" and "send_built imei b w = (Inr (), w')"
  shows "\<exists>e f w1. get_device (reg w) imei = Some e \<and> e_protocol e = GT06 \<and> wire_message GT06 f \<and>
    write_drain (e_socket e) f w1 = (Inr (), w') \<and> (\<exists>k. w1 = w \<lparr> command_serial := k \<rparr>)"
proof -
  obtain f w1 where f: "b w = (Inr f, w1)" and s: "send_command imei f w1 = (Inr (), w')"
    using assms(2) by (auto simp: send_built_def bindM_eq_Inr_iff)
  from builds_Inr [OF assms(1) f] obtain n c k where "command_frame n c = Inr f" "w1 = w \<lparr> command_serial := k \<rparr>"
    by blast
  with send_command_Inr [OF s] show ?thesis using command_message by fastforce
qed

text \<open>The command went out on the socket of the device that is registered under the IMEI.\<close>

definition command_written :: "string \<Rightarrow> world \<Rightarrow> world \<Rightarrow> bool" where
  "command_written imei w w' \<longleftrightarrow>
     (\<exists>e f. get_device (reg w) imei = Some e \<and> e_protocol e \<noteq> TELTONIKA \<and> wire_message (e_protocol e) f \<and>
        sent w' = (if e_socket e \<in> closing w then sent w
                   else (sent w)(e_socket e := sent w (e_socket e) @ [f])) \<and>
        reg w' = reg w \<and> db w' = db w)"

lemma write_written:
  assumes "write_drain (e_socket e) f w1 = (Inr (), w')" and "get_device (reg w) imei = Some e"
    and "e_protocol e \<noteq> TELTONIKA" "wire_message (e_protocol e) f"
    and "reg w1 = reg w" "db w1 = db w" "sent w1 = sent w" "closing w1 = closing w"
  shows "command_written imei w w'"
  unfolding command_written_def
  by (intro exI [of _ e] exI [of _ f]) (use assms(2-8) write_drain_Inr [OF assms(1)] in auto)

lemma run_command_written:
  assumes "run_command imei c params w = (Inr (), w')"
  shows "command_written imei w w'"
proof -
  have gt06: "command_written imei w w'" if m: "sends imei m" "m (tick w) = (Inr (), w')" for m
  proof -
    from m(1) obtain b where b: "builds b" "m = send_built imei b" by (auto simp: sends_def)
    from send_built_Inr [OF b(1)] m(2) b(2) obtain e f w1 k where
      e: "get_device (reg w) imei = Some e" "e_protocol e = GT06" "wire_message GT06 f"
      and wd: "write_drain (e_socket e) f w1 = (Inr (), w')" and w1: "w1 = (tick w) \<lparr> command_serial := k \<rparr>"
      by fastforce
    from e show ?thesis by (intro write_written [OF wd]) (simp_all add: w1)
  qed
  have gps103: "command_written imei w w'" if "send_gps103_command imei c (tick w) = (Inr (), w')"
  proof -
    from send_gps103_Inr [OF that] obtain e f code where
      e: "get_device (reg w) imei = Some e" "e_protocol e = GPS103" "code \<in> {''B'', ''K''}"
      and f: "gps103_command_frame imei code = Inr f" and wd: "write_drain (e_socket e) f (tick w) = (Inr (), w')"
      by (auto split: if_splits)
    from gps103_text_message [OF f e(3)] e show ?thesis by (intro write_written [OF wd]) simp_all
  qed
  show ?thesis
  proof (cases "device_protocol (reg w) imei = Some GPS103")
    case True
    with assms show ?thesis by (intro gps103) (auto simp: run_command_def bindM_def dest: run_async_Inr)
  next
    case False
    show ?thesis
    proof (cases "map_of SIMPLE_COMMANDS c")
      case (Some send)
      with assms False have "send imei (tick w) = (Inr (), w')"
        by (auto simp: run_command_def bindM_def dest: run_async_Inr)
      then show ?thesis by (rule gt06 [OF simple_sends [OF Some]])
    next
      case None
      with assms False obtain m where m: "param_command imei c params = Inr m" "m (tick w) = (Inr (), w')"
        by (cases "param_command imei c params") (auto simp: run_command_def bindM_def dest: run_async_Inr)
      from param_sends [OF m(1)] m(2) show ?thesis by (rule gt06)
    qed
  qed
qed

lemma command_failure_not_200: "fst (command_failure e) \<noteq> 200"
  by (simp add: command_failure_def split: exn.split)

lemma handle_command_200:
  assumes "handle_command body w = (Inr reply, w')" and "fst reply = 200"
  shows "\<exists>imei c params. text_field body ''imei'' = Inr imei \<and> reply = command_success imei c \<and>
    run_command imei c params w = (Inr (), w')"
proof -
  from assms obtain imei cmd params where f: "text_field body ''imei'' = Inr imei"
    "text_field body ''command'' = Inr cmd" "json_get body ''params'' (JObj []) = Inr params"
    and r: "tryM (thenM (run_command imei (lower cmd) params) (ret (command_success imei (lower cmd))))
      (\<lambda>e. ret (command_failure e)) w = (Inr reply, w')"
    by (auto simp: handle_command_def bindM_eq_Inr_iff Let_def unknown_command_def split: if_splits)
  from r show ?thesis using assms(2) command_failure_not_200 f(1)
    by (auto simp: tryM_eq_Inr_iff thenM_def bindM_eq_Inr_iff)
qed

text \<open>
  C17. A success reported to the caller is the truth: whatever fails, when the API answers a command
  with 200 then the IMEI it names has a live session of a family that takes commands, one message,
  well formed in that family, was handed to exactly that session's socket, and nothing else was
  written, registered or stored. Only if the session's transport is already closing the message is
  dropped, which asyncio does not tell.
\<close>

theorem success_is_true:
  assumes "do_POST key rq w = (Inr reply, w')" and "fst reply = 200"
  shows "key \<noteq> '''' \<and> rq_key rq = Some key \<and>
    (\<exists>imei c e f. reply = command_success imei c \<and> get_device (reg w) imei = Some e \<and>
       e_protocol e \<noteq> TELTONIKA \<and> wire_message (e_protocol e) f \<and>
       sent w' = (if e_socket e \<in> closing w then sent w
                  else (sent w)(e_socket e := sent w (e_socket e) @ [f])) \<and>
       reg w' = reg w \<and> db w' = db w)"
proof -
  from assms obtain body where auth: "authorized key rq = Inr True"
    and h: "handle_command body w = (Inr reply, w')"
    by (auto simp: do_POST_def bindM_eq_Inr_iff split: if_splits body.splits)
  from handle_command_200 [OF h assms(2)] obtain imei c params where
    "reply = command_success imei c" "run_command imei c params w = (Inr (), w')" by blast
  with run_command_written have "reply = command_success imei c" "command_written imei w w'" by blast+
  moreover have "key \<noteq> ''''" "rq_key rq = Some key"
    using auth by (auto simp: authorized_def Let_def split: if_splits option.splits)
  ultimately show ?thesis unfolding command_written_def by blast
qed

section \<open>When a command is delivered\<close>

text \<open>What the device reads for each of the commands without parameters.\<close>

definition COMMAND_TEXTS :: "(string \<times> string) list" where
  "COMMAND_TEXTS =
     [(''where'', ''WHERE#''), (''status'', ''STATUS#''), (''version'', ''VERSION#''), (''imei'', ''IMEI#''),
      (''params'', ''PARAM#''), (''gprsset'', ''GPRSSET#''), (''url'', ''URL#''), (''position'', ''POSITION#''),
      (''fence_query'', ''FENCE#''), (''moving_query'', ''MOVING#''), (''speed_query'', ''SPEED#''),
      (''sos_query'', ''SOS#''), (''timer_query'', ''TIMER#''), (''apn_query'', ''APN#''),
      (''server_query'', ''SERVER#''), (''reset'', ''RESET#''), (''relay_on'', ''RELAY,0#''),
      (''relay_off'', ''RELAY,1#''), (''sos_delete'', ''SOS,D#'')]"

lemma simple_text:
  assumes "map_of COMMAND_TEXTS c = Some t"
  shows "\<exists>send. map_of SIMPLE_COMMANDS c = Some send \<and> send imei = send_built imei (build_command t)"
  using assms unfolding COMMAND_TEXTS_def SIMPLE_COMMANDS_def
  by (auto simp: simple_send_defs simple_build_defs split: if_splits)

lemma command_texts_fit: "map_of COMMAND_TEXTS c = Some t \<Longrightarrow> is_ascii t \<and> length t \<le> 243"
proof -
  have "list_all (\<lambda>(c, t). is_ascii t \<and> length t \<le> 243) COMMAND_TEXTS" by code_simp
  then show "map_of COMMAND_TEXTS c = Some t \<Longrightarrow> ?thesis" by (auto simp: list_all_iff dest!: map_of_SomeD)
qed

lemma known_simple: "map_of SIMPLE_COMMANDS c = Some send \<Longrightarrow> known_command c"
  unfolding known_command_def by (auto dest!: map_of_SomeD intro: rev_image_eqI)

lemma run_simple_runs:
  assumes "healthy w" and "map_of COMMAND_TEXTS c = Some t"
    and "get_device (reg w) imei = Some e" "e_protocol e = GT06" and "e_socket e \<notin> closing w"
    and "command_serial w < 65536"
  shows "\<exists>f w'. run_command imei c params w = (Inr (), w') \<and> command_frame (command_serial w) t = Inr f \<and>
    sent w' = (sent w)(e_socket e := sent w (e_socket e) @ [f]) \<and> command_serial w' = command_serial w + 1"
proof -
  obtain send where send: "map_of SIMPLE_COMMANDS c = Some send" "send imei = send_built imei (build_command t)"
    using simple_text [OF assms(2)] by blast
  obtain f where f: "command_frame (command_serial w) t = Inr f"
    using command_frame_Inr_iff [of "command_serial w" t] command_texts_fit [OF assms(2)] assms(6) by blast
  have "outcomes w k = Succeeds" for k using assms(1) by (simp add: healthy_def)
  then show ?thesis
    using assms(3-5) send f
    by (simp add: run_command_def bindM_def device_protocol_def run_async_def send_built_def build_command_def
        next_serial_def send_command_def get_socket_def Let_def write_drain_def external_def push_bytes_def tick_def)
qed

text \<open>
  C18. From the request to the device: when no call fails, an authorised request with one of the
  commands without parameters, for a GT06 device whose session is open, is answered with success,
  and the device reads exactly one more frame, sealed and complete, that carries the text of that
  command and the next serial number. The serial must still fit its two bytes: from 65536 commands
  on every command fails (\<open>serials_run_out\<close>). The texts are those of the code: \<^verbatim>\<open>relay_on\<close> carries
  \<^verbatim>\<open>RELAY,0#\<close> (restore) and \<^verbatim>\<open>relay_off\<close> carries \<^verbatim>\<open>RELAY,1#\<close> (cut), as the docstrings of
  \<^verbatim>\<open>command_builder.py\<close> have it; \<^verbatim>\<open>docs/command-system.md\<close> and \<^verbatim>\<open>docs/services.md\<close> give the opposite
  digits.
\<close>

theorem command_delivered:
  assumes "healthy w" and "rq_key rq = Some key" "key \<noteq> ''''" "is_ascii key"
    and "rq_path rq = ''/command''" and "content_length rq = Inr n" "n \<noteq> 0" and "rq_body rq = Parsed body"
    and "text_field body ''imei'' = Inr imei" "imei \<noteq> ''''" and "text_field body ''command'' = Inr cmd"
    and "json_get body ''params'' (JObj []) = Inr params" and "map_of COMMAND_TEXTS (lower cmd) = Some t"
    and "get_device (reg w) imei = Some e" "e_protocol e = GT06" and "e_socket e \<notin> closing w"
    and "command_serial w < 65536"
  shows "\<exists>f w'. do_POST key rq w = (Inr (command_success imei (lower cmd)), w') \<and>
    sent w' = (sent w)(e_socket e := sent w (e_socket e) @ [f]) \<and> gt06_frame f \<and> gt06_sealed f \<and>
    encode_ascii t = Inr (slice f 9 (9 + length t)) \<and>
    be_val (slice f (length f - 6) (length f - 4)) = command_serial w"
proof -
  obtain f w' where r: "run_command imei (lower cmd) params w = (Inr (), w')"
    and f: "command_frame (command_serial w) t = Inr f"
    and w': "sent w' = (sent w)(e_socket e := sent w (e_socket e) @ [f])"
    using run_simple_runs [OF assms(1,13-17)] by blast
  obtain send where "map_of SIMPLE_COMMANDS (lower cmd) = Some send" using simple_text [OF assms(13)] by blast
  then have known: "known_command (lower cmd)" by (rule known_simple)
  moreover have "\<not> known_command ''''" by (simp add: known_command_def SIMPLE_COMMANDS_def PARAM_COMMANDS_def)
  ultimately have "lower cmd \<noteq> ''''" by auto
  with known r assms(9-12) have "handle_command body w = (Inr (command_success imei (lower cmd)), w')"
    by (simp add: handle_command_def bindM_def Let_def tryM_def thenM_def)
  then have "do_POST key rq w = (Inr (command_success imei (lower cmd)), w')"
    using assms(2-8) by (simp add: do_POST_def bindM_def authorized_def Let_def)
  with w' command_frame_shape [OF f] command_frame_fields [OF f] show ?thesis by blast
qed

definition where_request :: request where
  "where_request = \<lparr> rq_path = ''/command'', rq_key = Some ''secret'', rq_length = Some ''40'',
     rq_body = Parsed (JObj [(''imei'', JStr ''123456789012345''), (''command'', JStr ''where'')]) \<rparr>"

definition device_online :: world where
  "device_online = (start_world empty_database) \<lparr> reg :=
     register_device ''123456789012345'' ''10.0.0.7'' ''d1'' 7 GT06 0 0 empty_registry \<rparr>"

lemma where_fields:
  "text_field (JObj [(''imei'', JStr ''123456789012345''), (''command'', JStr ''where'')]) ''imei'' = Inr ''123456789012345''"
  "text_field (JObj [(''imei'', JStr ''123456789012345''), (''command'', JStr ''where'')]) ''command'' = Inr ''where''"
  "json_get (JObj [(''imei'', JStr ''123456789012345''), (''command'', JStr ''where'')]) ''params'' (JObj []) = Inr (JObj [])"
  "lower ''where'' = ''where''" "content_length where_request = Inr 40" "is_ascii ''secret''"
  "map_of COMMAND_TEXTS ''where'' = Some ''WHERE#''"
  by code_simp+

lemma device_online_simps:
  "get_device (reg device_online) ''123456789012345'' = Some (new_entry ''10.0.0.7'' ''d1'' 7 GT06 0 0)"
  "healthy device_online" "closing device_online = {}" "command_serial device_online = 1" "sent device_online 7 = []"
  by (simp_all add: device_online_def register_device_def get_device_put healthy_def start_world_def)

theorem command_delivered_witness:
  "\<exists>f w'. do_POST ''secret'' where_request device_online = (Inr (command_success ''123456789012345'' ''where''), w') \<and>
     sent w' 7 = [f] \<and> encode_ascii ''WHERE#'' = Inr (slice f 9 15)"
  using command_delivered [OF device_online_simps(2) _ _ where_fields(6) _ where_fields(5) _ _ where_fields(1) _
      where_fields(2,3) _ device_online_simps(1), of "''WHERE#''"] where_fields(4,7) device_online_simps(3-5)
  by (simp add: where_request_def new_entry_def) fastforce

lemma where_answered:
  "\<exists>w'. do_POST ''secret'' where_request device_online = (Inr (command_success ''123456789012345'' ''where''), w')"
proof -
  obtain w' where "run_command ''123456789012345'' ''where'' (JObj []) device_online = (Inr (), w')"
    using run_simple_runs [OF device_online_simps(2) where_fields(7) device_online_simps(1), of "JObj []"]
      device_online_simps(3,4)
    by (auto simp: new_entry_def)
  moreover have "known_command ''where''" by code_simp
  ultimately have "handle_command (JObj [(''imei'', JStr ''123456789012345''), (''command'', JStr ''where'')]) device_online =
      (Inr (command_success ''123456789012345'' ''where''), w')"
    by (simp add: handle_command_def where_fields bindM_def Let_def tryM_def thenM_def)
  moreover have "authorized ''secret'' where_request = Inr True"
    using where_fields(6) by (simp add: authorized_def where_request_def)
  ultimately show ?thesis
    using where_fields(5) by (simp add: do_POST_def bindM_def) (simp add: where_request_def)
qed

theorem success_is_true_witness:
  "\<exists>w' imei c e. do_POST ''secret'' where_request device_online = (Inr (command_success imei c), w') \<and>
     get_device (reg device_online) imei = Some e \<and> e_protocol e \<noteq> TELTONIKA \<and> db w' = empty_database"
proof -
  obtain w' where w': "do_POST ''secret'' where_request device_online =
      (Inr (command_success ''123456789012345'' ''where''), w')"
    using where_answered by blast
  have "db device_online = empty_database" by (simp add: device_online_def)
  with success_is_true [OF w'] w' show ?thesis by (simp add: command_success_def) blast
qed

end
