(* ===== verification/Position_Delivery.thy ===== *)
theory Position_Delivery
  imports Gateway
begin

text \<open>
  From the frame to the row: a plausible position that a GT06 or GPS103 device reports on its
  authenticated connection is stored when no call fails. (Teltonika packets, which hold many
  positions, have the property \<open>healthy_packet_acknowledged\<close>.)
\<close>

section \<open>What the other writes leave alone\<close>

text \<open>The history, the live positions and the assignments.\<close>

definition tracks :: "database \<Rightarrow> database \<Rightarrow> bool" where
  "tracks d0 d \<longleftrightarrow> gps_trackings d = gps_trackings d0 \<and> current_locations d = current_locations d0 \<and>
     assignments d = assignments d0"

lemma tracks_refl [simp]: "tracks d d"
  by (simp add: tracks_def)

lemma keeps_execute_tracks:
  assumes "\<And>d. gps_trackings (f d) = gps_trackings d" "\<And>d. current_locations (f d) = current_locations d"
    "\<And>d. assignments (f d) = assignments d"
  shows "keeps (on_db (tracks d0)) (execute f)"
  by (rule keeps_execute_db) (simp add: tracks_def assms)

lemma writers_tracks:
  "keeps (on_db (tracks d0)) (save_raw c d p raw a ok)" "keeps (on_db (tracks d0)) (set_ignition d i)"
  "keeps (on_db (tracks d0)) (get_vehicle_by_device d)"
  unfolding save_raw_def should_store_raw_def raw_packet_save_def set_ignition_def get_vehicle_by_device_def
    acquire_release_eq
  by (intro keeps_intros keeps_case_raw_mode keeps_oracle_db keeps_execute_tracks; simp add: upsert_status_def)+

lemma create_event_tracks: "keeps (on_db (tracks d0)) (create_event d v et sv lat lon ds md)"
  unfolding create_event_def
  by (intro keeps_liftR_bind keeps_case_prod keeps_managed_db keeps_bindM keeps_oracle_db keeps_execute_tracks; simp)

text \<open>The socket stays authenticated as the device and open.\<close>

definition stays :: "sock \<Rightarrow> string \<Rightarrow> sock set \<Rightarrow> world \<Rightarrow> bool" where
  "stays s i c v \<longleftrightarrow> get_imei_by_socket (reg v) s = Some i \<and> closing v = c"

lemma stays_session [simp]: "session_inv (stays s i c)"
  by (simp add: session_inv_def stays_def)

lemma write_drain_stays: "keeps (stays s i c) (write_drain t b)"
  by (auto simp: keeps_def stays_def write_drain_def external_def push_bytes_def split: outcome.split)

lemma send_reply_stays: "keeps (stays s i c) (send_reply t b)"
  unfolding send_reply_def by (intro keeps_tryM keeps_ret write_drain_stays)

lemma note_position_stays: "keeps (stays s i c) (with_reg (note_position j v t))"
  unfolding with_reg_def
  by (rule keeps_modifyM) (simp add: stays_def get_imei_by_socket_def note_position_def)

section \<open>Running when no call fails\<close>

text \<open>A step that succeeds, and what it keeps.\<close>

lemma reliable_step:
  assumes "reliable m" and "healthy w"
  shows "\<exists>x w1. m w = (Inr x, w1) \<and> healthy w1 \<and> (\<forall>I. keeps I m \<longrightarrow> I w \<longrightarrow> I w1)"
proof -
  obtain x w1 where "m w = (Inr x, w1)" "healthy w1" using reliableD [OF assms] by blast
  then show ?thesis using keepsD2 [of _ m w] by blast
qed

lemma save_location_runs:
  assumes "healthy w" and "tracking_params dev la lo sp hg sa t = Inr row"
  shows "\<exists>b w'. save_location cfg dev la lo sp hg sa t w = (Inr b, w') \<and> healthy w' \<and>
    db w' = snd (save_location_sql (cfg_gps_idempotent cfg) row (db w))"
  using assms
  by (auto simp: save_location_def managed_connection_def thenM_def bindM_def finallyM_def healthy_acquire
      release_def statement_def healthy_external split: prod.split)

lemma plausible_row:
  assumes "location_plausible la lo sp hg"
  shows "\<exists>row. tracking_params dev la lo sp hg sa t = Inr row"
  using assms by (auto simp: location_plausible_def tracking_params_def dest!: f_between_finite)

text \<open>The position is in the history, and it is the live one when the device is in a vehicle.\<close>

definition position_stored :: "config \<Rightarrow> string \<Rightarrow> tracking_row \<Rightarrow> database \<Rightarrow> database \<Rightarrow> bool" where
  "position_stored cfg dev row d d' \<longleftrightarrow>
     gps_trackings d' =
       (if cfg_gps_idempotent cfg \<and> (\<exists>t \<in> set (gps_trackings d). tr_device_id t = dev \<and> tr_event_time t = tr_event_time row)
        then gps_trackings d else gps_trackings d @ [row]) \<and>
     (\<forall>v. active_vehicle d dev = Some v \<longrightarrow>
        (\<exists>c. current_locations d' dev = Some c \<and> cl_vehicle_id c = v \<and> cl_latitude c = tr_latitude row \<and>
             cl_longitude c = tr_longitude row \<and> cl_speed c = tr_speed row \<and> cl_heading c = tr_heading row \<and>
             cl_last_update c = tr_event_time row)) \<and>
     (\<forall>other. other \<noteq> dev \<longrightarrow> current_locations d' other = current_locations d other)"

lemma position_stored_sql:
  assumes "tracks d d1" and "tr_device_id row = dev"
    and "tracks (snd (save_location_sql (cfg_gps_idempotent cfg) row d1)) d'"
  shows "position_stored cfg dev row d d'"
  using assms
  by (auto simp: position_stored_def tracks_def save_location_sql_def insert_tracking_def Let_def list_ex_iff
      active_vehicle_def split: option.split if_splits)

section \<open>Retransmissions\<close>

text \<open>A position as a handler asks for it to be saved; a failure is logged and swallowed.\<close>

record save_request =
  sv_device :: string
  sv_latitude :: pyfloat
  sv_longitude :: pyfloat
  sv_speed :: pyfloat
  sv_heading :: pyfloat
  sv_satellites :: nat
  sv_time :: datetime

definition request_row :: "save_request \<Rightarrow> tracking_row result" where
  "request_row q = tracking_params (sv_device q) (sv_latitude q) (sv_longitude q) (sv_speed q) (sv_heading q)
     (sv_satellites q) (sv_time q)"

definition save_request :: "config \<Rightarrow> save_request \<Rightarrow> bool act" where
  "save_request cfg q = save_location cfg (sv_device q) (sv_latitude q) (sv_longitude q) (sv_speed q) (sv_heading q)
     (sv_satellites q) (sv_time q)"

fun save_requests :: "config \<Rightarrow> save_request list \<Rightarrow> unit act" where
  "save_requests cfg [] = ret ()"
| "save_requests cfg (q # qs) = thenM (safely (bindM (save_request cfg q) (\<lambda>_. ret ()))) (save_requests cfg qs)"

definition row_key :: "tracking_row \<Rightarrow> string \<times> datetime" where
  "row_key t = (tr_device_id t, tr_event_time t)"

definition request_key :: "save_request \<Rightarrow> string \<times> datetime" where
  "request_key q = (sv_device q, sv_time q)"

definition history_keys :: "database \<Rightarrow> (string \<times> datetime) list" where
  "history_keys d = map row_key (gps_trackings d)"

lemma tracking_row_fields:
  "tracking_params dev la lo sp hg sa t = Inr row \<Longrightarrow> tr_device_id row = dev \<and> tr_event_time row = t"
  by (auto simp: tracking_params_def result_simps)

lemma request_row_key: "request_row q = Inr row \<Longrightarrow> row_key row = request_key q"
  using tracking_row_fields by (auto simp: request_row_def row_key_def request_key_def)

text \<open>One save leaves the history as it is or puts its own row at the end, when its key is new.\<close>

definition extends_by :: "save_request \<Rightarrow> database \<Rightarrow> database \<Rightarrow> bool" where
  "extends_by q d d' \<longleftrightarrow> gps_trackings d' = gps_trackings d \<or>
     (\<exists>row. request_row q = Inr row \<and> request_key q \<notin> set (history_keys d) \<and> gps_trackings d' = gps_trackings d @ [row])"

lemma history_after_sql:
  "gps_trackings (snd (save_location_sql True row d)) =
     (if row_key row \<in> set (history_keys d) then gps_trackings d else gps_trackings d @ [row])"
proof -
  have "list_ex (\<lambda>t. tr_device_id t = tr_device_id row \<and> tr_event_time t = tr_event_time row) (gps_trackings d) \<longleftrightarrow>
      row_key row \<in> set (history_keys d)"
    by (simp add: list_ex_iff row_key_def history_keys_def image_iff) metis
  then show ?thesis
    by (simp add: save_location_sql_def insert_tracking_def Let_def split: option.split)
qed

lemma save_request_extends:
  assumes "cfg_gps_idempotent cfg"
  shows "extends_by q (db w) (db (snd (save_request cfg q w)))"
proof -
  have "extends_by q (db w) (snd (save_location_sql True row d))" if "extends_by q (db w) d" "request_row q = Inr row" for row d
    using that request_row_key [OF that(2)]
    by (auto simp: extends_by_def history_after_sql) (auto simp: history_keys_def)
  then have "keeps (on_db (extends_by q (db w))) (save_request cfg q)"
    unfolding save_request_def save_location_def
    by (intro keeps_managed_db keeps_liftR_bind keeps_bindM keeps_statement_db keeps_ret)
      (simp add: assms request_row_def)
  from keepsD [OF this, of w] show ?thesis by (simp add: on_db_def extends_by_def)
qed

lemma save_request_stores:
  assumes "save_request cfg q w = (Inr b, w')"
  shows "request_key q \<in> set (history_keys (db w'))"
proof -
  define rec :: avl_record where "rec = undefined \<lparr> avl_timestamp := sv_time q \<rparr>"
  have "save_location cfg (sv_device q) (sv_latitude q) (sv_longitude q) (sv_speed q) (sv_heading q) (sv_satellites q)
      (avl_timestamp rec) w = (Inr b, w')"
    using assms by (simp add: rec_def save_request_def)
  from save_location_stores [OF this] show ?thesis
    by (force simp: is_stored_def rec_def history_keys_def request_key_def row_key_def)
qed

lemma save_request_runs:
  assumes "healthy w" and "request_row q = Inr row"
  shows "\<exists>b w'. save_request cfg q w = (Inr b, w')"
  using save_location_runs [OF assms(1) assms(2) [unfolded request_row_def], of cfg] unfolding save_request_def by blast

lemma save_request_healthy: "healthy w \<Longrightarrow> healthy (snd (save_request cfg q w))"
proof -
  have "keeps (oracle_is (outcomes w)) (save_request cfg q)"
    unfolding save_request_def by (intro tables_onlyD(1) [OF tables_only_location(1)] session_inv_parts)
  from keepsD [OF this, of w] show "healthy w \<Longrightarrow> ?thesis" by (simp add: part_defs healthy_def)
qed

lemma save_requests_Cons: "save_requests cfg (q # qs) w = save_requests cfg qs (snd (save_request cfg q w))"
  by (cases "save_request cfg q w")
    (auto simp: thenM_def bindM_def safely_def tryM_def split: sum.split)

lemma save_requests_append: "save_requests cfg (us @ vs) w = save_requests cfg vs (snd (save_requests cfg us w))"
  by (induction us arbitrary: w) (simp_all add: save_requests_Cons del: save_requests.simps(2))

lemma save_requests_extend:
  assumes "cfg_gps_idempotent cfg" and "distinct (history_keys (db w))"
  shows "distinct (history_keys (db (snd (save_requests cfg qs w)))) \<and>
    (\<exists>new. gps_trackings (db (snd (save_requests cfg qs w))) = gps_trackings (db w) @ new \<and>
       (\<forall>row \<in> set new. \<exists>q \<in> set qs. request_row q = Inr row))"
  using assms(2)
proof (induction qs arbitrary: w)
  case (Cons q qs)
  let ?w = "snd (save_request cfg q w)"
  from save_request_extends [OF assms(1), of q w]
  obtain first where first: "gps_trackings (db ?w) = gps_trackings (db w) @ first" "\<forall>row \<in> set first. request_row q = Inr row"
    and d: "distinct (history_keys (db ?w))"
  proof (unfold extends_by_def, elim disjE exE conjE)
    fix row assume r: "request_row q = Inr row" "request_key q \<notin> set (history_keys (db w))"
      "gps_trackings (db ?w) = gps_trackings (db w) @ [row]"
    then show thesis
      using that [of "[row]"] Cons.prems request_row_key [OF r(1)] by (simp add: history_keys_def)
  qed (use that [of "[]"] Cons.prems in \<open>simp add: history_keys_def\<close>)
  from Cons.IH [OF d] obtain new where "distinct (history_keys (db (snd (save_requests cfg qs ?w))))"
    "gps_trackings (db (snd (save_requests cfg qs ?w))) = gps_trackings (db ?w) @ new"
    "\<forall>row \<in> set new. \<exists>q \<in> set qs. request_row q = Inr row" by blast
  with first show ?case
    by (intro conjI exI [of _ "first @ new"]) (auto simp: save_requests_Cons simp del: save_requests.simps(2))
qed simp

lemma history_grows:
  assumes "cfg_gps_idempotent cfg"
  shows "set (history_keys (db w)) \<subseteq> set (history_keys (db (snd (save_requests cfg qs w))))"
proof (induction qs arbitrary: w)
  case (Cons q qs)
  have "set (history_keys (db w)) \<subseteq> set (history_keys (db (snd (save_request cfg q w))))"
    using save_request_extends [OF assms, of q w] by (auto simp: extends_by_def history_keys_def)
  with Cons show ?case by (simp add: save_requests_Cons del: save_requests.simps(2)) blast
qed simp

section \<open>Reports\<close>

text \<open>The position a frame reports, with the time the device gives it.\<close>

definition gt06_report :: "bytes \<Rightarrow> (pyfloat \<times> pyfloat \<times> pyfloat \<times> pyfloat \<times> nat \<times> datetime) option" where
  "gt06_report raw =
     (case (gt06_protocol raw, parse_location_packet raw) of
        (Inr (Some p), Inr loc) \<Rightarrow>
          (if p \<in> {''12'', ''22''} \<and> gt06_location_valid loc
           then Some (loc_latitude loc, loc_longitude loc, f_of_nat (loc_speed loc), f_of_nat (loc_heading loc),
                      loc_satellites loc, loc_timestamp loc)
           else None)
      | _ \<Rightarrow> None)"

definition gps103_report :: "bool \<Rightarrow> string \<Rightarrow> bytes \<Rightarrow> (pyfloat \<times> pyfloat \<times> pyfloat \<times> pyfloat \<times> nat \<times> datetime) option" where
  "gps103_report in_kmh imei raw =
     (case gps103_classify raw of
        (KTracker, text) \<Rightarrow>
          (case parse_tracker in_kmh text of
             Inr data \<Rightarrow>
               (if tk_imei data = imei \<and> tracker_position_ok data
                then (case (tk_latitude data, tk_longitude data, tk_speed data, tk_heading data, tk_timestamp data) of
                        (Some la, Some lo, Some sp, Some hg, Some t) \<Rightarrow> Some (la, lo, sp, hg, 0, t)
                      | _ \<Rightarrow> None)
                else None)
           | Inl _ \<Rightarrow> None)
      | _ \<Rightarrow> None)"

fun reports :: "family \<Rightarrow> config \<Rightarrow> string \<Rightarrow> bytes \<Rightarrow>
    (pyfloat \<times> pyfloat \<times> pyfloat \<times> pyfloat \<times> nat \<times> datetime) option" where
  "reports GT06 cfg imei raw = gt06_report raw"
| "reports GPS103 cfg imei raw = gps103_report (cfg_speed_in_kmh cfg) imei raw"
| "reports TELTONIKA cfg imei raw = None"

section \<open>The two families\<close>

lemma gt06_position_stored:
  assumes "healthy w" and "gt06_report raw = Some (la, lo, sp, hg, sa, t)"
    and "get_imei_by_socket (reg w) s = Some i" and "i \<noteq> ''''" and "get_device (reg w) i = Some e"
  shows "\<exists>row w'. process_packet cfg raw s ip w = (Inr (Some i), w') \<and>
    tracking_params (e_device_id e) la lo sp hg sa t = Inr row \<and> position_stored cfg (e_device_id e) row (db w) (db w') \<and>
    get_imei_by_socket (reg w') s = Some i \<and> closing w' = closing w"
proof -
  let ?dev = "e_device_id e"
  obtain p loc where p: "gt06_protocol raw = Inr (Some p)" "p = ''12'' \<or> p = ''22''"
    and loc: "parse_location_packet raw = Inr loc" "gt06_location_valid loc"
    and eqs: "la = loc_latitude loc" "lo = loc_longitude loc" "sp = f_of_nat (loc_speed loc)"
      "hg = f_of_nat (loc_heading loc)" "sa = loc_satellites loc" "t = loc_timestamp loc"
    using assms(2) by (auto simp: gt06_report_def split: sum.splits option.splits if_splits)
  obtain row where row: "tracking_params ?dev la lo sp hg sa t = Inr row"
    using plausible_row loc(2) unfolding gt06_location_valid_def eqs by blast
  obtain u w1 where save: "save_raw cfg ?dev p raw False True w = (Inr u, w1)" and w1: "healthy w1"
    "\<forall>I. keeps I (save_raw cfg ?dev p raw False True) \<longrightarrow> I w \<longrightarrow> I w1"
    using reliable_step [OF reliable_save_raw assms(1)] by blast
  have t1: "tracks (db w) (db w1)"
    using w1(2) writers_tracks(1) [of "db w"] by (fastforce simp: on_db_def)
  obtain b w2 where loc2: "save_location cfg ?dev la lo sp hg sa t w1 = (Inr b, w2)"
    and w2: "db w2 = snd (save_location_sql (cfg_gps_idempotent cfg) row (db w1))"
    using save_location_runs [OF w1(1) row] by blast
  have "stays s i (closing w) w" using assms(3) by (simp add: stays_def)
  with w1(2) tables_onlyD(1) [OF tables_only_records(4) stays_session] have "stays s i (closing w) w1" by blast
  then have s2: "stays s i (closing w) w2" by (rule keepsD2 [OF tables_onlyD(1) [OF tables_only_location(1) stays_session] loc2])
  have branch: "gt06_branch cfg p raw s ip (Some i) w = (Inr (Some i), w2)"
    using p(2) loc assms(4,5) save loc2 unfolding eqs
    by (auto simp: gt06_branch_def gt06_location_def for_device_def gt06_device_def reg_device_def bindM_def thenM_def)
  have "never_raises (gt06_ack raw s)"
    unfolding gt06_ack_def by (intro never_raises_tryM never_raises_ret)
  then obtain w3 where ack: "gt06_ack raw s w2 = (Inr (), w3)" unfolding never_raises_def by fastforce
  have s3: "stays s i (closing w) w3"
    by (rule keepsD2 [OF gt06_ack_keeps [where I = "stays s i (closing w)"] ack s2]) (rule write_drain_stays)
  have "on_db (\<lambda>d. d = db w2) w3"
    by (rule keepsD2 [OF gt06_ack_keeps [where I = "on_db (\<lambda>d. d = db w2)"] ack])
      (simp_all add: keeps_write_drain, simp add: on_db_def)
  then have "tracks (snd (save_location_sql (cfg_gps_idempotent cfg) row (db w1))) (db w3)"
    by (simp add: on_db_def w2)
  moreover have "process_packet cfg raw s ip w = (Inr (Some i), w3)"
    using assms(3) p(1) branch thenM_Inr [where m = "gt06_ack raw s" and s = w2 and k = "ret (Some i)", OF ack]
    by (simp add: process_packet_def bindM_def tryM_def reg_imei_of_def)
  ultimately show ?thesis
    using row tracking_row_fields [OF row] position_stored_sql [OF t1] s3 unfolding stays_def by blast
qed

lemma tracker_imei:
  assumes "parse_tracker k msg = Inr data"
  shows "is_imei (tk_imei data)"
  using assms by (auto simp: parse_tracker_def Let_def result_simps split: if_splits)

lemma imei_confirmed:
  assumes "is_imei i"
  shows "\<exists>b. build_help_me_ack i = Inr b"
proof -
  have "list_all (\<lambda>c. char_code c < 128) i"
    using assms by (auto simp: is_imei_def is_digits_def is_digit_char_def list_all_iff)
  then show ?thesis by (simp add: build_help_me_ack_def encode_ascii_def char_code_def)
qed

lemma gps103_position_stored:
  assumes "healthy w" and "gps103_report (cfg_speed_in_kmh cfg) i raw = Some (la, lo, sp, hg, sa, t)"
    and "get_imei_by_socket (reg w) s = Some i" and "i \<noteq> ''''" and "get_device (reg w) i = Some e"
  shows "\<exists>row w'. process_gps103_message cfg raw s ip w = (Inr (Some i), w') \<and>
    tracking_params (e_device_id e) la lo sp hg sa t = Inr row \<and> position_stored cfg (e_device_id e) row (db w) (db w') \<and>
    get_imei_by_socket (reg w') s = Some i \<and> closing w' = closing w"
proof -
  let ?dev = "e_device_id e" and ?T = "\<lambda>d. on_db (tracks d)"
  obtain msg data where k: "gps103_classify raw = (KTracker, msg)"
    and data: "parse_tracker (cfg_speed_in_kmh cfg) msg = Inr data" "tk_imei data = i" "tracker_position_ok data"
    and eqs: "tk_latitude data = Some la" "tk_longitude data = Some lo" "tk_speed data = Some sp"
      "tk_heading data = Some hg" "tk_timestamp data = Some t" "sa = 0"
    using assms(2) by (auto simp: gps103_report_def split: prod.splits kind.splits sum.splits option.splits if_splits)
  obtain row where row: "tracking_params ?dev la lo sp hg sa t = Inr row"
    using data(3) plausible_row [of la lo sp hg ?dev sa t]
    unfolding tracker_position_ok_def eqs gps103_location_valid_def by (auto split: if_splits)
  obtain reply where reply: "build_help_me_ack i = Inr reply" using imei_confirmed tracker_imei [OF data(1)] data(2) by blast
  let ?sos = "whenM (tk_alarm_name data = Some ''SOS'') (bindM (liftR (build_help_me_ack i)) (\<lambda>reply. send_reply s reply))"
  let ?raw = "safely (save_raw cfg ?dev ''GPS103'' raw (tk_alarm_name data \<noteq> None \<or> \<not> tk_known_keyword data) True)"
  let ?ign = "case tk_ignition data of None \<Rightarrow> ret () | Some ign \<Rightarrow> safely (set_ignition ?dev ign)"
  let ?veh = "case tk_alarm_name data of None \<Rightarrow> ret None | Some _ \<Rightarrow> vehicle_or_none ?dev"
  let ?pre = "thenM ?sos (thenM ?raw (thenM ?ign ?veh))"
  let ?store = "store_tracker_position cfg i ?dev data"
  let ?alarm = "\<lambda>v. case tk_alarm_name data of None \<Rightarrow> ret ()
    | Some name \<Rightarrow> safely (alarm_event ?dev data True v name)"
  have "reliable ?pre"
    unfolding vehicle_or_none_def reply
    by (intro reliable_intros reliable_send_reply reliable_case_option) simp
  then obtain v w1 where pre: "?pre w = (Inr v, w1)" and w1: "healthy w1" "\<forall>I. keeps I ?pre \<longrightarrow> I w \<longrightarrow> I w1"
    using reliable_step [OF _ assms(1)] by blast
  have "keeps (?T (db w)) ?pre"
    unfolding vehicle_or_none_def
    by (intro keeps_thenM keeps_whenM keeps_bindM keeps_liftR keeps_send_reply net_inv_parts keeps_safely
        writers_tracks keeps_case_option keeps_ret keeps_tryM)
  then have "on_db (tracks (db w)) w1" using w1(2)[rule_format, of "on_db (tracks (db w))"] by (simp add: on_db_def)
  then have t1: "tracks (db w) (db w1)" by (simp add: on_db_def)
  have "keeps (stays s i (closing w)) ?pre"
    unfolding vehicle_or_none_def
    by (intro keeps_thenM keeps_whenM keeps_bindM keeps_liftR send_reply_stays keeps_safely keeps_tables
        stays_session keeps_case_option keeps_ret keeps_tryM)
  moreover have "stays s i (closing w) w" using assms(3) by (simp add: stays_def)
  ultimately have s1: "stays s i (closing w) w1" using w1(2) by blast
  obtain b w2 where loc: "save_location cfg ?dev la lo sp hg sa t w1 = (Inr b, w2)" and w2: "healthy w2"
    "db w2 = snd (save_location_sql (cfg_gps_idempotent cfg) row (db w1))"
    using save_location_runs [OF w1(1) row] by blast
  obtain w3 where store: "?store w1 = (Inr (), w3)" and w3: "db w3 = db w2"
    using loc unfolding store_tracker_position_def eqs
    by (auto simp: bindM_def thenM_def safely_def tryM_def now_utc_def with_reg_def)
  have "keeps (stays s i (closing w)) ?store"
    unfolding store_tracker_position_def
    by (intro keeps_thenM keeps_bindM keeps_case_option keeps_case_prod keeps_ret keeps_safely keeps_tables
        keeps_oracle_part stays_session note_position_stays)
  from keepsD2 [OF this store s1] have s3: "stays s i (closing w) w3" .
  have "never_raises (?alarm v)"
    unfolding safely_def by (cases "tk_alarm_name data") (simp_all add: never_raises_ret never_raises_tryM)
  then obtain w4 where alarm: "?alarm v w3 = (Inr (), w4)" unfolding never_raises_def by fastforce
  have "keeps (?T (db w3)) (?alarm v)"
    unfolding alarm_event_def by (intro keeps_case_option keeps_ret keeps_safely create_event_tracks)
  have "keeps (stays s i (closing w)) (?alarm v)"
    unfolding alarm_event_def by (intro keeps_case_option keeps_ret keeps_safely keeps_tables stays_session)
  from keepsD2 [OF this alarm s3] have s4: "stays s i (closing w) w4" .
  from keepsD2 [OF \<open>keeps (?T (db w3)) (?alarm v)\<close> alarm] have t4: "tracks (db w3) (db w4)" by (simp add: on_db_def)
  have "gps103_tracker cfg msg raw s w =
      bindM ?pre (\<lambda>v. thenM ?store (thenM (?alarm v) (ret (Some i)))) w"
  proof -
    have auth: "authenticated_imei s i w = (Inr (Some i), w)" by (rule authenticated_imei_own [OF assms(3,4)])
    have dev: "device_id_of i w = (Inr ?dev, w)"
      using assms(5) by (simp add: device_id_of_def reg_device_def bindM_def)
    show ?thesis
      by (simp add: gps103_tracker_def data bindM_Inr [where m = "authenticated_imei s i", OF auth]
          bindM_Inr [where m = "device_id_of i", OF dev] bindM_liftR_Inr Let_def
          whenM_True bindM_thenM)
  qed
  also have "\<dots> = (Inr (Some i), w4)"
    by (simp only: bindM_Inr [where m = ?pre, OF pre] thenM_Inr [where m = ?store, OF store] thenM_Inr [where m = "?alarm v", OF alarm] ret_run)
  finally have "process_gps103_message cfg raw s ip w = (Inr (Some i), w4)"
    by (simp add: process_gps103_message_def gps103_branch_def k tryM_def)
  then show ?thesis
    using row tracking_row_fields [OF row] position_stored_sql [OF t1, of row ?dev cfg "db w4"] t4 w2(2) w3 s4
    unfolding stays_def by auto
qed

section \<open>Properties\<close>

text \<open>
  C31. From the frame to the row: when no call fails, the position that a GT06 frame or a GPS103 message
  reports (a decodable one, with a fix and within the bounds) on the authenticated connection of a
  registered device is put at the end of the history, unless the idempotent insert finds the row of
  the same device and time there, and it becomes the live position of the vehicle the device is
  installed in. The connection stays authenticated as that device and open, and no other device moves.
\<close>

theorem position_reaches_tables:
  assumes "healthy w" and "reports fam cfg imei raw = Some (la, lo, sp, hg, sa, t)"
    and "get_imei_by_socket (reg w) s = Some imei" and "imei \<noteq> ''''" and "get_device (reg w) imei = Some e"
  shows "\<exists>row w'. handler_of fam cfg raw s ip w = (Inr (Some imei), w') \<and>
    tracking_params (e_device_id e) la lo sp hg sa t = Inr row \<and> position_stored cfg (e_device_id e) row (db w) (db w') \<and>
    get_imei_by_socket (reg w') s = Some imei \<and> closing w' = closing w"
proof (cases fam)
  case GT06
  with assms gt06_position_stored [OF assms(1) _ assms(3-5)] show ?thesis by simp
next
  case GPS103
  with assms gps103_position_stored [OF assms(1) _ assms(3-5)] show ?thesis by simp
qed (use assms(2) in simp)

definition reporting_world :: world where
  "reporting_world = (start_world empty_database) \<lparr> reg :=
     register_device ''123456789012345'' ''10.0.0.7'' ''d1'' 7 GT06 0 0 empty_registry \<rparr>"

lemma reporting_world_simps:
  "healthy reporting_world" "db reporting_world = empty_database"
  "get_imei_by_socket (reg reporting_world) 7 = Some ''123456789012345''"
  "get_device (reg reporting_world) ''123456789012345'' = Some (new_entry ''10.0.0.7'' ''d1'' 7 GT06 0 0)"
  by (simp_all add: reporting_world_def healthy_def start_world_def register_device_def put_entry_def
      get_device_def get_imei_by_socket_def new_entry_def empty_registry_def)

lemma sample_position_reported: "\<exists>la lo sp hg sa t. gt06_report sample_position = Some (la, lo, sp, hg, sa, t)"
proof -
  obtain loc where loc: "parse_location_packet sample_position = Inr loc" using sample_position_parses by blast
  have "gt06_location_valid loc" by (simp add: gt06_location_valid_iff [OF loc] sample_position_raw)
  moreover have "gt06_protocol sample_position = Inr (Some ''12'')"
    by (simp add: gt06_protocol_def sample_position_def hex_byte_def hex_digit_def)
  ultimately show ?thesis by (simp add: gt06_report_def loc)
qed

theorem position_reaches_tables_witness:
  "\<exists>row w'. process_packet default_config sample_position 7 ''10.0.0.7'' reporting_world =
       (Inr (Some ''123456789012345''), w') \<and> gps_trackings (db w') = [row] \<and> tr_device_id row = ''d1''"
proof -
  obtain la lo sp hg sa t where "gt06_report sample_position = Some (la, lo, sp, hg, sa, t)"
    using sample_position_reported by blast
  then have "reports GT06 default_config ''123456789012345'' sample_position = Some (la, lo, sp, hg, sa, t)" by simp
  from position_reaches_tables [OF reporting_world_simps(1) this reporting_world_simps(3) _ reporting_world_simps(4),
      of "''10.0.0.7''"]
  show ?thesis
    by (auto simp: position_stored_def reporting_world_simps new_entry_def default_config_def empty_database_def
        dest: tracking_row_fields)
qed


text \<open>
  C23. A retransmitted position is stored once. With GPS_TRACKING_IDEMPOTENT and the unique index it
  needs, let positions be saved one after the other, with any repetitions, and let any of the
  database calls fail, after taking effect too: the history stays free of two rows of one device and
  time, what was there stays there in front, and every new row is the row of one of the requests.
  Nothing is lost by it: when a save has returned, its device and time are in the history from then
  on, and when no call fails so are those of every request whose numbers can be stored.
\<close>

theorem retransmission_stored_once:
  assumes "cfg_gps_idempotent cfg" and "distinct (history_keys (db w))" and "save_requests cfg qs w = (r, w')"
  shows "distinct (history_keys (db w')) \<and>
    (\<exists>new. gps_trackings (db w') = gps_trackings (db w) @ new \<and>
       (\<forall>row \<in> set new. \<exists>q \<in> set qs. request_row q = Inr row)) \<and>
    (\<forall>us q vs b. qs = us @ q # vs \<and> fst (save_request cfg q (snd (save_requests cfg us w))) = Inr b \<longrightarrow>
       request_key q \<in> set (history_keys (db w'))) \<and>
    (healthy w \<longrightarrow> (\<forall>q \<in> set qs. (\<exists>row. request_row q = Inr row) \<longrightarrow> request_key q \<in> set (history_keys (db w'))))"
proof -
  have w': "w' = snd (save_requests cfg qs w)" using assms(3) by simp
  have stored: "request_key q \<in> set (history_keys (db w'))"
    if "qs = us @ q # vs" "fst (save_request cfg q (snd (save_requests cfg us w))) = Inr b" for us q vs b
  proof -
    let ?u = "snd (save_requests cfg us w)"
    have "request_key q \<in> set (history_keys (db (snd (save_request cfg q ?u))))"
      using that(2) by (intro save_request_stores [where b = b and w = ?u]) (simp add: prod_eq_iff)
    moreover have "w' = snd (save_requests cfg vs (snd (save_request cfg q ?u)))"
      by (simp add: w' that(1) save_requests_append save_requests_Cons del: save_requests.simps(2))
    ultimately show ?thesis using history_grows [OF assms(1)] by blast
  qed
  have healthy: "healthy (snd (save_requests cfg us v))" if "healthy v" for us v
    using that by (induction us arbitrary: v) (simp_all add: save_requests_Cons save_request_healthy del: save_requests.simps(2))
  have "request_key q \<in> set (history_keys (db w'))" if h: "healthy w" and "q \<in> set qs" and row: "request_row q = Inr row" for q row
  proof -
    obtain us vs where "qs = us @ q # vs" using \<open>q \<in> set qs\<close> by (meson split_list)
    moreover from save_request_runs [OF healthy [OF h] row]
    obtain b where "fst (save_request cfg q (snd (save_requests cfg us w))) = Inr b" by (metis fst_conv)
    ultimately show ?thesis by (rule stored)
  qed
  with save_requests_extend [OF assms(1,2), of qs] stored show ?thesis unfolding w' by blast
qed

definition sample_request :: "datetime \<Rightarrow> save_request" where
  "sample_request t = \<lparr> sv_device = ''d1'', sv_latitude = Fin 7, sv_longitude = Fin 80, sv_speed = Fin 10,
     sv_heading = Fin 0, sv_satellites = 9, sv_time = t \<rparr>"

text \<open>A position, the next one, and the first again.\<close>

theorem retransmission_stored_once_witness:
  "\<exists>w'. save_requests sample_config [sample_request 1000, sample_request 2000, sample_request 1000] (start_world empty_database) = (Inr (), w') \<and>
     distinct (history_keys (db w')) \<and> set (history_keys (db w')) = {(''d1'', 1000), (''d1'', 2000)}"
proof -
  let ?qs = "[sample_request 1000, sample_request 2000, sample_request 1000]" and ?w = "start_world empty_database"
  have c: "cfg_gps_idempotent sample_config" by (simp add: sample_config_def)
  have r: "\<exists>row. request_row (sample_request t) = Inr row" for t
    unfolding request_row_def sample_request_def
    by simp (rule plausible_row, simp add: location_plausible_def f_between_Fin)
  have "\<exists>w'. save_requests cfg us v = (Inr (), w')" for cfg us v
    by (induction us arbitrary: v) (simp_all add: save_requests_Cons del: save_requests.simps(2))
  then obtain w' where s: "save_requests sample_config ?qs ?w = (Inr (), w')" by blast
  have "distinct (history_keys (db ?w))" by (simp add: history_keys_def empty_database_def)
  from retransmission_stored_once [OF c this s]
  obtain new where d: "distinct (history_keys (db w'))" and new: "gps_trackings (db w') = new"
    "\<forall>row \<in> set new. \<exists>q \<in> set ?qs. request_row q = Inr row"
    and all: "\<forall>q \<in> set ?qs. (\<exists>row. request_row q = Inr row) \<longrightarrow> request_key q \<in> set (history_keys (db w'))"
    by (auto simp: empty_database_def)
  have "set (history_keys (db w')) \<subseteq> request_key ` set ?qs"
    using new request_row_key by (fastforce simp: history_keys_def)
  moreover have "request_key ` set ?qs \<subseteq> set (history_keys (db w'))" using all r by auto
  ultimately show ?thesis using s d by (auto simp: request_key_def sample_request_def)
qed

end
