(* ===== verification/Logging.thy ===== *)
theory Logging
  imports Gt06_Handler Gps103_Handler Config
begin

text \<open>
  utils/logger.py and what the handlers do with text of a device before they log it. A log call
  prints at most one message, stamped with Sri Lankan time; the result here is what goes to the
  standard output. The pictographs at the start of some messages are left out.
\<close>

section \<open>utils/logger.py\<close>

text \<open>Sri Lanka is five and a half hours ahead of UTC.\<close>

definition SRI_LANKA_OFFSET :: int where
  "SRI_LANKA_OFFSET = (5 * 60 + 30) * 60 * usec"

definition LEVELS :: "(string \<times> nat) list" where
  "LEVELS = [(''DEBUG'', 10), (''INFO'', 20), (''WARNING'', 30), (''ERROR'', 40)]"

definition threshold :: "environ \<Rightarrow> nat" where
  "threshold env =
     (case map_of LEVELS (upper (strip (getenv env ''LOG_LEVEL'' ''DEBUG''))) of
        Some n \<Rightarrow> n | None \<Rightarrow> 10)"

definition newline :: char where
  "newline = char_of (10 :: nat)"

text \<open>\<^verbatim>\<open>strftime('%Y-%m-%d %H:%M:%S.%f')[:-3]\<close>: down to the millisecond.\<close>

definition log_stamp :: "datetime \<Rightarrow> string" where
  "log_stamp t =
     (let (y, m, d) = date_of_day (nat (t div (86400 * usec)))
      in pad 4 y @ ''-'' @ pad 2 m @ ''-'' @ pad 2 d @ '' '' @
         pad 2 (nat (dt_hour t)) @ '':'' @ pad 2 (nat (dt_minute t)) @ '':'' @ pad 2 (nat (dt_second t)) @
         ''.'' @ take 3 (pad 6 (nat (t mod usec))))"

definition log_prefix :: "datetime \<Rightarrow> string" where
  "log_prefix now = ''['' @ log_stamp (now + SRI_LANKA_OFFSET) @ '']''"

definition log_output :: "nat \<Rightarrow> datetime \<Rightarrow> string \<Rightarrow> string \<Rightarrow> string" where
  "log_output least now message level =
     (if (case map_of LEVELS level of Some n \<Rightarrow> n | None \<Rightarrow> 20) < least then []
      else log_prefix now @ '' '' @ message @ [newline])"

definition debug_output :: "nat \<Rightarrow> datetime \<Rightarrow> string \<Rightarrow> string" where
  "debug_output least now message = log_output least now message ''DEBUG''"

section \<open>Text of a device\<close>

text \<open>
  \<^verbatim>\<open>ascii(text)\<close> on code points: everything that is not printable ASCII is escaped. The quotes are
  single ones, unless the text has single and no double quotes.
\<close>

definition ascii_char :: "nat \<Rightarrow> nat \<Rightarrow> string" where
  "ascii_char quote n =
     (let back = char_of (92 :: nat)
      in if n = quote \<or> n = 92 then [back, char_of n]
         else if n = 9 then [back, CHR ''t''] else if n = 10 then [back, CHR ''n'']
         else if n = 13 then [back, CHR ''r'']
         else if 32 \<le> n \<and> n < 127 then [char_of n]
         else if n < 256 then [back, CHR ''x'', hex_digit (n div 16), hex_digit (n mod 16)]
         else [back, CHR ''u'', hex_digit (n div 4096 mod 16), hex_digit (n div 256 mod 16),
               hex_digit (n div 16 mod 16), hex_digit (n mod 16)])"

definition ascii_repr :: "nat list \<Rightarrow> string" where
  "ascii_repr ns =
     (let q = (if 39 \<in> set ns \<and> 34 \<notin> set ns then 34 else 39)
      in [char_of q] @ concat (map (ascii_char q) ns) @ [char_of q])"

text \<open>\<^verbatim>\<open>decode("ascii", errors="replace")\<close>: one replacement character for each byte above 127.\<close>

definition decode_ascii_replace :: "bytes \<Rightarrow> nat list" where
  "decode_ascii_replace raw = map (\<lambda>b. if b < 128 then unat b else 0xFFFD) raw"

definition safe_bytes :: "bytes \<Rightarrow> nat \<Rightarrow> string" where
  "safe_bytes raw limit = ascii_repr (take limit (decode_ascii_replace raw))"

definition safe_string :: "string \<Rightarrow> nat \<Rightarrow> string" where
  "safe_string s limit = ascii_repr (take limit (map char_code s))"

text \<open>The GT06 handler logs the text of a command response and of an unknown packet as it is.\<close>

definition response_messages :: "command_response \<Rightarrow> string list" where
  "response_messages r = [''Command  : '' @ resp_command r, ''Raw Text : '' @ resp_raw_text r]"

definition unknown_messages :: "string \<Rightarrow> bytes \<Rightarrow> string list" where
  "unknown_messages protocol raw =
     [newline # ''========== UNKNOWN PACKET =========='', ''Protocol : '' @ protocol,
      ''Length   : '' @ str_nat (length raw), ''Raw HEX  : '' @ hex_of raw,
      ''===================================='']"

definition ascii_message :: "bytes \<Rightarrow> string option" where
  "ascii_message raw =
     (case decode_ascii raw of Inr text \<Rightarrow> Some (''ASCII    : '' @ text) | Inl _ \<Rightarrow> None)"

text \<open>
  The GPS103 handler's lines with text of the device, in UTF-8: of a message it does not know, of a
  keyword it does not know, and of a report without a fix.
\<close>

definition utf8 :: "nat list \<Rightarrow> string" where
  "utf8 bs = map char_of bs"

definition INFO_SIGN :: string where
  "INFO_SIGN = utf8 [0xE2, 0x84, 0xB9, 0xEF, 0xB8, 0x8F]"

definition EM_DASH :: string where
  "EM_DASH = utf8 [0xE2, 0x80, 0x94]"

definition unknown_message :: "string \<Rightarrow> bytes \<Rightarrow> string" where
  "unknown_message ip raw = utf8 [0xE2, 0x9D, 0x93] @ '' Unknown GPS103 message from '' @ ip @ '': '' @ safe_bytes raw 120"

definition keyword_message :: "string \<Rightarrow> tracker \<Rightarrow> string" where
  "keyword_message imei data = INFO_SIGN @ '' Unrecognised GPS103 keyword '' @ safe_string (tk_keyword data) 40 @
     '' from '' @ imei @ '' '' @ EM_DASH @ '' treated as a position report''"

definition no_fix_message :: "string \<Rightarrow> tracker \<Rightarrow> string" where
  "no_fix_message imei data = INFO_SIGN @ '' No GPS fix in report from '' @ imei @ '' (fix_type='' @
     (case tk_fix_type data of None \<Rightarrow> ''None'' | Some f \<Rightarrow> f) @ '') '' @ EM_DASH @ '' position skipped''"

text \<open>
  What \<^verbatim>\<open>_handle_tracker\<close> logs of a parsed report before it does anything with it (the line for a position
  that is refused, which holds numbers only, is left out).
\<close>

definition report_messages :: "string \<Rightarrow> tracker \<Rightarrow> string list" where
  "report_messages imei data =
     (if tk_known_keyword data then [] else [keyword_message imei data]) @
     (if tk_valid_fix data then [] else [no_fix_message imei data])"

section \<open>Facts\<close>

text \<open>The thresholds: a level below it is silent, and every message at or above it is one call's print.\<close>

lemma log_output_empty_iff:
  "log_output least now message level = [] \<longleftrightarrow>
     (case map_of LEVELS level of Some n \<Rightarrow> n | None \<Rightarrow> 20) < least"
  by (simp add: log_output_def)

lemma threshold_bounds: "10 \<le> threshold env \<and> threshold env \<le> 40"
  by (auto simp: threshold_def LEVELS_def split: option.split if_splits)

definition printable :: "char \<Rightarrow> bool" where
  "printable c \<longleftrightarrow> 32 \<le> char_code c \<and> char_code c < 127"

lemma hex_digit_printable: "n < 16 \<Longrightarrow> printable (hex_digit n)"
proof -
  have "\<forall>n \<in> {0 ..< 16}. printable (hex_digit n)" by code_simp
  then show "n < 16 \<Longrightarrow> ?thesis" by simp
qed

lemma char_code_of [simp]: "n < 256 \<Longrightarrow> char_code (char_of n) = n"
  by (simp add: char_code_def)

lemma ascii_char_safe:
  assumes "q \<in> {34, 39}"
  shows "list_all printable (ascii_char q n) \<and> length (ascii_char q n) \<le> 6"
proof -
  have "printable (char_of (92 :: nat))" "printable CHR ''t''" "printable CHR ''n''" "printable CHR ''r''"
    "printable CHR ''x''" "printable CHR ''u''"
    by (simp_all add: printable_def char_code_def)
  moreover have "printable (char_of n)" if "32 \<le> n" "n < 127" using that by (simp add: printable_def)
  moreover have "n div 16 < 16" if "n < 256" using that by (simp add: less_mult_imp_div_less)
  ultimately show ?thesis
    using assms by (auto simp: ascii_char_def Let_def hex_digit_printable)
qed

lemma length_concat_bound: "(\<And>x. x \<in> set xs \<Longrightarrow> length (f x) \<le> k) \<Longrightarrow> length (concat (map f xs)) \<le> k * length xs"
proof (induction xs)
  case (Cons x xs)
  have "length (f x) \<le> k" "length (concat (map f xs)) \<le> k * length xs" using Cons by auto
  then show ?case by simp
qed simp

lemma ascii_repr_safe: "list_all printable (ascii_repr ns) \<and> length (ascii_repr ns) \<le> 2 + 6 * length ns"
proof -
  define q :: nat where "q = (if 39 \<in> set ns \<and> 34 \<notin> set ns then 34 else 39)"
  then have q: "q \<in> {34, 39}" by simp
  have "printable (char_of q)" using q by (auto simp: printable_def)
  moreover have "length (concat (map (ascii_char q) ns)) \<le> 6 * length ns"
    by (rule length_concat_bound) (use ascii_char_safe [OF q] in blast)
  moreover have "list_all printable (concat (map (ascii_char q) ns))"
    using ascii_char_safe [OF q] by (simp add: list_all_iff)
  ultimately show ?thesis by (simp add: ascii_repr_def Let_def q_def [symmetric])
qed

text \<open>A command response of the extended form, with any text.\<close>

definition response_frame :: "string \<Rightarrow> bytes" where
  "response_frame text =
     [0x79, 0x79] @ be_bytes 2 (length text + 5) @ [0x21] @ map (\<lambda>c. of_nat (char_code c)) text @
     [0, 1, 0, 0, 0x0D, 0x0A]"

lemma response_frame_gt06: "length text < 65000 \<Longrightarrow> gt06_frame (response_frame text)"
  by (simp add: gt06_frame_def response_frame_def starts_with_def slice_def be_val_be_bytes)

lemma strip_id:
  assumes "s \<noteq> []" and "\<not> is_space_char (hd s)" and "\<not> is_space_char (last s)"
  shows "strip s = s"
proof -
  have "dropWhile is_space_char s = s" using assms(1,2) by (cases s) simp_all
  moreover have "dropWhile is_space_char (rev s) = rev s"
    using assms(1,3) by (cases "rev s") (auto simp: last_rev [symmetric] hd_rev)
  ultimately show ?thesis by (simp add: strip_def strip_by_def)
qed

lemma response_frame_text:
  assumes "s \<noteq> []" and "\<not> is_space_char (hd s)" and "\<not> is_space_char (last s)"
    and "list_all (\<lambda>c. char_code c < 128 \<and> \<not> is_control c) s"
  shows "response_text (response_frame s) = s"
proof -
  have "decode_ascii_ignore (map (\<lambda>c. of_nat (char_code c)) s) = s"
    using assms(4)
    by (induction s) (auto simp: decode_ascii_ignore_def unat_of_nat word_less_nat_alt char_code_def)
  moreover obtain a b where "be_bytes 2 (length s + 5) = [a, b]"
    using length_be_bytes [of 2 "length s + 5"] by (auto simp: length_Suc_conv numeral_2_eq_2)
  then have "py_slice (response_frame s) 5 (- 6) = map (\<lambda>c. of_nat (char_code c)) s"
    by (simp add: response_frame_def py_slice_def clamp_index_def slice_def)
  moreover have "take 2 (response_frame s) = [0x79, 0x79]" by (simp add: response_frame_def)
  moreover have "filter (\<lambda>c. \<not> is_control c) s = s" using assms(4) by (simp add: list_all_iff filter_id_conv)
  ultimately show ?thesis using strip_id [OF assms(1-3)] by (simp add: response_text_def Let_def)
qed

lemma char_of_space: "char_of (32 :: nat) = CHR '' ''"
  by code_simp

lemma newline_no_p: "char_of (10 :: nat) \<noteq> CHR ''p''"
  by code_simp

lemma response_parses:
  "\<not> contains ''position!'' (lower (response_text p)) \<Longrightarrow>
   \<exists>r. parse_command_response p = Inr r \<and> resp_raw_text r = response_text p"
  by (simp add: parse_command_response_def Let_def)

lemma response_frame_protocol: "gt06_protocol (response_frame s) = Inr (Some ''21'')"
proof -
  obtain a b where "be_bytes 2 (length s + 5) = [a, b]"
    using length_be_bytes [of 2 "length s + 5"] by (auto simp: length_Suc_conv numeral_2_eq_2)
  then show ?thesis
    by (simp add: gt06_protocol_def response_frame_def get_at_def hex_byte_def hex_digit_def)
qed

lemma printable_clean:
  assumes "printable c"
  shows "char_code c < 128 \<and> \<not> is_control c \<and> (is_space_char c \<longrightarrow> c = CHR '' '')"
proof -
  have "c = CHR '' ''" if "char_code c = 32"
  proof -
    have "char_of (char_code c) = c" by (simp add: char_code_def)
    then show ?thesis using that by (metis char_of_space)
  qed
  with assms show ?thesis by (auto simp: printable_def is_control_def is_space_char_def Let_def)
qed

text \<open>A GT06 device puts a line into the log by a command response with that line after a line feed.\<close>

lemma gt06_forges:
  assumes "line \<noteq> []" and "list_all printable line" and "last line \<noteq> CHR '' ''" and "length line < 60000"
    and "\<not> contains ''position!'' (lower line)" and "least \<le> 20"
  shows "\<exists>frame r. gt06_frame frame \<and> gt06_protocol frame = Inr (Some ''21'') \<and>
      parse_command_response frame = Inr r \<and>
      (\<exists>m \<in> set (response_messages r).
         log_output least now m ''INFO'' = log_prefix now @ '' Raw Text : ok'' @ [newline] @ line @ [newline])"
proof -
  let ?text = "''ok'' @ newline # line"
  let ?frame = "response_frame ?text"
  have rt: "response_text ?frame = ?text"
  proof (rule response_frame_text)
    have "printable (last line)" using assms(1,2) by (simp add: list_all_iff)
    with printable_clean assms(1,3) show "\<not> is_space_char (last ?text)" by auto
    have "list_all (\<lambda>c. char_code c < 128 \<and> \<not> is_control c) line" using assms(2) printable_clean by (auto simp: list_all_iff)
    then show "list_all (\<lambda>c. char_code c < 128 \<and> \<not> is_control c) ?text"
      by (simp add: newline_def is_control_def) (simp add: char_code_def)
  qed (simp_all add: is_space_char_def char_code_def)
  moreover have "\<not> contains ''position!'' (lower ?text)"
    using assms(5) by (simp add: lower_def lower_char_def starts_with_def newline_def newline_no_p char_code_def)
  ultimately obtain r where r: "parse_command_response ?frame = Inr r" "resp_raw_text r = ?text"
    using response_parses [of ?frame] unfolding rt by blast
  then have "''Raw Text : '' @ ?text \<in> set (response_messages r)" by (simp add: response_messages_def)
  moreover have "log_output least now (''Raw Text : '' @ ?text) ''INFO'' =
      log_prefix now @ '' Raw Text : ok'' @ [newline] @ line @ [newline]"
    using assms(6) by (simp add: log_output_def LEVELS_def)
  moreover have "gt06_frame ?frame" by (rule response_frame_gt06) (use assms(4) in simp)
  ultimately show ?thesis
    using r(1) response_frame_protocol by blast
qed

text \<open>A GPS103 device does so by a report whose fix type is that line between line feeds.\<close>

definition forged_type :: "string \<Rightarrow> string" where
  "forged_type line = ''L'' @ newline # line @ newline # ''L''"

definition forged_report :: "string \<Rightarrow> string \<Rightarrow> string" where
  "forged_report imei line = join_with (CHR '','') [''imei:'' @ imei, ''tracker'', [], [], forged_type line, []]"

definition ascii_bytes :: "string \<Rightarrow> bytes" where
  "ascii_bytes s = map (\<lambda>c. of_nat (char_code c)) s"

lemma newline_facts:
  "newline \<noteq> CHR '',''" "newline \<noteq> CHR '';''" "char_code newline = 10" "upper_char newline = newline"
  by code_simp+

lemma strip_ends: "\<not> is_space_char (hd s) \<Longrightarrow> \<not> is_space_char (last s) \<Longrightarrow> strip s = s"
  using strip_id by (cases "s = []") (simp add: strip_def strip_by_def, blast)

lemma imei_text:
  assumes "is_imei i"
  shows "strip i = i" and "CHR '','' \<notin> set i" and "CHR '';'' \<notin> set i" and "newline \<notin> set i" and "list_all (\<lambda>c. char_code c < 128) i"
proof -
  have d: "list_all is_digit_char i" and ne: "i \<noteq> []" using assms by (auto simp: is_imei_def is_digits_def)
  have sp: "is_digit_char c \<Longrightarrow> \<not> is_space_char c" for c by (auto simp: is_digit_char_def is_space_char_def Let_def)
  have "is_digit_char (hd i)" "is_digit_char (last i)" using d ne by (auto simp: list_all_iff)
  then show "strip i = i" using sp strip_ends by blast
  show "CHR '','' \<notin> set i" "CHR '';'' \<notin> set i" "newline \<notin> set i" "list_all (\<lambda>c. char_code c < 128) i"
    using d by (auto simp: list_all_iff is_digit_char_def newline_def char_code_def)
qed

definition forging :: "string \<Rightarrow> bool" where
  "forging line \<longleftrightarrow> list_all printable line \<and> CHR '','' \<notin> set line \<and> CHR '';'' \<notin> set line \<and> upper line = line"

lemma forged_report_fields:
  assumes "is_imei imei" and "forging line"
  shows "split_on (CHR '','') (forged_report imei line) = [''imei:'' @ imei, ''tracker'', [], [], forged_type line, []]"
  unfolding forged_report_def
  using assms imei_text(2) [OF assms(1)]
  by (intro split_join_with) (auto simp: forging_def forged_type_def newline_facts newline_facts(1) [symmetric])

lemma forged_report_parses:
  assumes "is_imei imei" and "forging line"
  shows "\<exists>data. parse_tracker k (forged_report imei line) = Inr data \<and> tk_imei data = imei \<and> tk_known_keyword data \<and>
    \<not> tk_valid_fix data \<and> tk_fix_type data = Some (forged_type line)"
proof -
  have start: "starts_with ''imei:'' (forged_report imei line)"
    by (simp add: forged_report_def starts_with_def)
  have upper: "upper (forged_type line) = forged_type line"
    using assms(2) by (simp add: forging_def forged_type_def upper_def newline_facts) (simp add: upper_char_def char_code_def)
  have strip: "strip (forged_type line) = forged_type line"
    by (rule strip_ends) (simp_all add: forged_type_def is_space_char_def char_code_def)
  have keyword: "lower (strip ''tracker'') = ''tracker''" "map_of ALARM_NAMES ''tracker'' = Some None" by code_simp+
  have "forged_type line \<noteq> ''F''" by (simp add: forged_type_def)
  moreover have "forged_type line \<noteq> []" by (simp add: forged_type_def)
  ultimately show ?thesis
    using start assms(1) imei_text(1) [OF assms(1)]
    by (simp add: parse_tracker_def Let_def forged_report_fields [OF assms] field_def upper strip keyword)
qed

lemma forged_report_bytes:
  assumes "is_imei imei" and "forging line"
  shows "list_all (\<lambda>c. char_code c < 128 \<and> c \<noteq> CHR '';'') (forged_report imei line)"
    and "hd (forged_report imei line) = CHR ''i''" "last (forged_report imei line) = CHR '',''" "forged_report imei line \<noteq> []"
proof -
  have "list_all (\<lambda>c. char_code c < 128 \<and> c \<noteq> CHR '';'') imei"
    using imei_text(3,5) [OF assms(1)] by (auto simp: list_all_iff)
  moreover have "list_all (\<lambda>c. char_code c < 128 \<and> c \<noteq> CHR '';'') line"
    using assms(2) by (auto simp: forging_def list_all_iff printable_def)
  ultimately show "list_all (\<lambda>c. char_code c < 128 \<and> c \<noteq> CHR '';'') (forged_report imei line)"
    by (simp add: forged_report_def forged_type_def newline_facts) (simp add: char_code_def)
  show "hd (forged_report imei line) = CHR ''i''" "last (forged_report imei line) = CHR '',''" "forged_report imei line \<noteq> []"
    by (simp_all add: forged_report_def)
qed

lemma forged_report_received:
  assumes "is_imei imei" and "forging line"
  shows "gps103_message (ascii_bytes (forged_report imei line))"
    and "gps103_classify (ascii_bytes (forged_report imei line)) = (KTracker, forged_report imei line)"
proof -
  let ?m = "forged_report imei line"
  note b = forged_report_bytes [OF assms]
  have "c = CHR '';''" if "(of_nat (char_code c) :: byte) = 0x3B" for c
  proof -
    have "unat (of_nat (char_code c) :: byte) = char_code c" by simp
    then have "char_code c = 59" using that by simp
    moreover have "char_of (59 :: nat) = CHR '';''" by code_simp
    ultimately show ?thesis by (metis char_of_char_code)
  qed
  then have "0x3B \<notin> set (ascii_bytes ?m)"
    using b(1) by (auto simp: ascii_bytes_def list_all_iff image_iff)
  moreover have "hd (ascii_bytes ?m) = 0x69" "last (ascii_bytes ?m) = 0x2C"
    by (simp_all add: ascii_bytes_def hd_map last_map b char_code_def)
  moreover have "ascii_bytes ?m \<noteq> []" by (simp add: ascii_bytes_def b)
  ultimately show "gps103_message (ascii_bytes ?m)"
    by (simp add: gps103_message_def is_space_byte_def)
  have "decode_ascii (ascii_bytes ?m) = Inr ?m"
    by (rule decode_encode) (use b(1) in \<open>auto simp: encode_ascii_def ascii_bytes_def list_all_iff\<close>)
  moreover have "strip ?m = ?m"
    by (rule strip_ends) (simp_all add: b is_space_char_def char_code_def)
  moreover have "\<not> starts_with ''##'' ?m" "starts_with ''imei:'' ?m" by (simp_all add: forged_report_def starts_with_def)
  moreover have "\<not> is_imei ?m"
  proof
    assume "is_imei ?m"
    then have "is_digit_char (hd ?m)" using b(4) by (auto simp: is_imei_def is_digits_def list_all_iff)
    then show False by (simp add: b is_digit_char_def char_code_def)
  qed
  ultimately show "gps103_classify (ascii_bytes ?m) = (KTracker, ?m)"
    by (simp add: gps103_classify_def Let_def)
qed

lemma printable_not_newline: "list_all printable s \<Longrightarrow> newline \<notin> set s"
  by (auto simp: list_all_iff printable_def newline_facts)

lemma fixed_text_one_line:
  "newline \<notin> set INFO_SIGN" "newline \<notin> set EM_DASH" "newline \<notin> set (utf8 [0xE2, 0x9D, 0x93])"
  "newline \<notin> set '' Unknown GPS103 message from ''" "newline \<notin> set '': ''"
  "newline \<notin> set '' Unrecognised GPS103 keyword ''" "newline \<notin> set '' from ''" "newline \<notin> set '' ''"
  "newline \<notin> set '' treated as a position report''"
  by code_simp+

lemma escaped_messages:
  "newline \<notin> set ip \<Longrightarrow> newline \<notin> set (unknown_message ip raw)"
  "is_imei imei \<Longrightarrow> newline \<notin> set (keyword_message imei data)"
  unfolding unknown_message_def keyword_message_def set_append Un_iff
  using fixed_text_one_line imei_text(4)
    printable_not_newline [OF conjunct1 [OF ascii_repr_safe], of "take 120 (decode_ascii_replace raw)"]
    printable_not_newline [OF conjunct1 [OF ascii_repr_safe], of "take 40 (map char_code (tk_keyword data))"]
  unfolding safe_bytes_def safe_string_def by blast+

lemma gps103_forges:
  assumes "is_imei imei" and "forging line" and "least \<le> 20"
  shows "\<exists>raw data before after. gps103_message raw \<and>
    gps103_classify raw = (KTracker, forged_report imei line) \<and>
    parse_tracker k (forged_report imei line) = Inr data \<and> tk_imei data = imei \<and>
    (\<exists>m \<in> set (report_messages imei data). log_output least now m ''INFO'' = before @ [newline] @ line @ [newline] @ after)"
proof -
  obtain data where data: "parse_tracker k (forged_report imei line) = Inr data" "tk_imei data = imei" "tk_known_keyword data"
    "\<not> tk_valid_fix data" "tk_fix_type data = Some (forged_type line)"
    using forged_report_parses [OF assms(1,2)] by blast
  have "log_output least now (no_fix_message imei data) ''INFO'' =
      (log_prefix now @ '' '' @ INFO_SIGN @ '' No GPS fix in report from '' @ imei @ '' (fix_type=L'') @ [newline] @ line @
      [newline] @ (''L) '' @ EM_DASH @ '' position skipped'' @ [newline])"
    using assms(3) data(5) by (simp add: log_output_def LEVELS_def no_fix_message_def forged_type_def)
  moreover have "no_fix_message imei data \<in> set (report_messages imei data)" using data(3,4) by (simp add: report_messages_def)
  ultimately show ?thesis using forged_report_received [OF assms(1,2)] data(1,2) by blast
qed

section \<open>Property\<close>

text \<open>
  C39. Text of a device in the log. \<^verbatim>\<open>_safe\<close> makes printable ASCII of bounded length of any bytes, and the
  GPS103 handler's lines for unknown messages and unknown keywords, which use it, are one line each.
  Not all text goes through it. Any GPS103 device can have the gateway print a line of its choice (of
  capitals and whatever else is printable, without comma and semicolon) as a line of its own, by a
  complete report under its own IMEI whose fix type holds the line; and any GT06 device any printable
  line, by the text of a command response.
\<close>

theorem device_text_in_log:
  assumes "line \<noteq> []" and "list_all printable line" and "last line \<noteq> CHR '' ''" and "length line < 60000"
    and "\<not> contains ''position!'' (lower line)" and "least \<le> 20" and "is_imei imei" and "newline \<notin> set ip"
  shows "(\<forall>raw. list_all printable (safe_bytes raw 120) \<and> length (safe_bytes raw 120) \<le> 722) \<and>
    (\<forall>raw data. newline \<notin> set (unknown_message ip raw) \<and> newline \<notin> set (keyword_message imei data)) \<and>
    (forging line \<longrightarrow>
      (\<exists>raw text data before after. gps103_message raw \<and> gps103_classify raw = (KTracker, text) \<and>
         parse_tracker k text = Inr data \<and> tk_imei data = imei \<and>
         (\<exists>m \<in> set (report_messages imei data).
            log_output least now m ''INFO'' = before @ [newline] @ line @ [newline] @ after))) \<and>
    (\<exists>frame r. gt06_frame frame \<and> gt06_protocol frame = Inr (Some ''21'') \<and>
      parse_command_response frame = Inr r \<and>
      (\<exists>m \<in> set (response_messages r).
         log_output least now m ''INFO'' = log_prefix now @ '' Raw Text : ok'' @ [newline] @ line @ [newline]))"
proof (intro conjI allI impI)
  fix raw
  have "length (take 120 (decode_ascii_replace raw)) \<le> 120" by simp
  with ascii_repr_safe [of "take 120 (decode_ascii_replace raw)"]
  show "list_all printable (safe_bytes raw 120)" "length (safe_bytes raw 120) \<le> 722"
    unfolding safe_bytes_def by (blast, linarith)
next
  assume "forging line"
  from gps103_forges [OF assms(7) this assms(6)]
  show "\<exists>raw text data before after. gps103_message raw \<and> gps103_classify raw = (KTracker, text) \<and>
         parse_tracker k text = Inr data \<and> tk_imei data = imei \<and>
         (\<exists>m \<in> set (report_messages imei data).
            log_output least now m ''INFO'' = before @ [newline] @ line @ [newline] @ after)"
    by blast
qed (use escaped_messages assms(7,8) gt06_forges [OF assms(1-6)] in blast)+

text \<open>A line the gateway itself could print, forged by either kind of device.\<close>

theorem device_text_in_log_witness:
  "\<exists>raw frame. gps103_message raw \<and> gt06_frame frame \<and>
     (\<exists>text data m before after. gps103_classify raw = (KTracker, text) \<and> parse_tracker False text = Inr data \<and>
        m \<in> set (report_messages ''123456789012345'' data) \<and>
        log_output 10 (epoch + 1000000) m ''INFO'' =
          before @ [newline] @ ''[2026-11-19 10:00:00.000] REJECTED'' @ [newline] @ after) \<and>
     (\<exists>r m. parse_command_response frame = Inr r \<and> m \<in> set (response_messages r) \<and>
        log_output 10 (epoch + 1000000) m ''INFO'' = log_prefix (epoch + 1000000) @ '' Raw Text : ok'' @ [newline] @
          ''[2026-11-19 10:00:00.000] REJECTED'' @ [newline])"
proof -
  let ?line = "''[2026-11-19 10:00:00.000] REJECTED''"
  have "list_all printable ?line" "\<not> contains ''position!'' (lower ?line)" "forging ?line" "is_imei ''123456789012345''"
    "newline \<notin> set ''10.0.0.7''"
    by code_simp+
  with device_text_in_log [of ?line 10 "''123456789012345''" "''10.0.0.7''" False "epoch + 1000000"]
  show ?thesis by fastforce
qed

end
