(* ===== verification/Spec2Isabelle.thy ===== *)
theory Spec2Isabelle
  imports Prelude Crc Framing Py_Float Py_Text Py_Time Py_Number Py_Repr Effects V5_Parser
    Gps103_Parser Teltonika_Parser Decoders Device_Registry World Config Persistence
    Handler_Contract Gt06_Handler Gps103_Handler Teltonika_Handler Command_Builder
    Command_Service Command_Api Console Gps103_Poller Health_Service Server Gateway Startup
    Logins Sessions Wire_Types Tasks Command_Delivery
    Position_Delivery Logging
begin

text \<open>
  A verification library for the ShaloTrack gateway, a Python asyncio server that vehicle trackers
  of three device families connect to over one TCP port.

  \<^bold>\<open>The program.\<close> \<^verbatim>\<open>tcp_server.py\<close> accepts a connection if a slot is free, reads its first bytes,
  chooses the device family (\<^verbatim>\<open>protocols/detect.py\<close>), cuts the stream into frames with the framer of
  the family and hands every frame to the handler of the family
  (\<^verbatim>\<open>services/packet_handler.py\<close>, \<^verbatim>\<open>gps103_handler.py\<close>, \<^verbatim>\<open>teltonika_handler.py\<close>). The handlers
  decode the frame (\<^verbatim>\<open>parsers/\<close>, \<^verbatim>\<open>decoders/\<close>), write the tables through \<^verbatim>\<open>repositories/\<close> and
  \<^verbatim>\<open>services/tracking_service.py\<close>, keep the registry of connected devices
  (\<^verbatim>\<open>services/device_registry.py\<close>) and answer the device. Beside the connections run the GPS103
  poller, an HTTP API in a thread of its own that sends commands to devices and reports the health
  of the gateway, and an operator's console.

  \<^bold>\<open>Theories, bottom up.\<close>
  \<^item> \<open>Prelude\<close>: bytes, integers in network order, results (\<open>exn + 'a\<close>), shared list lemmas.
  \<^item> \<open>Effects\<close>, \<open>World\<close>: Python's control flow (exceptions keep the effects made before them) as a
    state and exception monad, and the state it runs on: the registry, the tables the SQL names, the
    bytes written to each socket, the caches and counters, and the outside world as an oracle.
  \<^item> \<open>Py_Float\<close>, \<open>Py_Text\<close>, \<open>Py_Time\<close>, \<open>Py_Number\<close>, \<open>Py_Repr\<close>: what the code uses of Python: binary64
    rounding, \<^verbatim>\<open>strip\<close>/\<^verbatim>\<open>split\<close>/regular expressions, \<^verbatim>\<open>datetime\<close>, \<^verbatim>\<open>int()\<close>, \<^verbatim>\<open>float()\<close>, \<^verbatim>\<open>str()\<close>.
    \<open>Py_Float\<close> also models \<^verbatim>\<open>utils/numeric.py\<close>.
  \<^item> \<open>Crc\<close>: the two checksums, proved through one locale of reflected CRCs.
  \<^item> \<open>Framing\<close>: \<^verbatim>\<open>protocols/detect.py\<close>, \<^verbatim>\<open>utils/packet_buffer.py\<close> and the framers of the GPS103 and
    Teltonika parsers; the locale \<open>framer\<close> is what the read loop relies on.
  \<^item> \<open>V5_Parser\<close>, \<open>Gps103_Parser\<close>, \<open>Teltonika_Parser\<close>, \<open>Decoders\<close>: the decoders of the three families and
    of the textual answers of the GT06 devices.
  \<^item> \<open>Device_Registry\<close>: the registry, its operations, its invariant and its reachable states.
  \<^item> \<open>Persistence\<close>: the repositories, the tracking service, events, raw packets, command responses.
  \<^item> \<open>Handler_Contract\<close>, \<open>Gt06_Handler\<close>, \<open>Gps103_Handler\<close>, \<open>Teltonika_Handler\<close>: the locale
    \<open>frame_handler\<close> and its three interpretations, one per handler.
  \<^item> \<open>Command_Builder\<close>, \<open>Command_Service\<close>, \<open>Command_Api\<close>, \<open>Console\<close>: outgoing commands.
  \<^item> \<open>Gps103_Poller\<close>, \<open>Health_Service\<close>, \<open>Config\<close>: the poller, the health report, the configuration.
  \<^item> \<open>Server\<close>: connection slots, the life of a connection (\<open>phase\<close>, \<open>conn_turn\<close>, \<open>cleanup\<close>,
    \<open>handle_device\<close>), and the whole gateway as a step relation (\<open>gateway_step\<close>) with its invariant.
  \<^item> \<open>Gateway\<close>: the properties of connections and of the gateway that rest on all the components: the
    three framers as one interpretation of \<open>framer\<close>, segmentation, slots, isolation, the clean-up, the
    bounds on buffers; a lemma shows that a connection run alone is a path of the step relation.
  \<^item> \<open>Startup\<close>: the pool as a module's state, the Command API's thread, \<^verbatim>\<open>main()\<close>.
  \<^item> \<open>Logins\<close>, \<open>Position_Delivery\<close>, \<open>Command_Delivery\<close>: the way of a login, of a position and of a
    command through all the components, when no call fails, and what a reported success means.
    \<open>Position_Delivery\<close> also has the idempotent history: any list of saves, with any failures.
  \<^item> \<open>Sessions\<close>: the end of a connection at the grain of its \<^verbatim>\<open>await\<close>s (\<open>session_step\<close>), a refinement
    of \<open>gateway_step\<close>, with the reconnect race. \<open>Wire_Types\<close>: the messages of a family, and that every
    message written to a socket is one of the family of its connection while a polling cycle runs
    uninterrupted. \<open>Tasks\<close>: the poller's cycle and the command API's two threads cut where other
    coroutines run (\<open>task_step\<close>), the race of a stale poll, and the typing of messages without it.
  \<^item> \<open>Logging\<close>: \<^verbatim>\<open>utils/logger.py\<close> and the lines of the log that carry text of a device.

  \<^bold>\<open>Failures.\<close> \<open>outcomes w k\<close> says how the \<open>k\<close>-th external call (a SQL statement, borrowing a
  connection, a socket write) ends: it succeeds, it fails without effect, or it fails after its
  effect. Clocks, random numbers and identifiers are oracles of the same kind. A theorem about every
  world is therefore one about every pattern of failures; \<open>healthy w\<close> is the world in which no call
  fails. Every definition is total: no fuel is used anywhere. The loops of the framers and of the
  parsers are recursive functions with termination proofs, and the read loop is a state machine
  driven by the list of reads.

  \<^bold>\<open>Interleaving.\<close> The coroutines of asyncio switch at each \<^verbatim>\<open>await\<close>. \<open>gateway_step\<close> interleaves
  connections, the poller, the command API and other users of the database at a coarser grain: what
  one read makes a connection do is one step. Two relations refine it where the grain matters.
  \<open>session_step\<close> cuts the \<^verbatim>\<open>finally\<close> block of a connection at its \<^verbatim>\<open>await\<close>s. \<open>task_step\<close> cuts a polling
  cycle between the choice of the due devices and each write, and a command between the thread that
  chooses its coroutine and the event loop that runs it; one request of the poller, with its draining
  and the note of its time, is one step. Switches inside the handling of one frame are not covered.

  \<^bold>\<open>What the theorems show.\<close> For the wire: framing ends and does not depend on how TCP cuts a stream the
  framer accepts, frames are complete, the checksum of Teltonika packets detects every damaged pair of bytes, every
  message written to a socket has the family of its connection as long as the poller does not act on
  a stale choice, the Teltonika decoder inverts the encoder of the protocol, positions and times are
  exact to a stated error. For the state: the registry and the tables keep their invariant under every
  interleaving, with failures at any call; only admitted devices are authenticated; connections of the
  pool come back; slots are counted; a connection writes only to its own socket; a socket is logged
  out only for one of the listed reasons. For the tables: a login of an admitted device is served, a plausible
  position reaches the history and the live row, a list of saves with repetitions and failures stores
  each position once, a row for every acknowledged record is stored (rows are compared by device and
  time). For commands: nothing reaches a device of another family, nothing happens
  without the key, frames are built exactly when they can be, a success reported to the caller means
  that the bytes were written, and a command to a connected device is delivered when no call fails and the serials have not run
  out. For the process: it listens only with a pool, the pool outlives it only when the port was taken
  or the pool does not close, and every configuration it starts with is sane.

  Some theorems are about flaws of the code. A device that reconnects while its old connection is
  being torn down loses its new registration; a poll chosen before a device was replaced is written
  to a device of another family; a failing database on disconnect leaks the slot and leaves the
  device listed as online; a second login on a socket strands an entry; a newline in the fix type of a
  GPS103 report or in a GT06 command response starts a forged line of the log; command serial numbers
  run out.

  \<^bold>\<open>Not modelled.\<close> The log calls of the other modules (\<open>Logging\<close> models the logger and the lines that
  carry a device's text, not each call where it stands; the pictographs are left out); the dataclasses
  of \<^verbatim>\<open>models/\<close> and the constants of \<^verbatim>\<open>event_types.py\<close> and \<^verbatim>\<open>protocol_numbers.py\<close> that nothing uses
  (the ones that are used are records and literals of the parsers' theories); the banner and the
  headless branch of the console, which only print and sleep; asyncpg and the SQL
  engine (making the pool succeeds or fails, a statement is a function on the tables it names; errors
  the engine itself would raise, a unique violation or a missing index, are failing calls); leaving
  \<^verbatim>\<open>async with server\<close>, which closes the listener; the
  HTTP server and the sockets, which are library code; sleeping and cancellation; text outside ASCII
  in commands and HTTP requests; decimals of more than 15 significant digits in
  \<^verbatim>\<open>clean_decimal\<close>; \<^verbatim>\<open>utils/crc.py\<close> and \<^verbatim>\<open>utils/helper.py\<close>, which are empty; the tests and load
  generators.
\<close>

end
